(* ===== verification/Prelude.thy ===== *)
theory Prelude
  imports Main "HOL-Library.Word"
begin

text \<open>
  Shared vocabulary of the development: Go's 64-bit integers, \<open>time.Time\<close> and
  \<open>time.Duration\<close>, the iteration order of a Go map, results with an error, and the
  generic lemmas the component theories use.

  \<^item> A \<open>time.Time\<close> is the number of nanoseconds since Go's zero time, as an \<open>int\<close>, so
    the zero value of the type is \<open>0\<close> and \<open>IsZero\<close> is \<open>t = 0\<close>.
  \<^item> A \<open>time.Duration\<close> is an \<open>int64\<close> count of nanoseconds, as an \<open>int\<close> in the range of
    an \<open>int64\<close>. Products such as \<open>time.Duration(n) * time.Second\<close> wrap (\<open>mul64\<close>), and
    \<open>Time.Sub\<close> saturates (\<open>time_sub\<close>), as in Go.
  \<^item> A Go map is a partial function. A \<open>range\<close> over it visits the keys in an order the
    runtime picks: the operations that depend on that order take it as an argument
    \<open>ks\<close>, constrained by \<open>range_order ks m\<close>.
\<close>

section \<open>Collections of facts\<close>

named_theorems go_time \<open>unfolding of the time and duration operations\<close>
named_theorems inv_intros \<open>preservation of component invariants by operations\<close>

section \<open>Results\<close>

type_synonym ('e, 'a) result = "'e + 'a"

fun bind_result :: "('e, 'a) result \<Rightarrow> ('a \<Rightarrow> ('e, 'b) result) \<Rightarrow> ('e, 'b) result" where
  "bind_result (Inl e) f = Inl e"
| "bind_result (Inr a) f = f a"

fun is_ok :: "('e, 'a) result \<Rightarrow> bool" where
  "is_ok (Inl e) = False"
| "is_ok (Inr a) = True"

lemma bind_result_Inr_iff:
  "bind_result r f = Inr b \<longleftrightarrow> (\<exists>a. r = Inr a \<and> f a = Inr b)"
  by (cases r) auto

lemma bind_result_Inl_iff:
  "bind_result r f = Inl e \<longleftrightarrow> r = Inl e \<or> (\<exists>a. r = Inr a \<and> f a = Inl e)"
  by (cases r) auto

lemma is_ok_iff: "is_ok r \<longleftrightarrow> (\<exists>a. r = Inr a)"
  by (cases r) auto

section \<open>64-bit integers\<close>

definition wrap64 :: "int \<Rightarrow> int" where
  "wrap64 x = (x + 2 ^ 63) mod 2 ^ 64 - 2 ^ 63"

definition int64_ok :: "int \<Rightarrow> bool" where
  "int64_ok x \<longleftrightarrow> - (2 ^ 63) \<le> x \<and> x < 2 ^ 63"

definition add64 :: "int \<Rightarrow> int \<Rightarrow> int" where
  "add64 a b = wrap64 (a + b)"

definition sub64 :: "int \<Rightarrow> int \<Rightarrow> int" where
  "sub64 a b = wrap64 (a - b)"

definition mul64 :: "int \<Rightarrow> int \<Rightarrow> int" where
  "mul64 a b = wrap64 (a * b)"

lemma wrap64_range [simp]: "int64_ok (wrap64 x)"
proof -
  have "0 \<le> (x + 2 ^ 63) mod 2 ^ 64" and "(x + 2 ^ 63) mod 2 ^ 64 < (2 ^ 64 :: int)"
    by simp_all
  then show ?thesis by (simp add: wrap64_def int64_ok_def)
qed

lemma wrap64_id: "int64_ok x \<Longrightarrow> wrap64 x = x"
  by (simp add: wrap64_def int64_ok_def)

lemma wrap64_idem [simp]: "wrap64 (wrap64 x) = wrap64 x"
  by (rule wrap64_id) simp

text \<open>The wrap-around written out is the two's complement reading of a 64-bit word.\<close>

lemma wrap64_sint: "wrap64 x = sint (word_of_int x :: 64 word)"
  by (simp add: wrap64_def sint_sbintrunc' signed_take_bit_eq_take_bit_shift take_bit_eq_mod)

lemma mul64_exact: "int64_ok (a * b) \<Longrightarrow> mul64 a b = a * b"
  by (simp add: mul64_def wrap64_id)

lemma add64_exact: "int64_ok (a + b) \<Longrightarrow> add64 a b = a + b"
  by (simp add: add64_def wrap64_id)

lemma sub64_exact: "int64_ok (a - b) \<Longrightarrow> sub64 a b = a - b"
  by (simp add: sub64_def wrap64_id)

section \<open>Time\<close>

type_synonym time = int
type_synonym duration = int

definition nanosecond :: duration where "nanosecond = 1"
definition millisecond :: duration where "millisecond = 1000000"
definition second :: duration where "second = 1000000000"
definition minute :: duration where "minute = 60 * 1000000000"

lemma minute_pos [simp]: "0 < minute" and second_pos [simp]: "0 < second"
  and millisecond_pos [simp]: "0 < millisecond"
  by (simp_all add: minute_def second_def millisecond_def)

definition max_duration :: duration where "max_duration = 2 ^ 63 - 1"
definition min_duration :: duration where "min_duration = - (2 ^ 63)"

definition time_after :: "time \<Rightarrow> time \<Rightarrow> bool" where
  "time_after t u \<longleftrightarrow> u < t"

definition time_before :: "time \<Rightarrow> time \<Rightarrow> bool" where
  "time_before t u \<longleftrightarrow> t < u"

definition time_add :: "time \<Rightarrow> duration \<Rightarrow> time" where
  "time_add t d = t + d"

definition time_sub :: "time \<Rightarrow> time \<Rightarrow> duration" where
  "time_sub t u = max min_duration (min max_duration (t - u))"

definition is_zero_time :: "time \<Rightarrow> bool" where
  "is_zero_time t \<longleftrightarrow> t = 0"

lemmas time_order_defs [go_time] = time_after_def time_before_def time_add_def is_zero_time_def

lemma time_sub_less_iff [go_time]:
  assumes "0 < d" and "d \<le> max_duration"
  shows "time_sub t u < d \<longleftrightarrow> t - u < d"
  using assms by (auto simp: time_sub_def min_duration_def max_duration_def)

lemma time_sub_gt_iff [go_time]:
  assumes "0 < d" and "d < max_duration"
  shows "d < time_sub t u \<longleftrightarrow> d < t - u"
  using assms by (auto simp: time_sub_def min_duration_def max_duration_def)

lemma time_sub_exact: "int64_ok (t - u) \<Longrightarrow> time_sub t u = t - u"
  by (auto simp: time_sub_def int64_ok_def min_duration_def max_duration_def)

lemma time_sub_add_cancel: "int64_ok d \<Longrightarrow> time_sub (time_add t d) t = d"
  by (simp add: time_add_def time_sub_exact)

section \<open>Ranging over a Go map\<close>

definition range_order :: "'k list \<Rightarrow> ('k \<rightharpoonup> 'v) \<Rightarrow> bool" where
  "range_order ks m \<longleftrightarrow> distinct ks \<and> set ks = dom m"

lemma range_order_finite: "range_order ks m \<Longrightarrow> finite (dom m)"
  by (metis List.finite_set range_order_def)

lemma range_order_length: "range_order ks m \<Longrightarrow> length ks = card (dom m)"
  by (metis distinct_card range_order_def)

lemma range_order_exists: "finite (dom m) \<Longrightarrow> \<exists>ks. range_order ks m"
  using finite_distinct_list[of "dom m"] by (auto simp: range_order_def)

lemma range_order_set: "range_order ks m \<Longrightarrow> set ks = dom m"
  by (simp add: range_order_def)

text \<open>Removing the entries that fail a test, the effect of a loop that deletes as it ranges.\<close>

definition keep_entries :: "('k \<Rightarrow> 'v \<Rightarrow> bool) \<Rightarrow> ('k \<rightharpoonup> 'v) \<Rightarrow> ('k \<rightharpoonup> 'v)" where
  "keep_entries P m = (\<lambda>k. case m k of None \<Rightarrow> None | Some v \<Rightarrow> if P k v then Some v else None)"

lemma keep_entries_Some [simp]:
  "keep_entries P m k = Some v \<longleftrightarrow> m k = Some v \<and> P k v"
  by (auto simp: keep_entries_def split: option.splits)

lemma keep_entries_None:
  "keep_entries P m k = None \<longleftrightarrow> (\<forall>v. m k = Some v \<longrightarrow> \<not> P k v)"
  by (auto simp: keep_entries_def split: option.splits)

lemma keep_entries_at:
  "keep_entries P m k = (case m k of None \<Rightarrow> None | Some v \<Rightarrow> if P k v then Some v else None)"
  by (simp add: keep_entries_def)

lemma dom_keep_entries: "dom (keep_entries P m) \<subseteq> dom m"
  by (auto simp: dom_def)

lemma finite_keep_entries [simp]: "finite (dom m) \<Longrightarrow> finite (dom (keep_entries P m))"
  by (rule finite_subset[OF dom_keep_entries])

section \<open>Lists\<close>

fun count_true :: "bool list \<Rightarrow> nat" where
  "count_true [] = 0"
| "count_true (b # bs) = (if b then Suc (count_true bs) else count_true bs)"

lemma count_true_append [simp]: "count_true (xs @ ys) = count_true xs + count_true ys"
  by (induction xs) auto

lemma count_true_le_length: "count_true bs \<le> length bs"
  by (induction bs) auto

fun first_error :: "('a \<Rightarrow> 'e option) \<Rightarrow> 'a list \<Rightarrow> 'e option" where
  "first_error f [] = None"
| "first_error f (x # xs) = (case f x of Some e \<Rightarrow> Some e | None \<Rightarrow> first_error f xs)"

lemma first_error_None: "first_error f xs = None \<longleftrightarrow> (\<forall>x \<in> set xs. f x = None)"
  by (induction xs) (auto split: option.splits)

lemma first_error_Some: "first_error f xs = Some e \<Longrightarrow> \<exists>x \<in> set xs. f x = Some e"
  by (induction xs) (auto split: option.splits)

end
