(* ===== verification/Limiter.thy ===== *)
theory Limiter
  imports Prelude
begin

text \<open>
  The rate limiter, \<open>internal/ratelimit/limiter.go\<close>: per-key windows with temporary bans,
  periodic cleanup, runtime reconfiguration, and the semaphore that bounds how many
  rate-limited responses are delayed at once.

  A limiter is the record \<open>limiter\<close>, one field per field of the Go struct; the mutex makes
  each method one atomic step, so a method is a function from the limiter to the limiter,
  with the clock reading \<open>l.now()\<close> as an argument. A channel used as a semaphore is an
  entry of \<open>rl_sems\<close> (capacity and slots in use); its position is its identity, so a
  goroutine that still holds a slot of a replaced semaphore releases the old one, as the
  code does. Request counters are unbounded integers: they count requests, and 2^63
  requests in one window do not happen.
\<close>

section \<open>State\<close>

record limiter_config =
  lc_name :: string
  lc_enabled :: bool
  lc_requests_per_min :: int
  lc_ban_duration :: duration
  lc_throttle_delay :: duration
  lc_max_delay_slots :: int

record entry =
  e_window_start :: time
  e_count :: int
  e_banned_until :: time
  e_last_seen :: time

record semaphore =
  sem_cap :: nat
  sem_used :: nat

record limiter =
  rl_name :: string
  rl_enabled :: bool
  rl_requests_per_min :: int
  rl_ban_duration :: duration
  rl_window :: duration
  rl_cleanup_interval :: duration
  rl_entries :: "string \<rightharpoonup> entry"
  rl_last_cleanup :: time
  rl_throttle_delay :: duration
  rl_max_delay_slots :: int
  rl_delay_sem :: "nat option"
  rl_sems :: "semaphore list"

record limiter_status =
  ls_name :: string
  ls_enabled :: bool
  ls_requests_per_min :: int
  ls_active_entries :: nat
  ls_throttle_delay :: "duration option" \<comment> \<open>rendered by Duration.String in the JSON\<close>
  ls_max_delay_slots :: int

definition make_sem :: "int \<Rightarrow> semaphore" where
  "make_sem n = \<lparr>sem_cap = nat n, sem_used = 0\<rparr>"

definition new_rate_limiter :: "limiter_config \<Rightarrow> time \<Rightarrow> limiter" where
  "new_rate_limiter cfg now =
     (let max_slots = (if lc_max_delay_slots cfg \<le> 0 then 100 else lc_max_delay_slots cfg);
          throttled = 0 < lc_throttle_delay cfg
      in \<lparr>rl_name = lc_name cfg,
          rl_enabled = lc_enabled cfg,
          rl_requests_per_min = lc_requests_per_min cfg,
          rl_ban_duration = lc_ban_duration cfg,
          rl_window = minute,
          rl_cleanup_interval = minute,
          rl_entries = Map.empty,
          rl_last_cleanup = now,
          rl_throttle_delay = lc_throttle_delay cfg,
          rl_max_delay_slots = max_slots,
          rl_delay_sem = (if throttled then Some 0 else None),
          rl_sems = (if throttled then [make_sem max_slots] else [])\<rparr>)"

section \<open>Retry-After\<close>

fun log2_floor :: "nat \<Rightarrow> nat" where
  "log2_floor n = (if n < 2 then 0 else Suc (log2_floor (n div 2)))"

declare log2_floor.simps [simp del]

text \<open>
  \<open>int(math.Ceil(d.Seconds()))\<close>. \<open>Seconds\<close> adds the whole seconds and the fraction in a
  \<open>float64\<close>: for \<open>s\<close> whole seconds with \<open>2^k \<le> s < 2^(k+1)\<close> a fraction of at most half a
  unit in the last place, \<open>2^(k-53)\<close>, is rounded away. That needs \<open>s \<ge> 2^24\<close>.
\<close>

definition retry_after_seconds :: "duration \<Rightarrow> int" where
  "retry_after_seconds d =
     (if d \<le> 0 then 0
      else let s = d div second; ns = d mod second
           in if ns = 0 then s
              else if 0 < s \<and> ns * 2 ^ 53 \<le> second * 2 ^ log2_floor (nat s) then s
              else s + 1)"

section \<open>Allow\<close>

definition entry_stale :: "duration \<Rightarrow> time \<Rightarrow> entry \<Rightarrow> bool" where
  "entry_stale w now e \<longleftrightarrow>
     time_before (e_banned_until e) now \<and> 2 * w < time_sub now (e_last_seen e)"

definition cleanup_locked :: "time \<Rightarrow> limiter \<Rightarrow> limiter" where
  "cleanup_locked now l =
     (if time_sub now (rl_last_cleanup l) < rl_cleanup_interval l then l
      else l\<lparr>rl_entries := keep_entries (\<lambda>_ e. \<not> entry_stale (rl_window l) now e) (rl_entries l),
             rl_last_cleanup := now\<rparr>)"

definition new_entry :: "time \<Rightarrow> entry" where
  "new_entry now = \<lparr>e_window_start = now, e_count = 0, e_banned_until = 0, e_last_seen = 0\<rparr>"

text \<open>What \<open>Allow\<close> does to the entry of its key, and its answer.\<close>

definition entry_step ::
    "int \<Rightarrow> duration \<Rightarrow> duration \<Rightarrow> time \<Rightarrow> entry option \<Rightarrow> bool \<times> int \<times> entry" where
  "entry_step rpm w ban now eo =
     (let rec0 = (case eo of None \<Rightarrow> new_entry now | Some e \<Rightarrow> e)\<lparr>e_last_seen := now\<rparr>
      in if time_after (e_banned_until rec0) now
         then (False, retry_after_seconds (time_sub (e_banned_until rec0) now), rec0)
         else let rec1 = (if w \<le> time_sub now (e_window_start rec0)
                          then rec0\<lparr>e_window_start := now, e_count := 0\<rparr> else rec0);
                  rec2 = rec1\<lparr>e_count := e_count rec1 + 1\<rparr>
              in if rpm < e_count rec2
                 then let rec3 = rec2\<lparr>e_banned_until := time_add now ban\<rparr>
                      in (False, retry_after_seconds (time_sub (e_banned_until rec3) now), rec3)
                 else (True, 0, rec2))"

definition allow :: "time \<Rightarrow> string \<Rightarrow> limiter \<Rightarrow> bool \<times> int \<times> limiter" where
  "allow now key l =
     (if \<not> rl_enabled l \<or> rl_requests_per_min l \<le> 0 then (True, 0, l)
      else let l1 = cleanup_locked now l
           in case entry_step (rl_requests_per_min l1) (rl_window l1) (rl_ban_duration l1) now
                     (rl_entries l1 key)
              of (ok, retry, e) \<Rightarrow> (ok, retry, l1\<lparr>rl_entries := (rl_entries l1)(key \<mapsto> e)\<rparr>))"

section \<open>Delay slots\<close>

definition throttle_delay :: "limiter \<Rightarrow> duration" where
  "throttle_delay l = rl_throttle_delay l"

definition try_acquire_delay_slot :: "limiter \<Rightarrow> bool \<times> nat option \<times> limiter" where
  "try_acquire_delay_slot l =
     (case rl_delay_sem l of
        None \<Rightarrow> (False, None, l)
      | Some i \<Rightarrow>
          let s = rl_sems l ! i
          in if sem_used s < sem_cap s
             then (True, Some i, l\<lparr>rl_sems := (rl_sems l)[i := s\<lparr>sem_used := Suc (sem_used s)\<rparr>]\<rparr>)
             else (False, None, l))"

text \<open>\<open>None\<close>: the receive on an empty channel blocks.\<close>

definition release_delay_slot :: "nat option \<Rightarrow> limiter \<Rightarrow> limiter option" where
  "release_delay_slot sem l =
     (case sem of
        None \<Rightarrow> Some l
      | Some i \<Rightarrow>
          let s = rl_sems l ! i
          in if 0 < sem_used s
             then Some (l\<lparr>rl_sems := (rl_sems l)[i := s\<lparr>sem_used := sem_used s - 1\<rparr>]\<rparr>)
             else None)"

section \<open>Admin control\<close>

definition set_requests_per_min :: "int \<Rightarrow> limiter \<Rightarrow> limiter" where
  "set_requests_per_min rpm l = l\<lparr>rl_requests_per_min := rpm\<rparr>"

definition new_sem :: "int \<Rightarrow> limiter \<Rightarrow> limiter" where
  "new_sem slots l =
     l\<lparr>rl_delay_sem := Some (length (rl_sems l)), rl_sems := rl_sems l @ [make_sem slots]\<rparr>"

definition set_throttle_delay :: "duration \<Rightarrow> limiter \<Rightarrow> limiter" where
  "set_throttle_delay delay l =
     (let l1 = l\<lparr>rl_throttle_delay := delay\<rparr>
      in if 0 < delay \<and> rl_delay_sem l1 = None then
           new_sem (if rl_max_delay_slots l1 \<le> 0 then 100 else rl_max_delay_slots l1) l1
         else if delay = 0 then l1\<lparr>rl_delay_sem := None\<rparr>
         else l1)"

definition set_max_delay_slots :: "int \<Rightarrow> limiter \<Rightarrow> limiter" where
  "set_max_delay_slots slots l =
     (let n = (if slots \<le> 0 then 100 else slots);
          l1 = l\<lparr>rl_max_delay_slots := n\<rparr>
      in if rl_delay_sem l1 \<noteq> None then new_sem n l1 else l1)"

definition enable :: "limiter \<Rightarrow> limiter" where
  "enable l = l\<lparr>rl_enabled := True\<rparr>"

definition disable :: "limiter \<Rightarrow> limiter" where
  "disable l = l\<lparr>rl_enabled := False\<rparr>"

definition get_status :: "limiter \<Rightarrow> limiter_status" where
  "get_status l =
     \<lparr>ls_name = rl_name l, ls_enabled = rl_enabled l,
      ls_requests_per_min = rl_requests_per_min l,
      ls_active_entries = card (dom (rl_entries l)),
      ls_throttle_delay = (if 0 < rl_throttle_delay l then Some (rl_throttle_delay l) else None),
      ls_max_delay_slots = (if 0 < rl_throttle_delay l then rl_max_delay_slots l else 0)\<rparr>"

section \<open>Retry-After: bounds\<close>

lemma log2_floor_le: "0 < n \<Longrightarrow> 2 ^ log2_floor n \<le> n"
proof (induction n rule: log2_floor.induct)
  case (1 n)
  show ?case
  proof (cases "n < 2")
    case True
    then show ?thesis using 1 by (simp add: log2_floor.simps[of n])
  next
    case False
    then have "2 ^ log2_floor (n div 2) \<le> n div 2" using 1 by simp
    then show ?thesis using False by (simp add: log2_floor.simps[of n])
  qed
qed

lemma log2_floor_small:
  assumes "0 < n" and "n < 2 ^ k"
  shows "log2_floor n < k"
proof -
  have "(2 :: nat) ^ log2_floor n < 2 ^ k"
    using log2_floor_le[OF assms(1)] assms(2) by linarith
  then show ?thesis by simp
qed

text \<open>Below 2^24 seconds (194 days) the rounded value is the exact ceiling.\<close>

lemma retry_after_exact:
  assumes "0 < d" and "d < 2 ^ 24 * second"
  shows "retry_after_seconds d = (d + second - 1) div second"
proof -
  define s where "s = d div second"
  define ns where "ns = d mod second"
  have d: "d = s * second + ns" and ns: "0 \<le> ns" "ns < second"
    by (simp_all add: s_def ns_def)
  have ceil: "(d + second - 1) div second = (if ns = 0 then s else s + 1)"
  proof (cases "ns = 0")
    case True
    have "(d + second - 1) div second = (second - 1 + s * second) div second"
      using d True by (simp add: algebra_simps)
    also have "\<dots> = s + (second - 1) div second" by (rule div_mult_self1) (simp add: second_def)
    finally show ?thesis using True by (simp add: second_def)
  next
    case False
    have "(d + second - 1) div second = (ns - 1 + (s + 1) * second) div second"
      using d by (simp add: algebra_simps)
    also have "\<dots> = s + 1 + (ns - 1) div second" by (rule div_mult_self1) (simp add: second_def)
    finally show ?thesis using False ns by (simp add: div_pos_pos_trivial)
  qed
  have no_loss: "\<not> ns * 2 ^ 53 \<le> second * 2 ^ log2_floor (nat s)" if "0 < s" and "ns \<noteq> 0"
  proof -
    have "s < 2 ^ 24"
      using assms(2) d ns by (simp add: second_def)
    then have "nat s < 2 ^ 24" by simp
    with that have "log2_floor (nat s) \<le> 23"
      using log2_floor_small[of "nat s" 24] by simp
    then have "(2 :: int) ^ log2_floor (nat s) \<le> 2 ^ 23"
      by (rule power_increasing) simp
    then have "second * 2 ^ log2_floor (nat s) \<le> second * 2 ^ 23"
      by (simp add: second_def)
    moreover have "second * 2 ^ 23 < ns * 2 ^ 53"
      using ns \<open>ns \<noteq> 0\<close> by (simp add: second_def)
    ultimately show ?thesis by linarith
  qed
  show ?thesis
    unfolding ceil using assms(1) no_loss
    by (auto simp: retry_after_seconds_def Let_def s_def[symmetric] ns_def[symmetric])
qed

lemma retry_after_nonneg: "0 \<le> retry_after_seconds d"
  by (auto simp: retry_after_seconds_def Let_def second_def pos_imp_zdiv_nonneg_iff)

lemma retry_after_covers:
  assumes "d < 2 ^ 24 * second"
  shows "d \<le> retry_after_seconds d * second"
proof (cases "0 < d")
  case True
  have "d + second - 1 = (d + second - 1) div second * second + (d + second - 1) mod second"
    by simp
  moreover have "(d + second - 1) mod second < second" by simp
  ultimately have "d \<le> (d + second - 1) div second * second" by linarith
  then show ?thesis using retry_after_exact[OF True assms] by simp
next
  case False
  then show ?thesis by (simp add: retry_after_seconds_def)
qed

end
