(* ===== verification/Limiter_Props.thy ===== *)
theory Limiter_Props
  imports Limiter
begin

text \<open>
  What the rate limiter guarantees over whole runs of \<open>Allow\<close>.

  \<^item> \<open>allow_ref\<close> is the limiter without cleanup. \<open>lim_sim\<close> relates a limiter with its
    reference at a clock reading; \<open>allow_sim\<close> is the simulation step, \<open>run_sim\<close> lifts it to
    runs: deleting stale entries never changes an answer.
  \<^item> In the reference an answer depends on the key's own entry only (\<open>run_ref_key\<close>), which
    gives key isolation and reduces counting to \<open>run_entry\<close>, the run of one entry.
\<close>

section \<open>Runs\<close>

fun run_allow :: "(time \<times> string) list \<Rightarrow> limiter \<Rightarrow> (string \<times> bool \<times> int) list" where
  "run_allow [] l = []"
| "run_allow ((now, k) # evs) l =
     (case allow now k l of (ok, retry, l') \<Rightarrow> (k, ok, retry) # run_allow evs l')"

fun state_after :: "(time \<times> string) list \<Rightarrow> limiter \<Rightarrow> limiter" where
  "state_after [] l = l"
| "state_after ((now, k) # evs) l = state_after evs (snd (snd (allow now k l)))"

definition active :: "limiter \<Rightarrow> bool" where
  "active l \<longleftrightarrow> rl_enabled l \<and> 0 < rl_requests_per_min l"

definition window_ok :: "limiter \<Rightarrow> bool" where
  "window_ok l \<longleftrightarrow> rl_window l = minute \<and> rl_cleanup_interval l = minute"

definition entry_ok :: "entry \<Rightarrow> bool" where
  "entry_ok e \<longleftrightarrow> 0 \<le> e_count e \<and> e_window_start e \<le> e_last_seen e"

definition entries_ok :: "limiter \<Rightarrow> bool" where
  "entries_ok l \<longleftrightarrow> (\<forall>k e. rl_entries l k = Some e \<longrightarrow> entry_ok e)"

definition limiter_ok :: "limiter \<Rightarrow> bool" where
  "limiter_ok l \<longleftrightarrow> window_ok l \<and> entries_ok l \<and> finite (dom (rl_entries l))"

definition seen_before :: "time \<Rightarrow> limiter \<Rightarrow> bool" where
  "seen_before t l \<longleftrightarrow> (\<forall>k e. rl_entries l k = Some e \<longrightarrow> e_last_seen e \<le> t)"

lemma minute_duration: "0 < minute" "minute \<le> max_duration" "2 * minute < max_duration"
  by (simp_all add: minute_def max_duration_def)

lemma sub_minute_less [simp]: "time_sub t u < minute \<longleftrightarrow> t - u < minute"
  by (rule time_sub_less_iff) (simp_all add: minute_duration)

lemma sub_minute_le [simp]: "minute \<le> time_sub t u \<longleftrightarrow> minute \<le> t - u"
  by (metis linorder_not_le sub_minute_less)

lemma sub_two_minutes [simp]: "2 * minute < time_sub t u \<longleftrightarrow> 2 * minute < t - u"
  by (rule time_sub_gt_iff) (simp_all add: minute_duration)

lemma entry_step_new: "entry_step rpm w ban now None = entry_step rpm w ban now (Some (new_entry now))"
  by (simp add: entry_step_def)

lemma entry_step_result:
  assumes "entry_step rpm minute ban now (Some e) = (ok, retry, e')"
  shows
    "if now < e_banned_until e then \<not> ok \<and> e' = e\<lparr>e_last_seen := now\<rparr>
     else let ws = (if minute \<le> now - e_window_start e then now else e_window_start e);
              n = (if minute \<le> now - e_window_start e then 1 else e_count e + 1)
          in e_window_start e' = ws \<and> e_count e' = n \<and> e_last_seen e' = now
             \<and> (ok \<longleftrightarrow> n \<le> rpm)
             \<and> e_banned_until e' = (if ok then e_banned_until e else now + ban)"
  using assms
  by (auto simp: entry_step_def go_time Let_def split: if_splits)

lemma entry_step_ok:
  assumes "entry_step rpm minute ban now eo = (ok, retry, e')"
    and "\<And>e. eo = Some e \<Longrightarrow> entry_ok e \<and> e_last_seen e \<le> now"
  shows "entry_ok e'" and "e_last_seen e' = now"
  using assms by (cases eo; fastforce simp: entry_step_def go_time entry_ok_def new_entry_def Let_def
      split: if_splits)+

lemma cleanup_locked_fields [simp]:
  "rl_enabled (cleanup_locked now l) = rl_enabled l"
  "rl_requests_per_min (cleanup_locked now l) = rl_requests_per_min l"
  "rl_window (cleanup_locked now l) = rl_window l"
  "rl_cleanup_interval (cleanup_locked now l) = rl_cleanup_interval l"
  "rl_ban_duration (cleanup_locked now l) = rl_ban_duration l"
  "rl_delay_sem (cleanup_locked now l) = rl_delay_sem l"
  "rl_sems (cleanup_locked now l) = rl_sems l"
  "rl_max_delay_slots (cleanup_locked now l) = rl_max_delay_slots l"
  "rl_throttle_delay (cleanup_locked now l) = rl_throttle_delay l"
  "rl_name (cleanup_locked now l) = rl_name l"
  by (simp_all add: cleanup_locked_def)

lemma cleanup_entries_Some:
  "rl_entries (cleanup_locked now l) k = Some e \<Longrightarrow> rl_entries l k = Some e"
  by (auto simp: cleanup_locked_def split: if_splits)

lemma cleanup_entries_gone:
  assumes "rl_entries (cleanup_locked now l) k = None" and "rl_entries l k = Some e"
  shows "entry_stale (rl_window l) now e"
  using assms by (auto simp: cleanup_locked_def keep_entries_None split: if_splits)

lemma allow_fields:
  assumes "allow now k l = (ok, retry, l')"
  shows "rl_enabled l' = rl_enabled l" "rl_requests_per_min l' = rl_requests_per_min l"
    "rl_window l' = rl_window l" "rl_cleanup_interval l' = rl_cleanup_interval l"
    "rl_ban_duration l' = rl_ban_duration l" "rl_delay_sem l' = rl_delay_sem l"
    "rl_sems l' = rl_sems l" "rl_max_delay_slots l' = rl_max_delay_slots l"
    "rl_throttle_delay l' = rl_throttle_delay l" "rl_name l' = rl_name l"
  using assms by (auto simp: allow_def Let_def split: if_splits prod.splits)

lemma allow_active:
  assumes "active l"
  shows "allow now k l =
    (case entry_step (rl_requests_per_min l) (rl_window l) (rl_ban_duration l) now
            (rl_entries (cleanup_locked now l) k)
     of (ok, retry, e) \<Rightarrow>
       (ok, retry, (cleanup_locked now l)\<lparr>rl_entries := (rl_entries (cleanup_locked now l))(k \<mapsto> e)\<rparr>))"
  using assms by (simp add: allow_def active_def Let_def)

lemma active_allow [simp]: "active (snd (snd (allow now k l))) = active l"
proof -
  obtain ok r l' where "allow now k l = (ok, r, l')" by (cases "allow now k l")
  then show ?thesis using allow_fields(1,2)[of now k l ok r l'] by (simp add: active_def)
qed

text \<open>The limiter's own invariant is kept by \<open>Allow\<close>, at clock readings that do not go back.\<close>

lemma limiter_ok_new: "limiter_ok (new_rate_limiter cfg now)"
  by (simp add: new_rate_limiter_def limiter_ok_def window_ok_def entries_ok_def Let_def)

lemma limiter_ok_cleanup: "limiter_ok l \<Longrightarrow> limiter_ok (cleanup_locked now l)"
proof -
  assume ok: "limiter_ok l"
  then have "window_ok (cleanup_locked now l)" by (simp add: limiter_ok_def window_ok_def)
  moreover have "entries_ok (cleanup_locked now l)"
    using ok cleanup_entries_Some unfolding limiter_ok_def entries_ok_def by blast
  moreover have "finite (dom (rl_entries (cleanup_locked now l)))"
    using ok by (simp add: limiter_ok_def cleanup_locked_def)
  ultimately show ?thesis by (simp add: limiter_ok_def)
qed

lemma seen_before_cleanup: "seen_before t l \<Longrightarrow> seen_before t (cleanup_locked now l)"
  by (auto simp: seen_before_def dest: cleanup_entries_Some)

lemma limiter_ok_allow:
  assumes "limiter_ok l" and "seen_before now l" and "allow now k l = (ok, retry, l')"
  shows "limiter_ok l'" and "active l \<Longrightarrow> seen_before now l'"
proof -
  let ?c = "cleanup_locked now l"
  have c: "limiter_ok ?c" "seen_before now ?c"
    using assms limiter_ok_cleanup seen_before_cleanup by blast+
  have step: "\<exists>e. l' = ?c\<lparr>rl_entries := (rl_entries ?c)(k \<mapsto> e)\<rparr> \<and> entry_ok e \<and> e_last_seen e = now"
    if "active l"
  proof -
    have w: "rl_window l = minute" using assms(1) by (simp add: limiter_ok_def window_ok_def)
    obtain ok' r e where es: "entry_step (rl_requests_per_min l) minute (rl_ban_duration l) now
        (rl_entries ?c k) = (ok', r, e)"
      by (cases "entry_step (rl_requests_per_min l) minute (rl_ban_duration l) now (rl_entries ?c k)")
    have old: "\<And>e0. rl_entries ?c k = Some e0 \<Longrightarrow> entry_ok e0 \<and> e_last_seen e0 \<le> now"
      using c by (simp add: limiter_ok_def entries_ok_def seen_before_def)
    from entry_step_ok[OF es old] es assms(3) w show ?thesis
      by (auto simp: allow_active[OF that])
  qed
  show "limiter_ok l'"
  proof (cases "active l")
    case True
    from step[OF True] obtain e where l': "l' = ?c\<lparr>rl_entries := (rl_entries ?c)(k \<mapsto> e)\<rparr>"
      and e: "entry_ok e" by blast
    have "entries_ok l'"
      using c(1) e by (auto simp: l' limiter_ok_def entries_ok_def)
    then show ?thesis using c(1) by (simp add: l' limiter_ok_def window_ok_def)
  next
    case False
    then show ?thesis using assms by (auto simp: allow_def active_def)
  qed
  show "seen_before now l'" if "active l"
    using step[OF that] c(2) by (auto simp: seen_before_def split: if_splits)
qed

section \<open>The reference without cleanup\<close>

definition allow_ref :: "time \<Rightarrow> string \<Rightarrow> limiter \<Rightarrow> bool \<times> int \<times> limiter" where
  "allow_ref now key l =
     (if \<not> active l then (True, 0, l)
      else case entry_step (rl_requests_per_min l) (rl_window l) (rl_ban_duration l) now
                  (rl_entries l key)
           of (ok, retry, e) \<Rightarrow> (ok, retry, l\<lparr>rl_entries := (rl_entries l)(key \<mapsto> e)\<rparr>))"

fun run_ref :: "(time \<times> string) list \<Rightarrow> limiter \<Rightarrow> (string \<times> bool \<times> int) list" where
  "run_ref [] l = []"
| "run_ref ((now, k) # evs) l =
     (case allow_ref now k l of (ok, retry, l') \<Rightarrow> (k, ok, retry) # run_ref evs l')"

text \<open>
  At clock reading \<open>now\<close> two entries behave alike: the same window, count and ban, where a
  ban that is over is as good as none, and a missing entry is as good as one whose window
  and ban are over.
\<close>

fun entry_sim :: "time \<Rightarrow> entry option \<Rightarrow> entry option \<Rightarrow> bool" where
  "entry_sim now None None = True"
| "entry_sim now None (Some e) = (e_banned_until e \<le> now \<and> minute \<le> now - e_window_start e)"
| "entry_sim now (Some d) None = False"
| "entry_sim now (Some d) (Some e) =
     (e_window_start d = e_window_start e \<and> e_count d = e_count e
      \<and> (e_banned_until d = e_banned_until e
         \<or> (e_banned_until d \<le> now \<and> e_banned_until e \<le> now)))"

definition lim_sim :: "time \<Rightarrow> limiter \<Rightarrow> limiter \<Rightarrow> bool" where
  "lim_sim now l m \<longleftrightarrow>
     rl_enabled l = rl_enabled m \<and> rl_requests_per_min l = rl_requests_per_min m
     \<and> rl_ban_duration l = rl_ban_duration m \<and> rl_window l = minute \<and> rl_window m = minute
     \<and> (\<forall>k. entry_sim now (rl_entries l k) (rl_entries m k))"

lemma entry_sim_refl [simp]: "entry_sim now eo eo"
  by (cases eo) auto

lemma entry_sim_mono: "entry_sim s d e \<Longrightarrow> s \<le> t \<Longrightarrow> entry_sim t d e"
  by (induction s d e rule: entry_sim.induct) auto

lemma lim_sim_mono: "lim_sim s l m \<Longrightarrow> s \<le> t \<Longrightarrow> lim_sim t l m"
  by (auto simp: lim_sim_def intro: entry_sim_mono)

lemma lim_sim_refl: "window_ok l \<Longrightarrow> lim_sim now l l"
  by (simp add: lim_sim_def window_ok_def)

lemma entry_step_sim:
  assumes "entry_sim now d e" and "0 < rpm" and "0 \<le> now"
    and "entry_step rpm minute ban now d = (ok, retry, d')"
    and "entry_step rpm minute ban now e = (ok2, retry2, e')"
  shows "ok = ok2 \<and> retry = retry2 \<and> entry_sim now (Some d') (Some e')"
  using assms
  by (cases d; cases e) (auto simp: entry_step_def go_time new_entry_def Let_def split: if_splits)

lemma cleanup_sim:
  assumes "lim_sim now l m" and "entries_ok l"
  shows "lim_sim now (cleanup_locked now l) m"
proof -
  have w: "rl_window l = minute" using assms(1) by (simp add: lim_sim_def)
  have "entry_sim now (rl_entries (cleanup_locked now l) k) (rl_entries m k)" for k
  proof (cases "rl_entries (cleanup_locked now l) k")
    case (Some e)
    then have "rl_entries l k = Some e" by (rule cleanup_entries_Some)
    then show ?thesis using Some assms(1) unfolding lim_sim_def by metis
  next
    case None
    show ?thesis
    proof (cases "rl_entries l k")
      case (Some d)
      have "entry_stale minute now d"
        using cleanup_entries_gone[OF None Some] w by simp
      moreover have "entry_ok d" using assms(2) Some by (simp add: entries_ok_def)
      ultimately have "e_banned_until d < now \<and> 2 * minute < now - e_last_seen d
          \<and> e_window_start d \<le> e_last_seen d"
        by (simp add: entry_stale_def entry_ok_def time_before_def)
      then have d: "e_banned_until d < now" "minute \<le> now - e_window_start d"
        using minute_pos by linarith+
      from assms(1) Some obtain e where "rl_entries m k = Some e" "entry_sim now (Some d) (Some e)"
        unfolding lim_sim_def by (metis entry_sim.simps(3) option.exhaust)
      with d None show ?thesis by auto
    qed (use None assms(1) in \<open>auto simp: lim_sim_def dest: spec[of _ k]\<close>)
  qed
  then show ?thesis using assms(1) by (simp add: lim_sim_def)
qed

lemma allow_sim:
  assumes "lim_sim now l m" and "entries_ok l" and "0 \<le> now"
    and "allow now k l = (ok, retry, l')" and "allow_ref now k m = (ok2, retry2, m')"
  shows "ok = ok2 \<and> retry = retry2 \<and> lim_sim now l' m'"
proof (cases "active l")
  case False
  then show ?thesis using assms by (auto simp: allow_def allow_ref_def active_def lim_sim_def)
next
  case True
  let ?c = "cleanup_locked now l"
  have c: "lim_sim now ?c m" by (rule cleanup_sim[OF assms(1,2)])
  have m: "active m" using True assms(1) by (simp add: active_def lim_sim_def)
  obtain a r d where d: "entry_step (rl_requests_per_min l) minute (rl_ban_duration l) now
      (rl_entries ?c k) = (a, r, d)" by (cases "entry_step (rl_requests_per_min l) minute
      (rl_ban_duration l) now (rl_entries ?c k)")
  obtain a' r' e where e: "entry_step (rl_requests_per_min l) minute (rl_ban_duration l) now
      (rl_entries m k) = (a', r', e)" by (cases "entry_step (rl_requests_per_min l) minute
      (rl_ban_duration l) now (rl_entries m k)")
  have "entry_sim now (rl_entries ?c k) (rl_entries m k)" using c by (simp add: lim_sim_def)
  from entry_step_sim[OF this _ assms(3) d e] True
  have es: "a = a' \<and> r = r' \<and> entry_sim now (Some d) (Some e)" by (simp add: active_def)
  have "(ok, retry, l') = (a, r, ?c\<lparr>rl_entries := (rl_entries ?c)(k \<mapsto> d)\<rparr>)"
    using assms(1,4) d by (simp add: allow_active[OF True] lim_sim_def)
  moreover have "(ok2, retry2, m') = (a', r', m\<lparr>rl_entries := (rl_entries m)(k \<mapsto> e)\<rparr>)"
    using assms(1,5) e m by (simp add: allow_ref_def lim_sim_def)
  ultimately show ?thesis using es c by (auto simp: lim_sim_def)
qed

lemma run_sim:
  assumes "lim_sim t l m" and "limiter_ok l" and "seen_before t l"
    and "sorted_wrt (\<le>) (t # map fst evs)" and "0 \<le> t"
  shows "run_allow evs l = run_ref evs m"
  using assms
proof (induction evs arbitrary: t l m)
  case Nil
  then show ?case by simp
next
  case (Cons ev evs)
  obtain now k where ev: "ev = (now, k)" by (cases ev)
  obtain ok r l' where a: "allow now k l = (ok, r, l')" by (cases "allow now k l")
  obtain ok2 r2 m' where b: "allow_ref now k m = (ok2, r2, m')" by (cases "allow_ref now k m")
  have now: "t \<le> now" using Cons.prems(4) ev by simp
  have seen: "seen_before now l" using Cons.prems(3) now by (fastforce simp: seen_before_def)
  have sim: "lim_sim now l m" by (rule lim_sim_mono[OF Cons.prems(1) now])
  have pos: "0 \<le> now" using Cons.prems(5) now by simp
  from allow_sim[OF sim _ pos a b] Cons.prems(2)
  have step: "ok = ok2 \<and> r = r2 \<and> lim_sim now l' m'" by (simp add: limiter_ok_def)
  have ok': "limiter_ok l'" by (rule limiter_ok_allow(1)[OF Cons.prems(2) seen a])
  have seen': "seen_before now l'"
    using limiter_ok_allow(2)[OF Cons.prems(2) seen a] seen a
    by (cases "active l") (auto simp: allow_def active_def)
  have "run_allow evs l' = run_ref evs m'"
    using Cons.IH[of now l' m'] step ok' seen' Cons.prems(4) pos ev by simp
  then show ?case using ev a b step by simp
qed

section \<open>One key\<close>

fun run_entry :: "int \<Rightarrow> duration \<Rightarrow> time list \<Rightarrow> entry option \<Rightarrow> (bool \<times> int) list" where
  "run_entry rpm ban [] eo = []"
| "run_entry rpm ban (now # ts) eo =
     (case entry_step rpm minute ban now eo of
        (ok, retry, e) \<Rightarrow> (ok, retry) # run_entry rpm ban ts (Some e))"

definition key_answers :: "string \<Rightarrow> (string \<times> bool \<times> int) list \<Rightarrow> (bool \<times> int) list" where
  "key_answers k rs = map snd (filter (\<lambda>p. fst p = k) rs)"

definition key_times :: "string \<Rightarrow> (time \<times> string) list \<Rightarrow> time list" where
  "key_times k evs = map fst (filter (\<lambda>p. snd p = k) evs)"

lemma run_ref_key:
  assumes "active m" and "rl_window m = minute"
  shows "key_answers k (run_ref evs m)
       = run_entry (rl_requests_per_min m) (rl_ban_duration m) (key_times k evs) (rl_entries m k)"
  using assms
proof (induction evs arbitrary: m)
  case Nil
  then show ?case by (simp add: key_answers_def key_times_def)
next
  case (Cons ev evs)
  obtain now j where ev: "ev = (now, j)" by (cases ev)
  obtain ok r e where es: "entry_step (rl_requests_per_min m) minute (rl_ban_duration m) now
      (rl_entries m j) = (ok, r, e)"
    by (cases "entry_step (rl_requests_per_min m) minute (rl_ban_duration m) now (rl_entries m j)")
  let ?m' = "m\<lparr>rl_entries := (rl_entries m)(j \<mapsto> e)\<rparr>"
  have m': "active ?m'" "rl_window ?m' = minute" using Cons.prems by (simp_all add: active_def)
  have "allow_ref now j m = (ok, r, ?m')"
    using Cons.prems es by (simp add: allow_ref_def)
  then have run: "run_ref (ev # evs) m = (j, ok, r) # run_ref evs ?m'" using ev by simp
  show ?case
  proof (cases "j = k")
    case True
    then show ?thesis
      using Cons.IH[OF m'] es unfolding run by (simp add: ev key_answers_def key_times_def)
  next
    case False
    then show ?thesis
      using Cons.IH[OF m'] unfolding run by (simp add: ev key_answers_def key_times_def)
  qed
qed

fun allowed :: "(bool \<times> int) list \<Rightarrow> int" where
  "allowed [] = 0"
| "allowed ((ok, r) # rs) = (if ok then 1 else 0) + allowed rs"

text \<open>As long as the entry's window is not over, no more than what is left of it passes.\<close>

lemma run_entry_in_window:
  assumes "\<forall>t \<in> set ts. t - e_window_start e < minute" and "0 \<le> e_count e" and "0 < rpm"
  shows "allowed (run_entry rpm ban ts (Some e)) \<le> max 0 (rpm - e_count e)"
  using assms
proof (induction ts arbitrary: e)
  case Nil
  then show ?case by simp
next
  case (Cons now ts)
  obtain ok r e' where es: "entry_step rpm minute ban now (Some e) = (ok, r, e')"
    by (cases "entry_step rpm minute ban now (Some e)")
  have win: "now - e_window_start e < minute" using Cons.prems by simp
  have ws: "e_window_start e' = e_window_start e" and cnt: "0 \<le> e_count e'"
    using entry_step_result[OF es] win Cons.prems(2) by (auto simp: Let_def split: if_splits)
  have "allowed (run_entry rpm ban ts (Some e')) \<le> max 0 (rpm - e_count e')"
    using Cons.IH[of e'] Cons.prems ws cnt by simp
  moreover have "e_count e' = e_count e + 1 \<and> (ok \<longleftrightarrow> e_count e + 1 \<le> rpm)
      \<or> e_count e' = e_count e \<and> \<not> ok"
    using entry_step_result[OF es] win by (auto simp: Let_def split: if_splits)
  ultimately show ?case using es by auto
qed

text \<open>Within any span of one minute at most one window starts anew.\<close>

lemma run_entry_in_minute:
  assumes "sorted_wrt (\<le>) ts" and "\<forall>t \<in> set ts. t0 \<le> t \<and> t < t0 + minute"
    and "0 \<le> e_count e" and "0 < rpm"
  shows "allowed (run_entry rpm ban ts (Some e)) \<le> max 0 (rpm - e_count e) + rpm"
  using assms
proof (induction ts arbitrary: e)
  case Nil
  then show ?case by simp
next
  case (Cons now ts)
  obtain ok r e' where es: "entry_step rpm minute ban now (Some e) = (ok, r, e')"
    by (cases "entry_step rpm minute ban now (Some e)")
  note res = entry_step_result[OF es]
  show ?case
  proof (cases "\<not> now < e_banned_until e \<and> minute \<le> now - e_window_start e")
    case True
    then have e': "e_window_start e' = now" "e_count e' = 1" "ok"
      using res Cons.prems(4) by (auto simp: Let_def)
    have "\<forall>t \<in> set ts. t - now < minute"
      using Cons.prems(2) by (auto simp: algebra_simps)
    then have "allowed (run_entry rpm ban ts (Some e')) \<le> max 0 (rpm - 1)"
      using run_entry_in_window[of ts e' rpm ban] e' Cons.prems(4) by simp
    then show ?thesis using es e' Cons.prems(4) by simp
  next
    case False
    then have "e_count e' = e_count e + 1 \<and> (ok \<longleftrightarrow> e_count e + 1 \<le> rpm)
        \<or> e_count e' = e_count e \<and> \<not> ok"
      using res by (auto simp: Let_def split: if_splits)
    moreover from this have "allowed (run_entry rpm ban ts (Some e')) \<le> max 0 (rpm - e_count e') + rpm"
      using Cons.IH[of e'] Cons.prems by auto
    ultimately show ?thesis using es Cons.prems(4) by auto
  qed
qed

lemma run_entry_fresh:
  assumes "sorted_wrt (\<le>) ts" and "\<forall>t \<in> set ts. t0 \<le> t \<and> t < t0 + minute" and "0 < rpm"
  shows "allowed (run_entry rpm ban ts None) \<le> rpm"
proof (cases ts)
  case Nil
  then show ?thesis using assms by simp
next
  case (Cons now us)
  have "\<forall>t \<in> set ts. t - now < minute" using assms(1,2) Cons by (auto simp: algebra_simps)
  then have "allowed (run_entry rpm ban ts (Some (new_entry now))) \<le> max 0 (rpm - 0)"
    using run_entry_in_window[of ts "new_entry now" rpm ban] assms(3) by (simp add: new_entry_def)
  then show ?thesis using Cons assms(3) by (simp add: entry_step_new)
qed


section \<open>Bans\<close>

definition banned_until :: "string \<Rightarrow> limiter \<Rightarrow> time \<Rightarrow> bool" where
  "banned_until k l b \<longleftrightarrow> (\<exists>e. rl_entries l k = Some e \<and> e_banned_until e = b)"

lemma cleanup_keeps_ban:
  assumes "banned_until k l b" and "now < b"
  shows "banned_until k (cleanup_locked now l) b"
proof -
  obtain e where e: "rl_entries l k = Some e" "e_banned_until e = b"
    using assms(1) by (auto simp: banned_until_def)
  then have "\<not> entry_stale (rl_window l) now e"
    using assms(2) by (simp add: entry_stale_def go_time)
  then have "rl_entries (cleanup_locked now l) k = Some e"
    using e by (auto simp: cleanup_locked_def)
  then show ?thesis using e by (auto simp: banned_until_def)
qed

lemma entry_step_banned:
  "now < e_banned_until e \<Longrightarrow>
   entry_step rpm w ban now (Some e)
   = (False, retry_after_seconds (time_sub (e_banned_until e) now), e\<lparr>e_last_seen := now\<rparr>)"
  by (simp add: entry_step_def go_time Let_def)

lemma allow_keeps_ban:
  assumes "banned_until k l b" and "now < b" and "allow now j l = (ok, r, l')"
  shows "banned_until k l' b" and "active l \<Longrightarrow> j = k \<Longrightarrow> \<not> ok"
proof -
  obtain e where e: "rl_entries (cleanup_locked now l) k = Some e" "e_banned_until e = b"
    using cleanup_keeps_ban[OF assms(1,2)] by (auto simp: banned_until_def)
  show "banned_until k l' b"
  proof (cases "active l")
    case True
    then show ?thesis
      using assms(2,3) e entry_step_banned[of now e]
      by (cases "j = k") (auto simp: allow_active banned_until_def split: prod.splits)
  next
    case False
    then show ?thesis using assms by (auto simp: allow_def active_def)
  qed
  show "\<not> ok" if "active l" and "j = k"
    using that assms(2,3) e entry_step_banned[of now e] by (auto simp: allow_active split: prod.splits)
qed

lemma run_keeps_ban:
  assumes "banned_until k l b" and "active l" and "\<forall>ev \<in> set evs. fst ev < b"
  shows "\<forall>a \<in> set (key_answers k (run_allow evs l)). \<not> fst a"
  using assms
proof (induction evs arbitrary: l)
  case Nil
  then show ?case by (simp add: key_answers_def)
next
  case (Cons ev evs)
  obtain now j where ev: "ev = (now, j)" by (cases ev)
  obtain ok r l' where a: "allow now j l = (ok, r, l')" by (cases "allow now j l")
  have now: "now < b" using Cons.prems(3) ev by simp
  note keep = allow_keeps_ban[OF Cons.prems(1) now a]
  have "active l'" using Cons.prems(2) a active_allow[of now j l] by simp
  then have "\<forall>a \<in> set (key_answers k (run_allow evs l')). \<not> fst a"
    using Cons.IH[OF keep(1)] Cons.prems(3) by simp
  then show ?case using keep(2) Cons.prems(2) ev a by (auto simp: key_answers_def)
qed

lemma allow_rejects:
  assumes "allow now k l = (False, r, l')"
  shows "active l \<and> (\<exists>b. banned_until k l' b \<and> r = retry_after_seconds (time_sub b now))"
proof -
  have act: "active l" using assms by (auto simp: allow_def active_def split: if_splits)
  with assms show ?thesis
    by (auto simp: allow_active banned_until_def entry_step_def Let_def split: if_splits)
qed

section \<open>Delay slots: a state machine\<close>

text \<open>
  The limiter together with the semaphores held by the goroutines that are sleeping in
  \<open>handleRateLimited\<close>, one list element per goroutine. Requests, administrators and
  finished sleeps interleave in any order.
\<close>

datatype control = SetRPM int | SetDelay duration | SetSlots int | Enable | Disable

fun apply_control :: "control \<Rightarrow> limiter \<Rightarrow> limiter" where
  "apply_control (SetRPM n) l = set_requests_per_min n l"
| "apply_control (SetDelay d) l = set_throttle_delay d l"
| "apply_control (SetSlots n) l = set_max_delay_slots n l"
| "apply_control Enable l = enable l"
| "apply_control Disable l = disable l"

inductive delay_step :: "limiter \<times> nat list \<Rightarrow> limiter \<times> nat list \<Rightarrow> bool" where
  request: "allow now k l = (ok, r, l') \<Longrightarrow> delay_step (l, h) (l', h)"
| sleep: "try_acquire_delay_slot l = (True, Some i, l') \<Longrightarrow> delay_step (l, h) (l', i # h)"
| no_slot: "try_acquire_delay_slot l = (False, None, l') \<Longrightarrow> delay_step (l, h) (l', h)"
| wake: "i \<in> set h \<Longrightarrow> release_delay_slot (Some i) l = Some l' \<Longrightarrow> delay_step (l, h) (l', remove1 i h)"
| control: "delay_step (l, h) (apply_control c l, h)"

inductive delay_reachable :: "limiter \<times> nat list \<Rightarrow> bool" where
  start: "delay_reachable (new_rate_limiter cfg now, [])"
| step: "delay_reachable s \<Longrightarrow> delay_step s t \<Longrightarrow> delay_reachable t"

inductive_cases delay_stepE: "delay_step (l, h) s"

definition slots_inv :: "limiter \<times> nat list \<Rightarrow> bool" where
  "slots_inv = (\<lambda>(l, h).
     (\<forall>i < length (rl_sems l). count_list h i = sem_used (rl_sems l ! i)
        \<and> sem_used (rl_sems l ! i) \<le> sem_cap (rl_sems l ! i))
     \<and> (\<forall>i \<in> set h. i < length (rl_sems l))
     \<and> (\<forall>i. rl_delay_sem l = Some i \<longrightarrow> i < length (rl_sems l)
        \<and> int (sem_cap (rl_sems l ! i)) = rl_max_delay_slots l)
     \<and> 0 < rl_max_delay_slots l)"

lemma slots_inv_start [inv_intros]: "slots_inv (new_rate_limiter cfg now, [])"
  by (auto simp: slots_inv_def new_rate_limiter_def make_sem_def Let_def)

lemma slots_inv_frame:
  assumes "slots_inv (l, h)" and "rl_sems l' = rl_sems l" and "rl_delay_sem l' = rl_delay_sem l"
    and "rl_max_delay_slots l' = rl_max_delay_slots l"
  shows "slots_inv (l', h)"
  using assms by (simp add: slots_inv_def)

lemma slots_inv_new_sem:
  assumes "slots_inv (l, h)" and "0 < n"
  shows "slots_inv (new_sem n (l\<lparr>rl_max_delay_slots := n\<rparr>), h)"
proof -
  have "length (rl_sems l) \<notin> set h" using assms(1) by (auto simp: slots_inv_def)
  then have "count_list h (length (rl_sems l)) = 0" by (simp add: count_list_0_iff)
  then show ?thesis
    using assms by (auto simp: slots_inv_def new_sem_def make_sem_def nth_append less_Suc_eq)
qed

lemma slots_inv_control [inv_intros]:
  assumes "slots_inv (l, h)"
  shows "slots_inv (apply_control c l, h)"
proof (cases c)
  case (SetDelay d)
  show ?thesis
  proof (cases "0 < d \<and> rl_delay_sem l = None")
    case True
    have pos: "0 < rl_max_delay_slots l" using assms by (simp add: slots_inv_def)
    have "slots_inv (l\<lparr>rl_throttle_delay := d\<rparr>, h)"
      by (rule slots_inv_frame[OF assms]) simp_all
    from slots_inv_new_sem[OF this pos] show ?thesis
      using True pos SetDelay by (simp add: set_throttle_delay_def Let_def)
  next
    case False
    then show ?thesis
      using assms SetDelay by (auto simp: set_throttle_delay_def Let_def slots_inv_def)
  qed
next
  case (SetSlots n)
  let ?n = "if n \<le> 0 then 100 else n"
  show ?thesis
  proof (cases "rl_delay_sem l = None")
    case True
    then show ?thesis
      using assms SetSlots by (auto simp: set_max_delay_slots_def Let_def slots_inv_def)
  next
    case False
    have "0 < ?n" by simp
    from slots_inv_new_sem[OF assms this] show ?thesis
      using False SetSlots by (simp add: set_max_delay_slots_def Let_def)
  qed
qed (use assms in \<open>auto simp: set_requests_per_min_def enable_def disable_def intro: slots_inv_frame\<close>)

lemma slots_inv_acquire [inv_intros]:
  assumes "slots_inv (l, h)" and "try_acquire_delay_slot l = (True, Some i, l')"
  shows "slots_inv (l', i # h)"
  using assms
  by (auto simp: try_acquire_delay_slot_def Let_def slots_inv_def nth_list_update
      split: option.splits if_splits)

lemma slots_inv_release [inv_intros]:
  assumes "slots_inv (l, h)" and "i \<in> set h" and "release_delay_slot (Some i) l = Some l'"
  shows "slots_inv (l', remove1 i h)"
proof -
  have "count_list (remove1 i h) j = (if j = i then count_list h i - 1 else count_list h j)" for j
    using assms(2) by (induction h) auto
  then show ?thesis
    using assms
    by (auto simp: release_delay_slot_def Let_def slots_inv_def nth_list_update
        split: if_splits dest: notin_set_remove1)
qed

lemma slots_inv_step: "delay_step s t \<Longrightarrow> slots_inv s \<Longrightarrow> slots_inv t"
proof (induction rule: delay_step.induct)
  case (request now k l ok r l' h)
  then show ?case using slots_inv_frame allow_fields(6,7,8)[OF request(1)] by blast
next
  case (no_slot l l' h)
  then show ?case by (auto simp: try_acquire_delay_slot_def Let_def split: option.splits if_splits)
qed (auto intro: inv_intros)

lemma slots_inv_reachable: "delay_reachable s \<Longrightarrow> slots_inv s"
  by (induction rule: delay_reachable.induct) (auto intro: slots_inv_start slots_inv_step)

end
