(* ===== verification/Limiter_Claims.thy ===== *)
theory Limiter_Claims
  imports Limiter_Props
begin

text \<open>
  The properties of the rate limiter, over the lemmas of \<open>Limiter_Props\<close>, each with a
  witness on \<open>demo_limiter\<close>: one request per minute, a ban of two minutes.
\<close>

definition demo_config :: limiter_config where
  "demo_config = \<lparr>lc_name = ''ip'', lc_enabled = True, lc_requests_per_min = 1,
     lc_ban_duration = 2 * minute, lc_throttle_delay = millisecond, lc_max_delay_slots = 1\<rparr>"

definition demo_limiter :: limiter where
  "demo_limiter = new_rate_limiter demo_config 1000"

lemma demo_limiter_facts:
  "limiter_ok demo_limiter" "active demo_limiter" "seen_before t demo_limiter"
  "rl_entries demo_limiter = Map.empty" "rl_requests_per_min demo_limiter = 1"
  by (simp_all add: demo_limiter_def limiter_ok_new)
     (simp_all add: new_rate_limiter_def demo_config_def active_def seen_before_def Let_def)

lemma run_allow_ref:
  assumes "limiter_ok l" and "seen_before t l" and "0 \<le> t" and "sorted_wrt (\<le>) (t # map fst evs)"
  shows "run_allow evs l = run_ref evs l"
  using assms by (intro run_sim[OF lim_sim_refl]) (auto simp: limiter_ok_def)

lemma key_answers_run:
  assumes "limiter_ok l" and "seen_before t l" and "0 \<le> t" and "sorted_wrt (\<le>) (t # map fst evs)"
    and "active l"
  shows "key_answers k (run_allow evs l)
       = run_entry (rl_requests_per_min l) (rl_ban_duration l) (key_times k evs) (rl_entries l k)"
proof -
  have "rl_window l = minute" using assms(1) by (simp add: limiter_ok_def window_ok_def)
  then show ?thesis using run_allow_ref[OF assms(1-4)] run_ref_key[OF assms(5)] by simp
qed

lemma key_times_sorted:
  assumes "sorted_wrt (\<le>) (t # map fst evs)"
  shows "sorted_wrt (\<le>) (key_times k evs)" and "\<forall>u \<in> set (key_times k evs). t \<le> u"
proof -
  have "sorted_wrt (\<le>) (map fst evs)" using assms by simp
  then show "sorted_wrt (\<le>) (key_times k evs)"
    unfolding key_times_def sorted_wrt_map by (rule sorted_wrt_filter)
  show "\<forall>u \<in> set (key_times k evs). t \<le> u" using assms by (auto simp: key_times_def)
qed

text \<open>
  C13. The periodic cleanup is not observable: on any run of requests at clock readings that
  do not go back, the limiter gives exactly the answers (and the retry-after values) of the
  limiter that never deletes an entry.
\<close>

theorem cleanup_unobservable:
  assumes "limiter_ok l" and "seen_before t l" and "0 \<le> t"
    and "sorted_wrt (\<le>) (t # map fst evs)"
  shows "run_allow evs l = run_ref evs l"
  by (rule run_allow_ref[OF assms])

theorem cleanup_unobservable_witness:
  "run_allow [(1000, ''a''), (2000, ''b''), (500 * second, ''b'')] demo_limiter
   = run_ref [(1000, ''a''), (2000, ''b''), (500 * second, ''b'')] demo_limiter"
  by (rule cleanup_unobservable[of demo_limiter 1000])
     (simp_all add: demo_limiter_facts second_def)

lemma rate_bound:
  assumes "limiter_ok l" and "active l" and "seen_before t l" and "0 \<le> t"
    and "sorted_wrt (\<le>) (t # map fst evs)" and "\<forall>ev \<in> set evs. fst ev < t + minute"
  shows "allowed (key_answers k (run_allow evs l))
       \<le> (if rl_entries l k = None then rl_requests_per_min l else 2 * rl_requests_per_min l)"
proof -
  let ?ts = "key_times k evs"
  have rpm: "0 < rl_requests_per_min l" using assms(2) by (simp add: active_def)
  have span: "\<forall>u \<in> set ?ts. t \<le> u \<and> u < t + minute"
    using key_times_sorted(2)[OF assms(5)] assms(6) by (auto simp: key_times_def)
  note run = key_answers_run[OF assms(1,3,4,5,2), of k]
  show ?thesis
  proof (cases "rl_entries l k")
    case None
    then show ?thesis
      using run_entry_fresh[OF key_times_sorted(1)[OF assms(5)] span rpm] run by simp
  next
    case (Some e)
    then have "0 \<le> e_count e"
      using assms(1) by (auto simp: limiter_ok_def entries_ok_def entry_ok_def)
    from run_entry_in_minute[OF key_times_sorted(1)[OF assms(5)] span this rpm,
        of "rl_ban_duration l"] this rpm
    show ?thesis using run Some by simp
  qed
qed

text \<open>
  C11. Rate bound: among requests whose clock readings lie within one minute, in order, a
  key gets at most \<open>requestsPerMin\<close> of them through if it has no entry yet, and at most
  twice that in any case (the window is fixed, not sliding, so a window may end and a new
  one start within the minute).
\<close>

theorem at_most_rpm_per_minute:
  assumes "limiter_ok l" and "active l" and "seen_before t l" and "0 \<le> t"
    and "sorted_wrt (\<le>) (t # map fst evs)" and "\<forall>ev \<in> set evs. fst ev < t + minute"
  shows "allowed (key_answers k (run_allow evs l))
       \<le> (if rl_entries l k = None then rl_requests_per_min l else 2 * rl_requests_per_min l)"
  by (rule rate_bound[OF assms])

theorem at_most_rpm_per_minute_witness:
  "allowed (key_answers ''a'' (run_allow [(1000, ''a''), (2000, ''a''), (3000, ''a'')] demo_limiter)) \<le> 1"
  using at_most_rpm_per_minute[of demo_limiter 1000 "[(1000, ''a''), (2000, ''a''), (3000, ''a'')]" "''a''"]
  by (simp add: demo_limiter_facts minute_def)



text \<open>
  Keys do not influence each other: the answers a key gets in a run are the answers it
  gets when the requests of all other keys are left out of the run.
\<close>

theorem key_isolation:
  assumes "limiter_ok l" and "active l" and "seen_before t l" and "0 \<le> t"
    and "sorted_wrt (\<le>) (t # map fst evs)"
  shows "key_answers k (run_allow evs l)
       = key_answers k (run_allow (filter (\<lambda>ev. snd ev = k) evs) l)"
proof -
  let ?fs = "filter (\<lambda>ev. snd ev = k) evs"
  have "sorted_wrt (\<le>) (map fst ?fs)"
    using key_times_sorted(1)[OF assms(5), of k] by (simp add: key_times_def)
  then have sorted: "sorted_wrt (\<le>) (t # map fst ?fs)" using assms(5) by auto
  have "key_times k ?fs = key_times k evs" by (simp add: key_times_def)
  then show ?thesis
    using key_answers_run[OF assms(1,3,4,5,2)] key_answers_run[OF assms(1,3,4) sorted assms(2)] by simp
qed

theorem key_isolation_witness:
  "key_answers ''a'' (run_allow [(1000, ''b''), (1500, ''a''), (2000, ''b'')] demo_limiter)
   = key_answers ''a'' (run_allow [(1500, ''a'')] demo_limiter)"
  using key_isolation[of demo_limiter 1000 "[(1000, ''b''), (1500, ''a''), (2000, ''b'')]" "''a''"]
  by (simp add: demo_limiter_facts)

text \<open>
  C14. Delay slots: in every reachable state of requests, sleeps and runtime
  reconfiguration, at most \<open>maxDelaySlots\<close> goroutines sleep on the current semaphore, and
  a goroutine that wakes can always release the slot it holds, even when an administrator
  replaced the semaphore while it slept.
\<close>

theorem delay_slots_bounded:
  assumes "delay_reachable (l, h)"
  shows "(\<forall>i. rl_delay_sem l = Some i \<longrightarrow> int (count_list h i) \<le> rl_max_delay_slots l)
       \<and> (\<forall>i \<in> set h. \<exists>l'. release_delay_slot (Some i) l = Some l')"
proof (intro conjI allI impI ballI)
  note inv = slots_inv_reachable[OF assms]
  fix i
  show "int (count_list h i) \<le> rl_max_delay_slots l" if "rl_delay_sem l = Some i"
    using inv that by (auto simp: slots_inv_def)
  show "\<exists>l'. release_delay_slot (Some i) l = Some l'" if i: "i \<in> set h"
  proof -
    have "0 < count_list h i" using i by (metis count_list_0_iff gr0I)
    moreover have "count_list h i = sem_used (rl_sems l ! i)"
      using inv i by (auto simp: slots_inv_def)
    ultimately show ?thesis by (simp add: release_delay_slot_def Let_def)
  qed
qed

lemma demo_sleeping:
  "delay_reachable (demo_limiter\<lparr>rl_sems := [\<lparr>sem_cap = 1, sem_used = 1\<rparr>]\<rparr>, [0])"
  by (rule delay_reachable.step[OF delay_reachable.start[of demo_config 1000]], rule delay_step.sleep)
     (simp add: demo_limiter_def demo_config_def new_rate_limiter_def try_acquire_delay_slot_def
        make_sem_def Let_def)

theorem delay_slots_bounded_witness:
  "\<exists>l'. release_delay_slot (Some 0) (demo_limiter\<lparr>rl_sems := [\<lparr>sem_cap = 1, sem_used = 1\<rparr>]\<rparr>) = Some l'"
  using delay_slots_bounded[OF demo_sleeping] by simp

text \<open>
  The cap holds per semaphore, not in total: there is a reachable state with
  \<open>maxDelaySlots = 1\<close> in which two goroutines sleep, because setting the number of slots
  (to the same value) installs an empty semaphore while a goroutine still sleeps on the
  old one.
\<close>

theorem delay_cap_not_global:
  "\<exists>l h. delay_reachable (l, h) \<and> rl_max_delay_slots l = 1 \<and> length h = 2"
proof -
  let ?l0 = "demo_limiter\<lparr>rl_sems := [\<lparr>sem_cap = 1, sem_used = 1\<rparr>]\<rparr>"
  let ?l1 = "?l0\<lparr>rl_delay_sem := Some 1, rl_sems := [\<lparr>sem_cap = 1, sem_used = 1\<rparr>, \<lparr>sem_cap = 1, sem_used = 0\<rparr>]\<rparr>"
  let ?l2 = "?l1\<lparr>rl_sems := [\<lparr>sem_cap = 1, sem_used = 1\<rparr>, \<lparr>sem_cap = 1, sem_used = 1\<rparr>]\<rparr>"
  have c: "apply_control (SetSlots 1) ?l0 = ?l1"
    by (simp add: demo_limiter_def demo_config_def new_rate_limiter_def set_max_delay_slots_def
        new_sem_def make_sem_def Let_def)
  have s: "try_acquire_delay_slot ?l1 = (True, Some 1, ?l2)"
    by (simp add: try_acquire_delay_slot_def Let_def)
  have "delay_reachable (?l1, [0])"
    using delay_reachable.step[OF demo_sleeping delay_step.control[of _ _ "SetSlots 1"]] c by simp
  from delay_reachable.step[OF this delay_step.sleep[OF s]]
  have "delay_reachable (?l2, [1, 0])" .
  moreover have "rl_max_delay_slots ?l2 = 1"
    by (simp add: demo_limiter_def demo_config_def new_rate_limiter_def Let_def)
  ultimately show ?thesis by (intro exI[of _ ?l2] exI[of _ "[1, 0]"]) simp
qed

end
