(* ===== verification/Go_Strings.thy ===== *)
theory Go_Strings
  imports Prelude
begin

text \<open>
  The operations of Go's \<open>strings\<close>, \<open>strconv\<close> and \<open>net\<close> packages that the program
  uses, on byte strings (a Go \<open>string\<close> is a sequence of bytes; a \<open>char\<close> is one byte).
  Case mapping and white space are those of ASCII: a byte from 128 on is never mapped
  and never trimmed. Everything else is the package's behaviour on every byte string.
\<close>

section \<open>Prefixes, suffixes, search\<close>

fun has_prefix :: "string \<Rightarrow> string \<Rightarrow> bool" where
  "has_prefix s [] = True"
| "has_prefix [] (p # ps) = False"
| "has_prefix (c # s) (p # ps) = (c = p \<and> has_prefix s ps)"

definition has_suffix :: "string \<Rightarrow> string \<Rightarrow> bool" where
  "has_suffix s p \<longleftrightarrow> has_prefix (rev s) (rev p)"

definition trim_prefix :: "string \<Rightarrow> string \<Rightarrow> string" where
  "trim_prefix s p = (if has_prefix s p then drop (length p) s else s)"

fun contains :: "string \<Rightarrow> string \<Rightarrow> bool" where
  "contains [] p = (p = [])"
| "contains (c # s) p = (has_prefix (c # s) p \<or> contains s p)"

definition contains_any :: "string \<Rightarrow> string \<Rightarrow> bool" where
  "contains_any s cs \<longleftrightarrow> list_ex (\<lambda>c. c \<in> set cs) s"

lemma has_prefix_iff: "has_prefix s p \<longleftrightarrow> (\<exists>r. s = p @ r)"
  by (induction s p rule: has_prefix.induct) auto

lemma has_prefix_append [simp]: "has_prefix (p @ r) p"
  by (auto simp: has_prefix_iff)

lemma has_prefix_append_same [simp]: "has_prefix (p @ r) (p @ q) = has_prefix r q"
  by (induction p) auto

lemma has_suffix_iff: "has_suffix s p \<longleftrightarrow> (\<exists>r. s = r @ p)"
  unfolding has_suffix_def has_prefix_iff
  by (metis rev_append rev_rev_ident)

lemma trim_prefix_append [simp]: "trim_prefix (p @ r) p = r"
  by (simp add: trim_prefix_def)

lemma contains_iff: "contains s p \<longleftrightarrow> (\<exists>l r. s = l @ p @ r)"
proof (induction s)
  case Nil
  then show ?case by auto
next
  case (Cons c s)
  have "(\<exists>l r. c # s = l @ p @ r) \<longleftrightarrow> (\<exists>r. c # s = p @ r) \<or> (\<exists>l r. s = l @ p @ r)"
    by (metis append_Cons append_Nil list.exhaust list.inject)
  then show ?case
    using Cons by (simp add: has_prefix_iff del: has_prefix.simps)
qed

lemma contains_middle [simp]: "contains (l @ p @ r) p"
  by (auto simp: contains_iff)

section \<open>ASCII case mapping\<close>

definition is_upper_byte :: "char \<Rightarrow> bool" where
  "is_upper_byte c \<longleftrightarrow> 65 \<le> (of_char c :: nat) \<and> (of_char c :: nat) \<le> 90"

definition is_lower_byte :: "char \<Rightarrow> bool" where
  "is_lower_byte c \<longleftrightarrow> 97 \<le> (of_char c :: nat) \<and> (of_char c :: nat) \<le> 122"

definition is_digit_byte :: "char \<Rightarrow> bool" where
  "is_digit_byte c \<longleftrightarrow> 48 \<le> (of_char c :: nat) \<and> (of_char c :: nat) \<le> 57"

definition upper_byte :: "char \<Rightarrow> char" where
  "upper_byte c = (if is_lower_byte c then char_of ((of_char c :: nat) - 32) else c)"

definition lower_byte :: "char \<Rightarrow> char" where
  "lower_byte c = (if is_upper_byte c then char_of ((of_char c :: nat) + 32) else c)"

definition to_upper :: "string \<Rightarrow> string" where
  "to_upper s = map upper_byte s"

definition to_lower :: "string \<Rightarrow> string" where
  "to_lower s = map lower_byte s"

definition equal_fold :: "string \<Rightarrow> string \<Rightarrow> bool" where
  "equal_fold s t \<longleftrightarrow> to_lower s = to_lower t"

lemma of_char_upper_byte:
  "of_char (upper_byte c) = (if is_lower_byte c then of_char c - 32 else (of_char c :: nat))"
  by (auto simp: upper_byte_def is_lower_byte_def)

lemma of_char_lower_byte:
  "of_char (lower_byte c) = (if is_upper_byte c then of_char c + 32 else (of_char c :: nat))"
  by (auto simp: lower_byte_def is_upper_byte_def)

lemma char_eq_nat: "c = d \<longleftrightarrow> (of_char c :: nat) = of_char d"
  by simp

lemma upper_upper_byte [simp]: "upper_byte (upper_byte c) = upper_byte c"
  unfolding char_eq_nat of_char_upper_byte by (auto simp: is_lower_byte_def of_char_upper_byte)

lemma lower_lower_byte [simp]: "lower_byte (lower_byte c) = lower_byte c"
  unfolding char_eq_nat of_char_lower_byte by (auto simp: is_upper_byte_def of_char_lower_byte)

lemma upper_lower_byte [simp]: "upper_byte (lower_byte c) = upper_byte c"
  unfolding char_eq_nat of_char_upper_byte of_char_lower_byte
  by (auto simp: is_lower_byte_def is_upper_byte_def of_char_lower_byte)

lemma lower_upper_byte [simp]: "lower_byte (upper_byte c) = lower_byte c"
  unfolding char_eq_nat of_char_upper_byte of_char_lower_byte
  by (auto simp: is_lower_byte_def is_upper_byte_def of_char_upper_byte)

lemma to_upper_simps [simp]:
  "to_upper [] = []" "to_upper (c # s) = upper_byte c # to_upper s"
  "to_upper (s @ t) = to_upper s @ to_upper t"
  by (simp_all add: to_upper_def)

lemma to_lower_simps [simp]:
  "to_lower [] = []" "to_lower (c # s) = lower_byte c # to_lower s"
  "to_lower (s @ t) = to_lower s @ to_lower t"
  by (simp_all add: to_lower_def)

lemma to_upper_idem [simp]: "to_upper (to_upper s) = to_upper s"
  by (simp add: to_upper_def)

lemma to_lower_idem [simp]: "to_lower (to_lower s) = to_lower s"
  by (simp add: to_lower_def)

lemma to_upper_to_lower [simp]: "to_upper (to_lower s) = to_upper s"
  by (simp add: to_upper_def to_lower_def)

lemma to_upper_Nil_iff [simp]: "to_upper s = [] \<longleftrightarrow> s = []"
  by (simp add: to_upper_def)

lemma length_to_upper [simp]: "length (to_upper s) = length s"
  by (simp add: to_upper_def)

section \<open>Splitting and joining\<close>

fun split_on :: "char \<Rightarrow> string \<Rightarrow> string list" where
  "split_on sep [] = [[]]"
| "split_on sep (c # s) =
     (if c = sep then [] # split_on sep s
      else case split_on sep s of [] \<Rightarrow> [[c]] | p # ps \<Rightarrow> (c # p) # ps)"

text \<open>The text before and after the first separator, \<open>None\<close> when there is none.\<close>

fun cut :: "char \<Rightarrow> string \<Rightarrow> (string \<times> string) option" where
  "cut sep [] = None"
| "cut sep (c # s) =
     (if c = sep then Some ([], s)
      else case cut sep s of None \<Rightarrow> None | Some (a, b) \<Rightarrow> Some (c # a, b))"

fun split_n :: "nat \<Rightarrow> char \<Rightarrow> string \<Rightarrow> string list" where
  "split_n 0 sep s = []"
| "split_n (Suc 0) sep s = [s]"
| "split_n (Suc (Suc n)) sep s =
     (case cut sep s of None \<Rightarrow> [s] | Some (a, b) \<Rightarrow> a # split_n (Suc n) sep b)"

fun join :: "string \<Rightarrow> string list \<Rightarrow> string" where
  "join sep [] = []"
| "join sep [p] = p"
| "join sep (p # q # ps) = p @ sep @ join sep (q # ps)"

lemma split_on_not_Nil [simp]: "split_on sep s \<noteq> []"
  by (induction s) (auto split: list.splits)

lemma join_Cons: "ps \<noteq> [] \<Longrightarrow> join sep (p # ps) = p @ sep @ join sep ps"
  by (cases ps) auto

lemma join_split_on: "join [sep] (split_on sep s) = s"
proof (induction s)
  case Nil
  then show ?case by simp
next
  case (Cons c s)
  obtain p ps where ps: "split_on sep s = p # ps"
    by (cases "split_on sep s") auto
  show ?case
    using Cons ps by (cases ps) auto
qed

lemma split_on_no_sep: "p \<in> set (split_on sep s) \<Longrightarrow> sep \<notin> set p"
  by (induction s arbitrary: p) (auto split: if_splits list.splits)

lemma cut_Some: "cut sep s = Some (a, b) \<Longrightarrow> s = a @ sep # b \<and> sep \<notin> set a"
  by (induction s arbitrary: a b) (auto split: if_splits option.splits)

lemma cut_None: "cut sep s = None \<longleftrightarrow> sep \<notin> set s"
  by (induction s) (auto split: option.splits)

lemma cut_append: "sep \<notin> set a \<Longrightarrow> cut sep (a @ sep # b) = Some (a, b)"
  by (induction a) auto

lemma split_on_single: "sep \<notin> set s \<Longrightarrow> split_on sep s = [s]"
  by (induction s) auto

lemma split_on_append: "sep \<notin> set a \<Longrightarrow> split_on sep (a @ sep # b) = a # split_on sep b"
  by (induction a) auto

section \<open>White space, replacement\<close>

definition is_space_byte :: "char \<Rightarrow> bool" where
  "is_space_byte c \<longleftrightarrow> (of_char c :: nat) \<in> {9, 10, 11, 12, 13, 32}"

definition trim_space :: "string \<Rightarrow> string" where
  "trim_space s = rev (dropWhile is_space_byte (rev (dropWhile is_space_byte s)))"

lemma trim_space_Nil_iff: "trim_space s = [] \<longleftrightarrow> (\<forall>c \<in> set s. is_space_byte c)"
proof
  assume "trim_space s = []"
  then have "\<forall>c \<in> set (dropWhile is_space_byte s). is_space_byte c"
    by (simp add: trim_space_def)
  then have "dropWhile is_space_byte s = []"
    by (metis dropWhile_eq_Nil_conv dropWhile_idem)
  then show "\<forall>c \<in> set s. is_space_byte c" by simp
next
  assume "\<forall>c \<in> set s. is_space_byte c"
  then show "trim_space s = []" by (auto simp: trim_space_def dest: set_dropWhileD)
qed

text \<open>\<open>strings.ReplaceAll\<close> for a non-empty \<open>old\<close>: leftmost matches, no overlap.\<close>

function replace_all :: "string \<Rightarrow> string \<Rightarrow> string \<Rightarrow> string" where
  "replace_all old new s =
     (case s of [] \<Rightarrow> []
      | c # r \<Rightarrow>
          if old \<noteq> [] \<and> has_prefix s old then new @ replace_all old new (drop (length old) s)
          else c # replace_all old new r)"
  by pat_completeness auto
termination
  by (relation "measure (\<lambda>(old, new, s). length s)") auto

declare replace_all.simps [simp del]

lemma replace_all_Nil [simp]: "replace_all old new [] = []"
  by (subst replace_all.simps) simp

lemma replace_all_Cons:
  "replace_all old new (c # r) =
     (if old \<noteq> [] \<and> has_prefix (c # r) old
      then new @ replace_all old new (drop (length old) (c # r))
      else c # replace_all old new r)"
  by (subst replace_all.simps) simp

lemma replace_all_absent: "\<not> contains s old \<Longrightarrow> replace_all old new s = s"
  by (induction s) (auto simp: replace_all_Cons)

section \<open>Numbers\<close>

definition digit_value :: "char \<Rightarrow> int" where
  "digit_value c = int (of_char c) - 48"

fun digits_value :: "int \<Rightarrow> string \<Rightarrow> int option" where
  "digits_value acc [] = Some acc"
| "digits_value acc (c # s) =
     (if is_digit_byte c then digits_value (10 * acc + digit_value c) s else None)"

text \<open>\<open>strconv.ParseInt(s, 10, 64)\<close>, which \<open>strconv.Atoi\<close> agrees with on a 64-bit machine.\<close>

definition parse_int :: "string \<Rightarrow> int option" where
  "parse_int s =
     (let neg = (s \<noteq> [] \<and> hd s = CHR ''-'');
          body = (if s \<noteq> [] \<and> (hd s = CHR ''-'' \<or> hd s = CHR ''+'') then tl s else s)
      in if body = [] then None
         else case digits_value 0 body of
           None \<Rightarrow> None
         | Some n \<Rightarrow> (let v = (if neg then - n else n) in if int64_ok v then Some v else None))"

definition parse_bool :: "string \<Rightarrow> bool option" where
  "parse_bool s =
     (if s \<in> {''1'', ''t'', ''T'', ''TRUE'', ''true'', ''True''} then Some True
      else if s \<in> {''0'', ''f'', ''F'', ''FALSE'', ''false'', ''False''} then Some False
      else None)"

lemma parse_int_ok: "parse_int s = Some v \<Longrightarrow> int64_ok v"
  by (auto simp: parse_int_def Let_def split: if_splits option.splits)

fun nat_digits :: "nat \<Rightarrow> string" where
  "nat_digits n =
     (if n < 10 then [char_of (48 + n)] else nat_digits (n div 10) @ [char_of (48 + n mod 10)])"

declare nat_digits.simps [simp del]

definition int_string :: "int \<Rightarrow> string" where
  "int_string i = (if i < 0 then CHR ''-'' # nat_digits (nat (- i)) else nat_digits (nat i))"

section \<open>net.SplitHostPort\<close>

text \<open>
  \<open>None\<close> is an error of \<open>net.SplitHostPort\<close>: no port, more than one colon outside
  brackets, a missing or misplaced bracket.
\<close>

definition last_cut :: "char \<Rightarrow> string \<Rightarrow> (string \<times> string) option" where
  "last_cut sep s =
     (case cut sep (rev s) of None \<Rightarrow> None | Some (b, a) \<Rightarrow> Some (rev a, rev b))"

definition split_host_port :: "string \<Rightarrow> (string \<times> string) option" where
  "split_host_port s =
     (case last_cut CHR '':'' s of
        None \<Rightarrow> None
      | Some (pre, port) \<Rightarrow>
          if s \<noteq> [] \<and> hd s = CHR ''['' then
            (case cut CHR '']'' (tl s) of
               None \<Rightarrow> None
             | Some (host, rest) \<Rightarrow>
                 if rest = CHR '':'' # port
                    \<and> CHR ''['' \<notin> set host \<and> CHR ''['' \<notin> set rest \<and> CHR '']'' \<notin> set rest
                 then Some (host, port) else None)
          else if CHR '':'' \<in> set pre \<or> CHR ''['' \<in> set s \<or> CHR '']'' \<in> set s then None
          else Some (pre, port))"

lemma last_cut_append: "sep \<notin> set b \<Longrightarrow> last_cut sep (a @ sep # b) = Some (a, b)"
  by (simp add: last_cut_def cut_append)

lemma last_cut_None: "last_cut sep s = None \<longleftrightarrow> sep \<notin> set s"
  using cut_None[of sep "rev s"] by (auto simp: last_cut_def split: option.splits)

lemma last_cut_Some: "last_cut sep s = Some (a, b) \<Longrightarrow> s = a @ sep # b \<and> sep \<notin> set b"
proof -
  assume "last_cut sep s = Some (a, b)"
  then have "cut sep (rev s) = Some (rev b, rev a)"
    by (auto simp: last_cut_def split: option.splits)
  from cut_Some[OF this] show ?thesis
    by (metis append.assoc append_Cons append_Nil rev.simps(2) rev_append rev_rev_ident set_rev)
qed

text \<open>\<open>host:port\<close> with a plain host, the shape of an IPv4 remote address.\<close>

lemma split_host_port_plain:
  assumes "set host \<inter> set ''[]:'' = {}" and "set port \<inter> set ''[]:'' = {}"
  shows "split_host_port (host @ CHR '':'' # port) = Some (host, port)"
proof -
  have "hd (host @ CHR '':'' # port) \<noteq> CHR ''[''"
    using assms by (cases host) auto
  then show ?thesis
    using assms by (auto simp: split_host_port_def last_cut_append)
qed

text \<open>\<open>[host]:port\<close>, the shape of an IPv6 remote address.\<close>

lemma split_host_port_bracketed:
  assumes "set host \<inter> set ''[]'' = {}" and "set port \<inter> set ''[]:'' = {}"
  shows "split_host_port (CHR ''['' # host @ CHR '']'' # CHR '':'' # port) = Some (host, port)"
proof -
  have "last_cut CHR '':'' ((CHR ''['' # host @ [CHR '']'']) @ CHR '':'' # port)
      = Some (CHR ''['' # host @ [CHR '']''], port)"
    using assms(2) by (intro last_cut_append) auto
  then have "last_cut CHR '':'' (CHR ''['' # host @ CHR '']'' # CHR '':'' # port)
      = Some (CHR ''['' # host @ [CHR '']''], port)"
    by simp
  moreover have "cut CHR '']'' (host @ CHR '']'' # CHR '':'' # port) = Some (host, CHR '':'' # port)"
    using assms(1) by (intro cut_append) auto
  ultimately show ?thesis
    using assms by (auto simp: split_host_port_def)
qed

end
