(* ===== verification/Http.thy ===== *)
theory Http
  imports Go_Strings
begin

text \<open>
  The parts of \<open>net/http\<close> and \<open>encoding/json\<close> that the program's data is made of.

  \<^item> A header map (\<open>http.Header\<close>) is a map from keys to lists of values; \<open>header_get\<close>,
    \<open>header_set\<close> and \<open>header_del\<close> canonicalise the key as \<open>net/textproto\<close> does.
  \<^item> A request has the fields the program reads; the two context values the middleware
    sets are fields too (\<open>None\<close>: not set), and so are the values of the query parameter
    \<open>key\<close> (\<open>r.URL.Query()[''key'']\<close>).
  \<^item> A decoded JSON value is a \<open>json\<close>. A number is the \<open>float64\<close> that Go decodes it to,
    \<open>JNum m e\<close> being \<open>m * 2^e\<close>.
  \<^item> A response has a status, headers and the JSON value of its body.
\<close>

section \<open>JSON values\<close>

datatype json =
    JNull
  | JBool bool
  | JNum int int
  | JStr string
  | JArr "json list"
  | JObj "(string \<times> json) list"

fun json_field :: "string \<Rightarrow> json \<Rightarrow> json option" where
  "json_field k (JObj kvs) = map_of kvs k"
| "json_field k v = None"

section \<open>Header keys\<close>

definition token_byte :: "char \<Rightarrow> bool" where
  "token_byte c \<longleftrightarrow>
     is_upper_byte c \<or> is_lower_byte c \<or> is_digit_byte c \<or> c \<in> set ''!#$%&*+-.^_|~''
     \<or> c = CHR 0x27 \<or> c = CHR 0x60"

fun canon_from :: "bool \<Rightarrow> string \<Rightarrow> string" where
  "canon_from up [] = []"
| "canon_from up (c # s) =
     (if up then upper_byte c else lower_byte c) # canon_from (c = CHR ''-'') s"

definition canonical_key :: "string \<Rightarrow> string" where
  "canonical_key s = (if list_all token_byte s then canon_from True s else s)"

lemma upper_byte_dash: "upper_byte c = CHR ''-'' \<longleftrightarrow> c = CHR ''-''"
  unfolding char_eq_nat of_char_upper_byte by (auto simp: is_lower_byte_def)

lemma lower_byte_dash: "lower_byte c = CHR ''-'' \<longleftrightarrow> c = CHR ''-''"
  unfolding char_eq_nat of_char_lower_byte by (auto simp: is_upper_byte_def)

lemma canon_from_idem [simp]: "canon_from up (canon_from up s) = canon_from up s"
  by (induction up s rule: canon_from.induct) (auto simp: upper_byte_dash lower_byte_dash)

lemma is_letter_case:
  "is_upper_byte (upper_byte c) \<or> is_lower_byte (upper_byte c)
     \<longleftrightarrow> is_upper_byte c \<or> is_lower_byte c"
  "is_upper_byte (lower_byte c) \<or> is_lower_byte (lower_byte c)
     \<longleftrightarrow> is_upper_byte c \<or> is_lower_byte c"
  by (auto simp: is_upper_byte_def is_lower_byte_def of_char_upper_byte of_char_lower_byte)

lemma case_change_letter:
  "upper_byte c \<noteq> c \<Longrightarrow> is_lower_byte c" "lower_byte c \<noteq> c \<Longrightarrow> is_upper_byte c"
  by (auto simp: upper_byte_def lower_byte_def split: if_splits)

lemma token_byte_case [simp]:
  "token_byte c \<Longrightarrow> token_byte (upper_byte c)" "token_byte c \<Longrightarrow> token_byte (lower_byte c)"
  unfolding token_byte_def
  by (metis case_change_letter(1) is_letter_case(1), metis case_change_letter(2) is_letter_case(2))

lemma token_canon_from: "list_all token_byte s \<Longrightarrow> list_all token_byte (canon_from up s)"
  by (induction up s rule: canon_from.induct) auto

lemma canonical_key_idem [simp]: "canonical_key (canonical_key s) = canonical_key s"
  by (auto simp: canonical_key_def token_canon_from)

lemma to_upper_canon_from [simp]: "to_upper (canon_from up s) = to_upper s"
  by (induction up s rule: canon_from.induct) auto

lemma to_upper_canonical [simp]: "to_upper (canonical_key s) = to_upper s"
  by (simp add: canonical_key_def)

section \<open>Header maps\<close>

type_synonym header = "string \<rightharpoonup> string list"

definition header_get :: "header \<Rightarrow> string \<Rightarrow> string" where
  "header_get h k = (case h (canonical_key k) of Some (v # vs) \<Rightarrow> v | _ \<Rightarrow> [])"

definition header_set :: "header \<Rightarrow> string \<Rightarrow> string \<Rightarrow> header" where
  "header_set h k v = h(canonical_key k \<mapsto> [v])"

definition header_del :: "header \<Rightarrow> string \<Rightarrow> header" where
  "header_del h k = h(canonical_key k := None)"

text \<open>The keys of a request read from the network are canonical.\<close>

definition canonical_header :: "header \<Rightarrow> bool" where
  "canonical_header h \<longleftrightarrow> (\<forall>k \<in> dom h. canonical_key k = k)"

lemma header_get_set: "header_get (header_set h k v) j = (if canonical_key j = canonical_key k then v else header_get h j)"
  by (simp add: header_get_def header_set_def)

lemma canonical_header_set: "canonical_header h \<Longrightarrow> canonical_header (header_set h k v)"
  by (auto simp: canonical_header_def header_set_def)

section \<open>Requests and responses\<close>

record request =
  rq_method :: string
  rq_host :: string
  rq_path :: string
  rq_remote_addr :: string
  rq_headers :: header
  rq_query_key :: "string list"
  rq_content_length :: int
  rq_has_body :: bool
  rq_body_limit :: "int option" \<comment> \<open>the limit of an installed MaxBytesReader\<close>
  rq_body_json :: "json option" \<comment> \<open>the body as JSON, None when it does not decode\<close>
  rq_auth_required :: "bool option" \<comment> \<open>context value authRequired\<close>
  rq_jwt_identified :: "bool option" \<comment> \<open>context value jwtIdentified\<close>
  rq_url_scheme :: string
  rq_url_host :: string
  rq_raw_query :: string

record response =
  rs_status :: int
  rs_headers :: header
  rs_body :: "json option"

definition client_ip :: "request \<Rightarrow> string" where
  "client_ip r =
     (case split_host_port (rq_remote_addr r) of
        Some (host, port) \<Rightarrow> if host \<noteq> [] then host else rq_remote_addr r
      | None \<Rightarrow> rq_remote_addr r)"

lemma client_ip_plain:
  assumes "rq_remote_addr r = host @ CHR '':'' # port" and "host \<noteq> []"
    and "set host \<inter> set ''[]:'' = {}" and "set port \<inter> set ''[]:'' = {}"
  shows "client_ip r = host"
  using split_host_port_plain[OF assms(3,4)] assms(1,2) by (simp add: client_ip_def)


text \<open>A request without headers or body, the starting point of the examples.\<close>

definition plain_request :: "string \<Rightarrow> string \<Rightarrow> request" where
  "plain_request host path =
     \<lparr>rq_method = ''GET'', rq_host = host, rq_path = path, rq_remote_addr = ''10.0.0.1:4711'',
      rq_headers = Map.empty, rq_query_key = [], rq_content_length = 0, rq_has_body = False,
      rq_body_limit = None, rq_body_json = None, rq_auth_required = None, rq_jwt_identified = None,
      rq_url_scheme = [], rq_url_host = [], rq_raw_query = []\<rparr>"

lemma plain_request_fields [simp]:
  "rq_host (plain_request h p) = h" "rq_path (plain_request h p) = p"
  "rq_headers (plain_request h p) = Map.empty" "rq_remote_addr (plain_request h p) = ''10.0.0.1:4711''"
  "rq_has_body (plain_request h p) = False" "rq_auth_required (plain_request h p) = None"
  "rq_jwt_identified (plain_request h p) = None" "rq_query_key (plain_request h p) = []"
  "rq_body_json (plain_request h p) = None" "rq_method (plain_request h p) = ''GET''"
  by (simp_all add: plain_request_def)

lemma client_ip_plain_request [simp]: "client_ip (plain_request h p) = ''10.0.0.1''"
  by (rule client_ip_plain[where port = "''4711''"]) auto

end
