(* ===== verification/Config.thy ===== *)
theory Config
  imports Http
begin

text \<open>
  The configuration, \<open>internal/config/config.go\<close>: its structs, loading with environment
  substitution and overrides, defaults and validation.

  The environment of the process is the list of its variables in the order of
  \<open>os.Environ\<close>. A Go map that is nil is read like an empty one and is modelled as the
  empty map. Reading the file, parsing TOML (a third-party package) and the GCP metadata
  server are arguments of \<open>load\<close>. Log lines are left out.
\<close>

section \<open>The structs\<close>

record storage_config =
  st_enabled :: bool
  st_project_id :: string
  st_dbname :: string
  st_collection_prefix :: string

record jwt_config =
  jc_enabled :: bool
  jc_issuer :: string
  jc_audience :: string
  jc_tolerance_secs :: int
  jc_cache_ttl_mins :: int
  jc_filters :: "string \<rightharpoonup> string"
  jc_mappings :: "string \<rightharpoonup> string"
  jc_allowed_emails :: "string list"

record admin_config =
  ad_enabled :: bool
  ad_jwt :: jwt_config

record health_check =
  hc_path :: string
  hc_target :: string

record server_config =
  sv_port :: int
  sv_target_url :: string
  sv_strip_prefix :: string
  sv_include_paths :: "string list"
  sv_exclude_paths :: "string list"
  sv_shutdown_timeout_secs :: int
  sv_health_check :: health_check

record rate_limit_config =
  ip_enabled :: bool
  ip_requests_per_min :: int
  ip_ban_for_min :: int
  ip_throttle_delay_ms :: int
  ip_max_delay_slots :: int
  ip_skip_if_jwt_identified :: "bool option"

record match_rule =
  mr_host :: string
  mr_path :: string
  mr_header :: string

record apikey_rate_limit_config =
  ak_enabled :: bool
  ak_requests_per_min :: int
  ak_ban_for_min :: int
  ak_include_ip :: bool
  ak_key_header :: string
  ak_match :: "match_rule list"
  ak_throttle_delay_ms :: int
  ak_max_delay_slots :: int

record jwt_rate_limit_config =
  jl_enabled :: bool
  jl_requests_per_min :: int
  jl_ban_for_min :: int
  jl_include_ip :: bool
  jl_throttle_delay_ms :: int
  jl_max_delay_slots :: int

record security_config =
  se_rate_limit :: rate_limit_config
  se_apikey_rate_limit :: apikey_rate_limit_config
  se_jwt_rate_limit :: jwt_rate_limit_config
  se_max_body_bytes :: int

record apikey_config =
  kc_enabled :: bool
  kc_name :: string
  kc_value :: string
  kc_payload :: "string \<rightharpoonup> string"

record auth_config =
  au_header_prefix :: string
  au_jwt :: jwt_config
  au_api_key :: apikey_config

record config =
  cf_server :: server_config
  cf_security :: security_config
  cf_auth :: auth_config
  cf_admin :: admin_config
  cf_storage :: storage_config

section \<open>Environment variables\<close>

type_synonym env = "(string \<times> string) list"

definition getenv :: "env \<Rightarrow> string \<Rightarrow> string" where
  "getenv env k = (case map_of env k of None \<Rightarrow> [] | Some v \<Rightarrow> v)"

definition env_name_start :: "char \<Rightarrow> bool" where
  "env_name_start c \<longleftrightarrow> is_upper_byte c \<or> c = CHR ''_''"

definition env_name_byte :: "char \<Rightarrow> bool" where
  "env_name_byte c \<longleftrightarrow> is_upper_byte c \<or> is_digit_byte c \<or> c = CHR ''_''"

text \<open>A match of \<open>{{ENV.NAME}}\<close> at the head of the text: the name and the text after it.\<close>

definition placeholder :: "string \<Rightarrow> (string \<times> string) option" where
  "placeholder s =
     (if has_prefix s ''{{ENV.'' then
        (let body = drop 6 s; name = takeWhile env_name_byte body; rest = dropWhile env_name_byte body
         in if name \<noteq> [] \<and> env_name_start (hd name) \<and> has_prefix rest ''}}''
            then Some (name, drop 2 rest) else None)
      else None)"

lemma placeholder_split:
  "placeholder s = Some (name, rest) \<Longrightarrow> s = ''{{ENV.'' @ name @ ''}}'' @ rest"
proof -
  assume p: "placeholder s = Some (name, rest)"
  then have pre: "has_prefix s ''{{ENV.''"
    by (auto simp: placeholder_def split: if_splits)
  then obtain body where s: "s = ''{{ENV.'' @ body" by (auto simp: has_prefix_iff)
  have d: "drop 6 s = body" by (simp add: s)
  from p pre have name: "name = takeWhile env_name_byte body"
    and r2: "has_prefix (dropWhile env_name_byte body) ''}}''"
    and rest: "rest = drop 2 (dropWhile env_name_byte body)"
    by (auto simp: placeholder_def d Let_def split: if_splits)
  from r2 obtain q where q: "dropWhile env_name_byte body = ''}}'' @ q" by (auto simp: has_prefix_iff)
  then have "body = name @ ''}}'' @ rest" using name rest by (metis append_eq_conv_conj list.size takeWhile_dropWhile_id
      append_Nil drop_append length_Cons One_nat_def Suc_1 diff_self_eq_0 drop0 drop_all le_refl)
  then show ?thesis by (simp add: s)
qed

function substitute_env_vars :: "env \<Rightarrow> string \<Rightarrow> string" where
  "substitute_env_vars env s =
     (case s of
        [] \<Rightarrow> []
      | c # r \<Rightarrow>
          (case placeholder s of
             Some (name, rest) \<Rightarrow>
               (if getenv env name \<noteq> [] then getenv env name else ''{{ENV.'' @ name @ ''}}'')
               @ substitute_env_vars env rest
           | None \<Rightarrow> c # substitute_env_vars env r))"
  by pat_completeness auto
termination
  by (relation "measure (\<lambda>(env, s). length s)") (auto dest: placeholder_split)

declare substitute_env_vars.simps [simp del]

definition split_csv :: "string \<Rightarrow> string list" where
  "split_csv value = filter (\<lambda>item. item \<noteq> []) (map trim_space (split_on CHR '','' value))"

text \<open>\<open>applyJWTMapOverrides\<close>: later variables win over earlier ones.\<close>

fun apply_map_overrides ::
    "env \<Rightarrow> string \<Rightarrow> env \<Rightarrow> (string \<rightharpoonup> string) \<Rightarrow> (string \<rightharpoonup> string)" where
  "apply_map_overrides env prefix [] target = target"
| "apply_map_overrides env prefix ((key, value) # vars) target =
     (if \<not> has_prefix key prefix then apply_map_overrides env prefix vars target
      else let claim_key = to_lower (trim_prefix key prefix)
           in if claim_key = [] then apply_map_overrides env prefix vars target
              else apply_map_overrides env prefix vars
                     (target(claim_key \<mapsto> substitute_env_vars env value)))"

section \<open>Overrides\<close>

datatype env_error = InvalidEnv string

type_synonym override = "config \<Rightarrow> (env_error, config) result"

definition env_string :: "env \<Rightarrow> string \<Rightarrow> (string \<Rightarrow> config \<Rightarrow> config) \<Rightarrow> override" where
  "env_string env var upd c = Inr (if getenv env var \<noteq> [] then upd (getenv env var) c else c)"

definition env_parsed ::
    "(string \<Rightarrow> 'a option) \<Rightarrow> env \<Rightarrow> string \<Rightarrow> ('a \<Rightarrow> config \<Rightarrow> config) \<Rightarrow> override" where
  "env_parsed parse env var upd c =
     (if getenv env var = [] then Inr c
      else case parse (getenv env var) of
        None \<Rightarrow> Inl (InvalidEnv var)
      | Some v \<Rightarrow> Inr (upd v c))"

abbreviation env_int :: "env \<Rightarrow> string \<Rightarrow> (int \<Rightarrow> config \<Rightarrow> config) \<Rightarrow> override" where
  "env_int \<equiv> env_parsed parse_int"

abbreviation env_bool :: "env \<Rightarrow> string \<Rightarrow> (bool \<Rightarrow> config \<Rightarrow> config) \<Rightarrow> override" where
  "env_bool \<equiv> env_parsed parse_bool"

definition env_map :: "env \<Rightarrow> string \<Rightarrow> (((string \<rightharpoonup> string) \<Rightarrow> (string \<rightharpoonup> string)) \<Rightarrow> config \<Rightarrow> config) \<Rightarrow> override" where
  "env_map env prefix upd c = Inr (upd (apply_map_overrides env prefix env) c)"

text \<open>Where an override writes: one setter per group of fields.\<close>

abbreviation in_server where "in_server f c \<equiv> cf_server_update f c"
abbreviation in_health where "in_health f c \<equiv> cf_server_update (sv_health_check_update f) c"
abbreviation in_ip where "in_ip f c \<equiv> cf_security_update (se_rate_limit_update f) c"
abbreviation in_ak where "in_ak f c \<equiv> cf_security_update (se_apikey_rate_limit_update f) c"
abbreviation in_jl where "in_jl f c \<equiv> cf_security_update (se_jwt_rate_limit_update f) c"
abbreviation in_auth where "in_auth f c \<equiv> cf_auth_update f c"
abbreviation in_jwt where "in_jwt f c \<equiv> cf_auth_update (au_jwt_update f) c"
abbreviation in_key where "in_key f c \<equiv> cf_auth_update (au_api_key_update f) c"
abbreviation in_storage where "in_storage f c \<equiv> cf_storage_update f c"
abbreviation in_admin where "in_admin f c \<equiv> cf_admin_update f c"
abbreviation in_admin_jwt where "in_admin_jwt f c \<equiv> cf_admin_update (ad_jwt_update f) c"

definition server_overrides :: "env \<Rightarrow> override list" where
  "server_overrides env =
    [env_int env ''PROXY_SERVER_PORT'' (\<lambda>v. in_server (sv_port_update (\<lambda>_. v))),
     env_string env ''PROXY_SERVER_TARGET_URL'' (\<lambda>v. in_server (sv_target_url_update (\<lambda>_. v))),
     env_string env ''PROXY_SERVER_STRIP_PREFIX'' (\<lambda>v. in_server (sv_strip_prefix_update (\<lambda>_. v))),
     env_string env ''PROXY_SERVER_INCLUDE_PATHS''
       (\<lambda>v. in_server (sv_include_paths_update (\<lambda>_. split_csv v))),
     env_string env ''PROXY_SERVER_EXCLUDE_PATHS''
       (\<lambda>v. in_server (sv_exclude_paths_update (\<lambda>_. split_csv v))),
     env_int env ''PROXY_SERVER_SHUTDOWN_TIMEOUT_SECS''
       (\<lambda>v. in_server (sv_shutdown_timeout_secs_update (\<lambda>_. v))),
     env_string env ''PROXY_SERVER_HEALTH_CHECK_PATH'' (\<lambda>v. in_health (hc_path_update (\<lambda>_. v))),
     env_string env ''PROXY_SERVER_HEALTH_CHECK_TARGET'' (\<lambda>v. in_health (hc_target_update (\<lambda>_. v)))]"

definition security_overrides :: "env \<Rightarrow> override list" where
  "security_overrides env =
    [env_bool env ''PROXY_SECURITY_RATE_LIMIT_ENABLED'' (\<lambda>v. in_ip (ip_enabled_update (\<lambda>_. v))),
     env_int env ''PROXY_SECURITY_RATE_LIMIT_REQUESTS_PER_MIN''
       (\<lambda>v. in_ip (ip_requests_per_min_update (\<lambda>_. v))),
     env_int env ''PROXY_SECURITY_RATE_LIMIT_BAN_FOR_MIN'' (\<lambda>v. in_ip (ip_ban_for_min_update (\<lambda>_. v))),
     env_int env ''PROXY_SECURITY_RATE_LIMIT_THROTTLE_DELAY_MS''
       (\<lambda>v. in_ip (ip_throttle_delay_ms_update (\<lambda>_. v))),
     env_int env ''PROXY_SECURITY_RATE_LIMIT_MAX_DELAY_SLOTS''
       (\<lambda>v. in_ip (ip_max_delay_slots_update (\<lambda>_. v))),
     env_bool env ''PROXY_SECURITY_RATE_LIMIT_SKIP_IF_JWT_IDENTIFIED''
       (\<lambda>v. in_ip (ip_skip_if_jwt_identified_update (\<lambda>_. Some v))),
     env_bool env ''PROXY_SECURITY_APIKEY_RATE_LIMIT_ENABLED'' (\<lambda>v. in_ak (ak_enabled_update (\<lambda>_. v))),
     env_int env ''PROXY_SECURITY_APIKEY_RATE_LIMIT_REQUESTS_PER_MIN''
       (\<lambda>v. in_ak (ak_requests_per_min_update (\<lambda>_. v))),
     env_int env ''PROXY_SECURITY_APIKEY_RATE_LIMIT_BAN_FOR_MIN''
       (\<lambda>v. in_ak (ak_ban_for_min_update (\<lambda>_. v))),
     env_bool env ''PROXY_SECURITY_APIKEY_RATE_LIMIT_INCLUDE_IP''
       (\<lambda>v. in_ak (ak_include_ip_update (\<lambda>_. v))),
     env_string env ''PROXY_SECURITY_APIKEY_RATE_LIMIT_KEY_HEADER''
       (\<lambda>v. in_ak (ak_key_header_update (\<lambda>_. v))),
     env_int env ''PROXY_SECURITY_APIKEY_RATE_LIMIT_THROTTLE_DELAY_MS''
       (\<lambda>v. in_ak (ak_throttle_delay_ms_update (\<lambda>_. v))),
     env_int env ''PROXY_SECURITY_APIKEY_RATE_LIMIT_MAX_DELAY_SLOTS''
       (\<lambda>v. in_ak (ak_max_delay_slots_update (\<lambda>_. v))),
     env_bool env ''PROXY_SECURITY_JWT_RATE_LIMIT_ENABLED'' (\<lambda>v. in_jl (jl_enabled_update (\<lambda>_. v))),
     env_int env ''PROXY_SECURITY_JWT_RATE_LIMIT_REQUESTS_PER_MIN''
       (\<lambda>v. in_jl (jl_requests_per_min_update (\<lambda>_. v))),
     env_int env ''PROXY_SECURITY_JWT_RATE_LIMIT_BAN_FOR_MIN''
       (\<lambda>v. in_jl (jl_ban_for_min_update (\<lambda>_. v))),
     env_bool env ''PROXY_SECURITY_JWT_RATE_LIMIT_INCLUDE_IP''
       (\<lambda>v. in_jl (jl_include_ip_update (\<lambda>_. v))),
     env_int env ''PROXY_SECURITY_JWT_RATE_LIMIT_THROTTLE_DELAY_MS''
       (\<lambda>v. in_jl (jl_throttle_delay_ms_update (\<lambda>_. v))),
     env_int env ''PROXY_SECURITY_JWT_RATE_LIMIT_MAX_DELAY_SLOTS''
       (\<lambda>v. in_jl (jl_max_delay_slots_update (\<lambda>_. v))),
     env_int env ''PROXY_SECURITY_MAX_BODY_BYTES''
       (\<lambda>v. cf_security_update (se_max_body_bytes_update (\<lambda>_. v)))]"

definition auth_overrides :: "env \<Rightarrow> override list" where
  "auth_overrides env =
    [env_string env ''PROXY_AUTH_HEADER_PREFIX'' (\<lambda>v. in_auth (au_header_prefix_update (\<lambda>_. v))),
     env_bool env ''PROXY_AUTH_JWT_ENABLED'' (\<lambda>v. in_jwt (jc_enabled_update (\<lambda>_. v))),
     env_string env ''PROXY_AUTH_JWT_ISSUER''
       (\<lambda>v. in_jwt (jc_issuer_update (\<lambda>_. substitute_env_vars env v))),
     env_string env ''PROXY_AUTH_JWT_AUDIENCE''
       (\<lambda>v. in_jwt (jc_audience_update (\<lambda>_. substitute_env_vars env v))),
     env_int env ''PROXY_AUTH_JWT_TOLERANCE_SECS'' (\<lambda>v. in_jwt (jc_tolerance_secs_update (\<lambda>_. v))),
     env_int env ''PROXY_AUTH_JWT_CACHE_TTL_MINS'' (\<lambda>v. in_jwt (jc_cache_ttl_mins_update (\<lambda>_. v))),
     env_string env ''PROXY_AUTH_JWT_ALLOWED_EMAILS''
       (\<lambda>v. in_jwt (jc_allowed_emails_update (\<lambda>_. split_csv v))),
     env_map env ''PROXY_AUTH_JWT_FILTERS_'' (\<lambda>f. in_jwt (jc_filters_update f)),
     env_map env ''PROXY_AUTH_JWT_MAPPINGS_'' (\<lambda>f. in_jwt (jc_mappings_update f)),
     env_bool env ''PROXY_AUTH_API_KEY_ENABLED'' (\<lambda>v. in_key (kc_enabled_update (\<lambda>_. v))),
     env_string env ''PROXY_AUTH_API_KEY_NAME'' (\<lambda>v. in_key (kc_name_update (\<lambda>_. v))),
     env_string env ''PROXY_AUTH_API_KEY_VALUE''
       (\<lambda>v. in_key (kc_value_update (\<lambda>_. substitute_env_vars env v))),
     env_map env ''PROXY_AUTH_API_KEY_PAYLOAD_'' (\<lambda>f. in_key (kc_payload_update f))]"

definition storage_admin_overrides :: "env \<Rightarrow> override list" where
  "storage_admin_overrides env =
    [env_bool env ''PROXY_STORAGE_ENABLED'' (\<lambda>v. in_storage (st_enabled_update (\<lambda>_. v))),
     env_string env ''PROXY_STORAGE_PROJECT_ID'' (\<lambda>v. in_storage (st_project_id_update (\<lambda>_. v))),
     env_string env ''PROXY_STORAGE_DBNAME'' (\<lambda>v. in_storage (st_dbname_update (\<lambda>_. v))),
     env_string env ''PROXY_STORAGE_COLLECTION_PREFIX''
       (\<lambda>v. in_storage (st_collection_prefix_update (\<lambda>_. v))),
     env_bool env ''PROXY_ADMIN_ENABLED'' (\<lambda>v. in_admin (ad_enabled_update (\<lambda>_. v))),
     env_string env ''PROXY_ADMIN_JWT_ISSUER'' (\<lambda>v. in_admin_jwt (jc_issuer_update (\<lambda>_. v))),
     env_string env ''PROXY_ADMIN_JWT_AUDIENCE'' (\<lambda>v. in_admin_jwt (jc_audience_update (\<lambda>_. v))),
     env_string env ''PROXY_ADMIN_JWT_ALLOWED_EMAILS''
       (\<lambda>v. in_admin_jwt (jc_allowed_emails_update (\<lambda>_. split_csv v))),
     env_map env ''PROXY_ADMIN_JWT_FILTERS_'' (\<lambda>f. in_admin_jwt (jc_filters_update f)),
     env_map env ''PROXY_ADMIN_JWT_MAPPINGS_'' (\<lambda>f. in_admin_jwt (jc_mappings_update f))]"

fun run_overrides :: "override list \<Rightarrow> override" where
  "run_overrides [] c = Inr c"
| "run_overrides (ov # ovs) c = bind_result (ov c) (run_overrides ovs)"

definition apply_env_overrides :: "env \<Rightarrow> override" where
  "apply_env_overrides env =
     run_overrides (server_overrides env @ security_overrides env @ auth_overrides env
                    @ storage_admin_overrides env)"

section \<open>Defaults\<close>

definition or_default :: "int \<Rightarrow> int \<Rightarrow> int" where
  "or_default d v = (if v = 0 then d else v)"

definition or_default_str :: "string \<Rightarrow> string \<Rightarrow> string" where
  "or_default_str d v = (if v = [] then d else v)"

definition server_defaults :: "server_config \<Rightarrow> server_config" where
  "server_defaults s =
     s\<lparr>sv_port := or_default 8888 (sv_port s),
       sv_shutdown_timeout_secs := or_default 10 (sv_shutdown_timeout_secs s),
       sv_health_check := (sv_health_check s)\<lparr>hc_path := or_default_str ''/healthz'' (hc_path (sv_health_check s))\<rparr>,
       sv_include_paths := (if sv_include_paths s = [] then [''/*''] else sv_include_paths s)\<rparr>"

definition security_defaults :: "security_config \<Rightarrow> security_config" where
  "security_defaults s =
     (let i = se_rate_limit s; a = se_apikey_rate_limit s; j = se_jwt_rate_limit s
      in s\<lparr>se_rate_limit :=
             i\<lparr>ip_requests_per_min := or_default 60 (ip_requests_per_min i),
               ip_ban_for_min := or_default 5 (ip_ban_for_min i),
               ip_max_delay_slots := or_default 100 (ip_max_delay_slots i),
               ip_skip_if_jwt_identified :=
                 (if ip_skip_if_jwt_identified i = None then Some True else ip_skip_if_jwt_identified i)\<rparr>,
           se_apikey_rate_limit :=
             a\<lparr>ak_requests_per_min := or_default 60 (ak_requests_per_min a),
               ak_ban_for_min := or_default 5 (ak_ban_for_min a),
               ak_key_header := or_default_str ''x-goog-api-key'' (ak_key_header a),
               ak_max_delay_slots := or_default 100 (ak_max_delay_slots a)\<rparr>,
           se_jwt_rate_limit :=
             j\<lparr>jl_requests_per_min := or_default 60 (jl_requests_per_min j),
               jl_ban_for_min := or_default 5 (jl_ban_for_min j),
               jl_max_delay_slots := or_default 100 (jl_max_delay_slots j)\<rparr>,
           se_max_body_bytes := or_default 1048576 (se_max_body_bytes s)\<rparr>)"

definition jwt_defaults :: "jwt_config \<Rightarrow> jwt_config" where
  "jwt_defaults j =
     j\<lparr>jc_tolerance_secs := or_default 30 (jc_tolerance_secs j),
       jc_cache_ttl_mins := or_default 1440 (jc_cache_ttl_mins j)\<rparr>"

text \<open>
  The metadata server's answer: no answer, a status with a body that reads, or a status
  with a body that fails to read.
\<close>

datatype http_reply = NoReply string | Reply int string | ReplyUnread int

definition fetch_gcp_project_id :: "http_reply \<Rightarrow> string" where
  "fetch_gcp_project_id reply =
     (case reply of
        NoReply e \<Rightarrow> []
      | ReplyUnread status \<Rightarrow> []
      | Reply status body \<Rightarrow> if status \<noteq> 200 then [] else trim_space body)"

definition project_placeholder :: string where
  "project_placeholder = ''{{ENV.GOOGLE_CLOUD_PROJECT}}''"

definition resolve_gcp_project_id :: "env \<Rightarrow> http_reply \<Rightarrow> config \<Rightarrow> config" where
  "resolve_gcp_project_id env reply c =
     (let from_env = getenv env ''GOOGLE_CLOUD_PROJECT'';
          project = (if from_env = [] then fetch_gcp_project_id reply else from_env)
      in if project \<noteq> []
         then in_jwt (\<lambda>j. j\<lparr>jc_issuer := replace_all project_placeholder project (jc_issuer j),
                            jc_audience := replace_all project_placeholder project (jc_audience j)\<rparr>) c
         else c)"

definition set_defaults :: "env \<Rightarrow> http_reply \<Rightarrow> config \<Rightarrow> config" where
  "set_defaults env reply c =
     (let c1 = c\<lparr>cf_server := server_defaults (cf_server c),
                 cf_security := security_defaults (cf_security c)\<rparr>;
          c2 = in_auth (\<lambda>a. a\<lparr>au_header_prefix := or_default_str ''X-AUTH-'' (au_header_prefix a),
                              au_jwt := jwt_defaults (au_jwt a)\<rparr>) c1;
          c3 = (if ad_enabled (cf_admin c2) then in_admin_jwt jwt_defaults c2 else c2);
          c4 = in_storage (\<lambda>s. s\<lparr>st_collection_prefix := or_default_str ''proxy'' (st_collection_prefix s)\<rparr>) c3;
          c5 = in_key (\<lambda>k. k\<lparr>kc_name := or_default_str ''X-API-KEY'' (kc_name k)\<rparr>) c4
      in resolve_gcp_project_id env reply c5)"

section \<open>Validation and loading\<close>

definition validate :: "config \<Rightarrow> (string, unit) result" where
  "validate c =
     (let j = au_jwt (cf_auth c); k = au_api_key (cf_auth c); a = cf_admin c; aj = ad_jwt a;
          port = sv_port (cf_server c)
      in if jc_enabled j \<and> jc_issuer j = [] then
           Inl ''JWT issuer is required when JWT auth is enabled''
         else if jc_enabled j \<and> jc_audience j = [] then
           Inl ''JWT audience is required when JWT auth is enabled''
         else if jc_enabled j \<and> contains (jc_issuer j) project_placeholder then
           Inl ''could not resolve GOOGLE_CLOUD_PROJECT in JWT issuer''
         else if jc_enabled j \<and> contains (jc_audience j) project_placeholder then
           Inl ''could not resolve GOOGLE_CLOUD_PROJECT in JWT audience''
         else if kc_enabled k \<and> kc_value k = [] then
           Inl ''API key value is required when API-Key auth is enabled''
         else if kc_enabled k \<and> contains (kc_value k) ''{{ENV.'' then
           Inl ''unresolved environment variable in API key value''
         else if ad_enabled a \<and> jc_issuer aj = [] then
           Inl ''admin JWT issuer is required when admin API is enabled''
         else if ad_enabled a \<and> jc_audience aj = [] then
           Inl ''admin JWT audience is required when admin API is enabled''
         else if ad_enabled a \<and> jc_allowed_emails aj = [] \<and> dom (jc_filters aj) = {} then
           Inl ''admin JWT requires at least one of allowed_emails or filters when admin API is enabled''
         else if port < 1 \<or> 65535 < port then
           Inl (''server port must be between 1 and 65535, got: '' @ int_string port)
         else Inr ())"

datatype load_error = ReadFailed | ParseFailed | EnvFailed env_error | Invalid string

text \<open>\<open>file\<close> is what reading the file gives, \<open>toml\<close> the TOML parser.\<close>

definition load ::
    "string option \<Rightarrow> (string \<Rightarrow> config option) \<Rightarrow> env \<Rightarrow> http_reply \<Rightarrow> (load_error, config) result" where
  "load file toml env reply =
     (case file of
        None \<Rightarrow> Inl ReadFailed
      | Some data \<Rightarrow>
          (case toml (substitute_env_vars env data) of
             None \<Rightarrow> Inl ParseFailed
           | Some c0 \<Rightarrow>
               (case apply_env_overrides env c0 of
                  Inl e \<Rightarrow> Inl (EnvFailed e)
                | Inr c1 \<Rightarrow>
                    (let c2 = set_defaults env reply c1
                     in case validate c2 of Inl msg \<Rightarrow> Inl (Invalid msg) | Inr _ \<Rightarrow> Inr c2))))"

end
