(* ===== verification/Config_Claims.thy ===== *)
theory Config_Claims
  imports Config
begin

text \<open>
  What loading a configuration guarantees: which environments are accepted, what holds of
  every loaded configuration, and how placeholders and comma-separated lists are read.
\<close>

section \<open>Which environments are accepted\<close>

text \<open>The variables that must parse when they are set, as the environment guide lists them.\<close>

definition int_vars :: "string list" where
  "int_vars =
    [''PROXY_SERVER_PORT'', ''PROXY_SERVER_SHUTDOWN_TIMEOUT_SECS'',
     ''PROXY_SECURITY_RATE_LIMIT_REQUESTS_PER_MIN'', ''PROXY_SECURITY_RATE_LIMIT_BAN_FOR_MIN'',
     ''PROXY_SECURITY_RATE_LIMIT_THROTTLE_DELAY_MS'', ''PROXY_SECURITY_RATE_LIMIT_MAX_DELAY_SLOTS'',
     ''PROXY_SECURITY_APIKEY_RATE_LIMIT_REQUESTS_PER_MIN'',
     ''PROXY_SECURITY_APIKEY_RATE_LIMIT_BAN_FOR_MIN'',
     ''PROXY_SECURITY_APIKEY_RATE_LIMIT_THROTTLE_DELAY_MS'',
     ''PROXY_SECURITY_APIKEY_RATE_LIMIT_MAX_DELAY_SLOTS'',
     ''PROXY_SECURITY_JWT_RATE_LIMIT_REQUESTS_PER_MIN'', ''PROXY_SECURITY_JWT_RATE_LIMIT_BAN_FOR_MIN'',
     ''PROXY_SECURITY_JWT_RATE_LIMIT_THROTTLE_DELAY_MS'',
     ''PROXY_SECURITY_JWT_RATE_LIMIT_MAX_DELAY_SLOTS'', ''PROXY_SECURITY_MAX_BODY_BYTES'',
     ''PROXY_AUTH_JWT_TOLERANCE_SECS'', ''PROXY_AUTH_JWT_CACHE_TTL_MINS'']"

definition bool_vars :: "string list" where
  "bool_vars =
    [''PROXY_SECURITY_RATE_LIMIT_ENABLED'', ''PROXY_SECURITY_RATE_LIMIT_SKIP_IF_JWT_IDENTIFIED'',
     ''PROXY_SECURITY_APIKEY_RATE_LIMIT_ENABLED'', ''PROXY_SECURITY_APIKEY_RATE_LIMIT_INCLUDE_IP'',
     ''PROXY_SECURITY_JWT_RATE_LIMIT_ENABLED'', ''PROXY_SECURITY_JWT_RATE_LIMIT_INCLUDE_IP'',
     ''PROXY_AUTH_JWT_ENABLED'', ''PROXY_AUTH_API_KEY_ENABLED'', ''PROXY_STORAGE_ENABLED'',
     ''PROXY_ADMIN_ENABLED'']"

definition parses :: "(string \<Rightarrow> 'a option) \<Rightarrow> env \<Rightarrow> string \<Rightarrow> bool" where
  "parses parse env v \<longleftrightarrow> getenv env v = [] \<or> parse (getenv env v) \<noteq> None"

definition env_accepted :: "env \<Rightarrow> bool" where
  "env_accepted env \<longleftrightarrow> list_all (parses parse_int env) int_vars \<and> list_all (parses parse_bool env) bool_vars"

definition decides :: "override \<Rightarrow> bool \<Rightarrow> bool" where
  "decides ov Q \<longleftrightarrow> (\<forall>c. is_ok (ov c) = Q)"

lemma decides_string: "decides (env_string env v upd) True"
  by (simp add: decides_def env_string_def)

lemma decides_map: "decides (env_map env v upd) True"
  by (simp add: decides_def env_map_def)

lemma decides_parsed: "decides (env_parsed p env v upd) (parses p env v)"
  by (auto simp: decides_def env_parsed_def parses_def split: option.splits)

lemma decides_run_Nil: "decides (run_overrides []) True"
  by (simp add: decides_def)

lemma decides_run_Cons:
  "decides ov P \<Longrightarrow> decides (run_overrides ovs) Q \<Longrightarrow> decides (run_overrides (ov # ovs)) (P \<and> Q)"
  unfolding decides_def by (metis bind_result.simps is_ok.elims(2) is_ok.simps(1) run_overrides.simps(2)
      is_ok.elims(3))

lemma run_overrides_append: "run_overrides (xs @ ys) c = bind_result (run_overrides xs c) (run_overrides ys)"
proof (induction xs arbitrary: c)
  case (Cons x xs)
  then show ?case by (cases "x c") auto
qed simp

lemma decides_run_append:
  assumes "decides (run_overrides xs) P" and "decides (run_overrides ys) Q"
  shows "decides (run_overrides (xs @ ys)) (P \<and> Q)"
proof -
  have "is_ok (run_overrides (xs @ ys) c) = (P \<and> Q)" for c
    using assms unfolding decides_def run_overrides_append
    by (cases "run_overrides xs c") (metis bind_result.simps is_ok.simps)+
  then show ?thesis by (simp add: decides_def)
qed

lemmas decides_rules = decides_run_Nil decides_run_Cons decides_string decides_map decides_parsed

lemma decides_server: "\<exists>Q. decides (run_overrides (server_overrides env)) Q \<and>
    Q = (list_all (parses parse_int env) [''PROXY_SERVER_PORT'', ''PROXY_SERVER_SHUTDOWN_TIMEOUT_SECS''])"
  unfolding server_overrides_def by (rule exI, rule conjI, (rule decides_rules)+) simp

lemma decides_security: "\<exists>Q. decides (run_overrides (security_overrides env)) Q \<and>
    Q = (list_all (parses parse_int env) (take 13 (drop 2 int_vars))
         \<and> list_all (parses parse_bool env) (take 6 bool_vars))"
  unfolding security_overrides_def
  by (rule exI, rule conjI, (rule decides_rules)+) (auto simp: int_vars_def bool_vars_def)

lemma decides_auth: "\<exists>Q. decides (run_overrides (auth_overrides env)) Q \<and>
    Q = (list_all (parses parse_int env) (drop 15 int_vars)
         \<and> list_all (parses parse_bool env) (take 2 (drop 6 bool_vars)))"
  unfolding auth_overrides_def
  by (rule exI, rule conjI, (rule decides_rules)+) (auto simp: int_vars_def bool_vars_def)

lemma decides_storage_admin: "\<exists>Q. decides (run_overrides (storage_admin_overrides env)) Q \<and>
    Q = list_all (parses parse_bool env) (drop 8 bool_vars)"
  unfolding storage_admin_overrides_def
  by (rule exI, rule conjI, (rule decides_rules)+) (auto simp: bool_vars_def)

text \<open>
  C33. The environment overrides are accepted exactly when every integer variable that is
  set parses as a 64-bit decimal and every boolean variable that is set parses as a
  boolean, whatever the configuration file says.
\<close>

theorem overrides_accepted_iff: "is_ok (apply_env_overrides env c) \<longleftrightarrow> env_accepted env"
proof -
  obtain Q where "decides (apply_env_overrides env) Q" and "Q = env_accepted env"
  proof -
    obtain q1 q2 q3 q4 where
      q: "decides (run_overrides (server_overrides env)) q1" "decides (run_overrides (security_overrides env)) q2"
        "decides (run_overrides (auth_overrides env)) q3" "decides (run_overrides (storage_admin_overrides env)) q4"
      and eq: "(q1 \<and> q2 \<and> q3 \<and> q4) = env_accepted env"
      using decides_server[of env] decides_security[of env] decides_auth[of env] decides_storage_admin[of env]
      by (auto simp: env_accepted_def int_vars_def bool_vars_def)
    have "decides (run_overrides (server_overrides env @ security_overrides env @ auth_overrides env
        @ storage_admin_overrides env)) (q1 \<and> q2 \<and> q3 \<and> q4)"
      using q by (intro decides_run_append)
    then have "decides (apply_env_overrides env) (q1 \<and> q2 \<and> q3 \<and> q4)"
      by (simp add: decides_def apply_env_overrides_def)
    then show thesis using eq that by blast
  qed
  then show ?thesis by (simp add: decides_def)
qed

section \<open>Loaded configurations\<close>

definition config_ok :: "config \<Rightarrow> bool" where
  "config_ok c \<longleftrightarrow>
     (let s = cf_server c; i = se_rate_limit (cf_security c); a = se_apikey_rate_limit (cf_security c);
          j = se_jwt_rate_limit (cf_security c); jwt = au_jwt (cf_auth c); k = au_api_key (cf_auth c);
          ad = cf_admin c
      in 1 \<le> sv_port s \<and> sv_port s \<le> 65535 \<and> sv_shutdown_timeout_secs s \<noteq> 0
         \<and> sv_include_paths s \<noteq> [] \<and> hc_path (sv_health_check s) \<noteq> []
         \<and> ip_requests_per_min i \<noteq> 0 \<and> ip_ban_for_min i \<noteq> 0 \<and> ip_max_delay_slots i \<noteq> 0
         \<and> ip_skip_if_jwt_identified i \<noteq> None
         \<and> ak_requests_per_min a \<noteq> 0 \<and> ak_ban_for_min a \<noteq> 0 \<and> ak_key_header a \<noteq> []
         \<and> jl_requests_per_min j \<noteq> 0 \<and> jl_ban_for_min j \<noteq> 0
         \<and> se_max_body_bytes (cf_security c) \<noteq> 0
         \<and> au_header_prefix (cf_auth c) \<noteq> [] \<and> kc_name k \<noteq> []
         \<and> jc_tolerance_secs jwt \<noteq> 0 \<and> jc_cache_ttl_mins jwt \<noteq> 0
         \<and> (jc_enabled jwt \<longrightarrow> jc_issuer jwt \<noteq> [] \<and> jc_audience jwt \<noteq> []
              \<and> \<not> contains (jc_issuer jwt) project_placeholder
              \<and> \<not> contains (jc_audience jwt) project_placeholder)
         \<and> (kc_enabled k \<longrightarrow> kc_value k \<noteq> [] \<and> \<not> contains (kc_value k) ''{{ENV.'')
         \<and> (ad_enabled ad \<longrightarrow> jc_issuer (ad_jwt ad) \<noteq> [] \<and> jc_audience (ad_jwt ad) \<noteq> []
              \<and> jc_tolerance_secs (ad_jwt ad) \<noteq> 0
              \<and> (jc_allowed_emails (ad_jwt ad) \<noteq> [] \<or> dom (jc_filters (ad_jwt ad)) \<noteq> {})))"

lemma or_default_nonzero: "d \<noteq> 0 \<Longrightarrow> or_default d v \<noteq> 0"
  by (simp add: or_default_def)

lemma or_default_str_nonempty: "d \<noteq> [] \<Longrightarrow> or_default_str d v \<noteq> []"
  by (simp add: or_default_str_def)

lemma validate_ok:
  assumes "validate c = Inr u"
  shows "1 \<le> sv_port (cf_server c)" "sv_port (cf_server c) \<le> 65535"
    "jc_enabled (au_jwt (cf_auth c)) \<longrightarrow> jc_issuer (au_jwt (cf_auth c)) \<noteq> []
       \<and> jc_audience (au_jwt (cf_auth c)) \<noteq> []
       \<and> \<not> contains (jc_issuer (au_jwt (cf_auth c))) project_placeholder
       \<and> \<not> contains (jc_audience (au_jwt (cf_auth c))) project_placeholder"
    "kc_enabled (au_api_key (cf_auth c)) \<longrightarrow> kc_value (au_api_key (cf_auth c)) \<noteq> []
       \<and> \<not> contains (kc_value (au_api_key (cf_auth c))) ''{{ENV.''"
    "ad_enabled (cf_admin c) \<longrightarrow> jc_issuer (ad_jwt (cf_admin c)) \<noteq> []
       \<and> jc_audience (ad_jwt (cf_admin c)) \<noteq> []
       \<and> (jc_allowed_emails (ad_jwt (cf_admin c)) \<noteq> [] \<or> dom (jc_filters (ad_jwt (cf_admin c))) \<noteq> {})"
  using assms by (auto simp: validate_def Let_def split: if_splits)

lemma set_defaults_fields:
  "cf_server (set_defaults env reply c) = server_defaults (cf_server c)"
  "cf_security (set_defaults env reply c) = security_defaults (cf_security c)"
  "au_header_prefix (cf_auth (set_defaults env reply c)) = or_default_str ''X-AUTH-'' (au_header_prefix (cf_auth c))"
  "kc_name (au_api_key (cf_auth (set_defaults env reply c))) = or_default_str ''X-API-KEY'' (kc_name (au_api_key (cf_auth c)))"
  "jc_tolerance_secs (au_jwt (cf_auth (set_defaults env reply c))) = or_default 30 (jc_tolerance_secs (au_jwt (cf_auth c)))"
  "jc_cache_ttl_mins (au_jwt (cf_auth (set_defaults env reply c))) = or_default 1440 (jc_cache_ttl_mins (au_jwt (cf_auth c)))"
  "cf_admin (set_defaults env reply c) =
     (if ad_enabled (cf_admin c) then ad_jwt_update jwt_defaults (cf_admin c) else cf_admin c)"
  by (simp_all add: set_defaults_def resolve_gcp_project_id_def jwt_defaults_def Let_def)

text \<open>
  Every configuration that loads is usable: the port is a port number, each limit, ban
  and timeout that a zero would disable has a value, the header prefix and the key header
  are not empty, each enabled authentication method has what it needs with its
  placeholders resolved, and an enabled admin API has an access control.
\<close>

theorem load_config_ok:
  assumes "load file toml env reply = Inr c"
  shows "config_ok c"
proof -
  obtain c1 u where c: "c = set_defaults env reply c1" and v: "validate c = Inr u"
    using assms by (auto simp: load_def Let_def split: option.splits sum.splits)
  note valid = validate_ok[OF v]
  have "ad_enabled (cf_admin c) \<Longrightarrow> jc_tolerance_secs (ad_jwt (cf_admin c)) \<noteq> 0"
    by (auto simp: c set_defaults_fields jwt_defaults_def or_default_def split: if_splits)
  then show ?thesis
    using valid unfolding config_ok_def Let_def
    by (simp add: c set_defaults_fields server_defaults_def security_defaults_def Let_def
        or_default_nonzero or_default_str_nonempty) (intro impI exI TrueI)
qed

definition zero_jwt :: jwt_config where
  "zero_jwt = \<lparr>jc_enabled = False, jc_issuer = [], jc_audience = [], jc_tolerance_secs = 0,
     jc_cache_ttl_mins = 0, jc_filters = Map.empty, jc_mappings = Map.empty, jc_allowed_emails = []\<rparr>"

text \<open>The zero value of the struct, what an empty file parses to.\<close>

definition zero_config :: config where
  "zero_config =
     \<lparr>cf_server = \<lparr>sv_port = 0, sv_target_url = [], sv_strip_prefix = [], sv_include_paths = [],
        sv_exclude_paths = [], sv_shutdown_timeout_secs = 0, sv_health_check = \<lparr>hc_path = [], hc_target = []\<rparr>\<rparr>,
      cf_security = \<lparr>se_rate_limit = \<lparr>ip_enabled = False, ip_requests_per_min = 0, ip_ban_for_min = 0,
          ip_throttle_delay_ms = 0, ip_max_delay_slots = 0, ip_skip_if_jwt_identified = None\<rparr>,
        se_apikey_rate_limit = \<lparr>ak_enabled = False, ak_requests_per_min = 0, ak_ban_for_min = 0,
          ak_include_ip = False, ak_key_header = [], ak_match = [], ak_throttle_delay_ms = 0,
          ak_max_delay_slots = 0\<rparr>,
        se_jwt_rate_limit = \<lparr>jl_enabled = False, jl_requests_per_min = 0, jl_ban_for_min = 0,
          jl_include_ip = False, jl_throttle_delay_ms = 0, jl_max_delay_slots = 0\<rparr>,
        se_max_body_bytes = 0\<rparr>,
      cf_auth = \<lparr>au_header_prefix = [], au_jwt = zero_jwt,
        au_api_key = \<lparr>kc_enabled = False, kc_name = [], kc_value = [], kc_payload = Map.empty\<rparr>\<rparr>,
      cf_admin = \<lparr>ad_enabled = False, ad_jwt = zero_jwt\<rparr>,
      cf_storage = \<lparr>st_enabled = False, st_project_id = [], st_dbname = [], st_collection_prefix = []\<rparr>\<rparr>"

lemma overrides_empty_env: "apply_env_overrides [] c = Inr c"
proof -
  have g: "getenv [] v = []" for v by (simp add: getenv_def)
  have s: "env_string [] v upd = Inr" for v upd by (simp add: env_string_def g fun_eq_iff)
  have p: "env_parsed pr [] v upd = Inr" for pr v and upd :: "'a \<Rightarrow> config \<Rightarrow> config"
    by (simp add: env_parsed_def g fun_eq_iff)
  have m: "apply_map_overrides [] v [] = (\<lambda>t. t)" for v by (simp add: fun_eq_iff)
  show ?thesis
    by (simp add: apply_env_overrides_def server_overrides_def security_overrides_def auth_overrides_def
        storage_admin_overrides_def s p env_map_def m)
qed

lemma load_zero: "\<exists>c. load (Some []) (\<lambda>_. Some zero_config) [] (NoReply []) = Inr c"
proof -
  have "validate (set_defaults [] (NoReply []) zero_config) = Inr ()"
    by (simp add: validate_def set_defaults_def zero_config_def zero_jwt_def Let_def server_defaults_def
        security_defaults_def or_default_def or_default_str_def resolve_gcp_project_id_def getenv_def
        fetch_gcp_project_id_def jwt_defaults_def)
  then show ?thesis
    by (simp add: load_def overrides_empty_env substitute_env_vars.simps[of _ "[]"] Let_def)
qed

theorem load_config_ok_witness:
  "\<exists>c. load (Some []) (\<lambda>_. Some zero_config) [] (NoReply []) = Inr c \<and> config_ok c"
  using load_zero load_config_ok by blast

text \<open>
  A body limit of zero cannot be configured: whatever the file and the environment
  say, a zero becomes one mebibyte, so the limit is never off.
\<close>

theorem zero_body_limit_becomes_default:
  assumes "se_max_body_bytes (cf_security c) = 0"
  shows "se_max_body_bytes (cf_security (set_defaults env reply c)) = 2 ^ 20"
  using assms by (simp add: set_defaults_fields security_defaults_def or_default_def Let_def)

theorem zero_body_limit_becomes_default_witness:
  "se_max_body_bytes (cf_security (set_defaults [] (NoReply []) zero_config)) = 2 ^ 20"
  by (rule zero_body_limit_becomes_default) (simp add: zero_config_def)

section \<open>Which source decides a setting\<close>

text \<open>
  An override writes one field. \<open>untouched get ov\<close> says that the field read by \<open>get\<close> is not
  that one; of a list in which one override writes the field, only that one counts.
\<close>

definition untouched :: "(config \<Rightarrow> 'a) \<Rightarrow> override \<Rightarrow> bool" where
  "untouched get ov \<longleftrightarrow> (\<forall>c c'. ov c = Inr c' \<longrightarrow> get c' = get c)"

lemma untouched_string [simp]: "(\<And>v c. get (upd v c) = get c) \<Longrightarrow> untouched get (env_string env var upd)"
  by (simp add: untouched_def env_string_def)

lemma untouched_map [simp]: "(\<And>f c. get (upd f c) = get c) \<Longrightarrow> untouched get (env_map env var upd)"
  by (simp add: untouched_def env_map_def)

lemma untouched_parsed [simp]: "(\<And>v c. get (upd v c) = get c) \<Longrightarrow> untouched get (env_parsed p env var upd)"
  by (auto simp: untouched_def env_parsed_def split: if_splits option.splits)

lemma untouched_run:
  assumes "list_all (untouched get) ovs" and "run_overrides ovs c = Inr c'"
  shows "get c' = get c"
  using assms
proof (induction ovs arbitrary: c)
  case (Cons ov ovs)
  then obtain d where "ov c = Inr d" and "run_overrides ovs d = Inr c'" by (auto split: sum.splits elim: bind_result.elims)
  then show ?case using Cons by (simp add: untouched_def)
qed simp

lemma only_override_counts:
  assumes "run_overrides (xs @ ov # ys) c = Inr c'"
    and "list_all (untouched get) xs" and "list_all (untouched get) ys"
  obtains d e where "get d = get c" and "ov d = Inr e" and "get c' = get e"
proof -
  obtain d where d: "run_overrides xs c = Inr d" and "run_overrides (ov # ys) d = Inr c'"
    using assms(1) by (auto simp: run_overrides_append elim: bind_result.elims)
  then obtain e where e: "ov d = Inr e" and "run_overrides ys e = Inr c'"
    by (auto elim: bind_result.elims)
  then show thesis using that untouched_run[OF assms(2) d] untouched_run[OF assms(3)] by metis
qed

text \<open>What a setting is: the variable if it is set, else what the file says.\<close>

definition setting :: "(string \<Rightarrow> 'a option) \<Rightarrow> env \<Rightarrow> string \<Rightarrow> 'a \<Rightarrow> 'a" where
  "setting parse env var from_file =
     (if getenv env var = [] then from_file
      else case parse (getenv env var) of Some v \<Rightarrow> v | None \<Rightarrow> from_file)"

abbreviation all_overrides :: "env \<Rightarrow> override list" where
  "all_overrides env \<equiv> server_overrides env @ security_overrides env @ auth_overrides env @ storage_admin_overrides env"

lemmas all_overrides_defs =
  server_overrides_def security_overrides_def auth_overrides_def storage_admin_overrides_def

lemma only_override_at:
  assumes "apply_env_overrides env c = Inr c'" and "i < length (all_overrides env)"
    and "list_all (untouched get) (take i (all_overrides env))"
    and "list_all (untouched get) (drop (Suc i) (all_overrides env))"
  obtains d e where "get d = get c" and "(all_overrides env ! i) d = Inr e" and "get c' = get e"
  using assms only_override_counts[of "take i (all_overrides env)" "all_overrides env ! i"
      "drop (Suc i) (all_overrides env)" c c' get]
  unfolding apply_env_overrides_def by (metis id_take_nth_drop)

lemma parsed_decides:
  assumes "all_overrides env ! i = env_parsed parse env var upd" and "i < length (all_overrides env)"
    and "list_all (untouched get) (take i (all_overrides env))"
    and "list_all (untouched get) (drop (Suc i) (all_overrides env))"
    and "\<And>v d. get (upd v d) = v" and "apply_env_overrides env c = Inr c'"
  shows "get c' = setting parse env var (get c)"
  by (rule only_override_at[OF assms(6) assms(2-4)])
    (auto simp: assms(1,5) env_parsed_def setting_def split: if_splits option.splits)

lemma string_decides:
  assumes "all_overrides env ! i = env_string env var upd" and "i < length (all_overrides env)"
    and "list_all (untouched get) (take i (all_overrides env))"
    and "list_all (untouched get) (drop (Suc i) (all_overrides env))"
    and "\<And>v d. get (upd v d) = v" and "apply_env_overrides env c = Inr c'"
  shows "get c' = setting Some env var (get c)"
  by (rule only_override_at[OF assms(6) assms(2-4)])
    (auto simp: assms(1,5) env_string_def setting_def split: if_splits)

lemma server_settings:
  assumes e: "apply_env_overrides env f = Inr e"
  shows "sv_port (cf_server e) = setting parse_int env ''PROXY_SERVER_PORT'' (sv_port (cf_server f))"
    and "sv_target_url (cf_server e) = setting Some env ''PROXY_SERVER_TARGET_URL'' (sv_target_url (cf_server f))"
    and "sv_strip_prefix (cf_server e) = setting Some env ''PROXY_SERVER_STRIP_PREFIX'' (sv_strip_prefix (cf_server f))"
    and "sv_shutdown_timeout_secs (cf_server e) = setting parse_int env ''PROXY_SERVER_SHUTDOWN_TIMEOUT_SECS'' (sv_shutdown_timeout_secs (cf_server f))"
    and "hc_path (sv_health_check (cf_server e)) = setting Some env ''PROXY_SERVER_HEALTH_CHECK_PATH'' (hc_path (sv_health_check (cf_server f)))"
proof -
  show "sv_port (cf_server e) = setting parse_int env ''PROXY_SERVER_PORT'' (sv_port (cf_server f))"
    by (rule parsed_decides[where i = 0 and get = "\<lambda>c. sv_port (cf_server c)"], (simp add: all_overrides_defs e)+)
  show "sv_target_url (cf_server e) = setting Some env ''PROXY_SERVER_TARGET_URL'' (sv_target_url (cf_server f))"
    by (rule string_decides[where i = 1 and get = "\<lambda>c. sv_target_url (cf_server c)"], (simp add: all_overrides_defs e)+)
  show "sv_strip_prefix (cf_server e) = setting Some env ''PROXY_SERVER_STRIP_PREFIX'' (sv_strip_prefix (cf_server f))"
    by (rule string_decides[where i = 2 and get = "\<lambda>c. sv_strip_prefix (cf_server c)"], (simp add: all_overrides_defs e)+)
  show "sv_shutdown_timeout_secs (cf_server e) = setting parse_int env ''PROXY_SERVER_SHUTDOWN_TIMEOUT_SECS'' (sv_shutdown_timeout_secs (cf_server f))"
    by (rule parsed_decides[where i = 5 and get = "\<lambda>c. sv_shutdown_timeout_secs (cf_server c)"], (simp add: all_overrides_defs e)+)
  show "hc_path (sv_health_check (cf_server e)) = setting Some env ''PROXY_SERVER_HEALTH_CHECK_PATH'' (hc_path (sv_health_check (cf_server f)))"
    by (rule string_decides[where i = 6 and get = "\<lambda>c. hc_path (sv_health_check (cf_server c))"], (simp add: all_overrides_defs e)+)
qed

lemma security_settings:
  assumes e: "apply_env_overrides env f = Inr e"
  shows "ip_enabled (se_rate_limit (cf_security e)) = setting parse_bool env ''PROXY_SECURITY_RATE_LIMIT_ENABLED'' (ip_enabled (se_rate_limit (cf_security f)))"
    and "ip_requests_per_min (se_rate_limit (cf_security e)) = setting parse_int env ''PROXY_SECURITY_RATE_LIMIT_REQUESTS_PER_MIN'' (ip_requests_per_min (se_rate_limit (cf_security f)))"
    and "ak_enabled (se_apikey_rate_limit (cf_security e)) = setting parse_bool env ''PROXY_SECURITY_APIKEY_RATE_LIMIT_ENABLED'' (ak_enabled (se_apikey_rate_limit (cf_security f)))"
    and "ak_key_header (se_apikey_rate_limit (cf_security e)) = setting Some env ''PROXY_SECURITY_APIKEY_RATE_LIMIT_KEY_HEADER'' (ak_key_header (se_apikey_rate_limit (cf_security f)))"
    and "jl_requests_per_min (se_jwt_rate_limit (cf_security e)) = setting parse_int env ''PROXY_SECURITY_JWT_RATE_LIMIT_REQUESTS_PER_MIN'' (jl_requests_per_min (se_jwt_rate_limit (cf_security f)))"
    and "se_max_body_bytes (cf_security e) = setting parse_int env ''PROXY_SECURITY_MAX_BODY_BYTES'' (se_max_body_bytes (cf_security f))"
proof -
  show "ip_enabled (se_rate_limit (cf_security e)) = setting parse_bool env ''PROXY_SECURITY_RATE_LIMIT_ENABLED'' (ip_enabled (se_rate_limit (cf_security f)))"
    by (rule parsed_decides[where i = 8 and get = "\<lambda>c. ip_enabled (se_rate_limit (cf_security c))"], (simp add: all_overrides_defs e)+)
  show "ip_requests_per_min (se_rate_limit (cf_security e)) = setting parse_int env ''PROXY_SECURITY_RATE_LIMIT_REQUESTS_PER_MIN'' (ip_requests_per_min (se_rate_limit (cf_security f)))"
    by (rule parsed_decides[where i = 9 and get = "\<lambda>c. ip_requests_per_min (se_rate_limit (cf_security c))"], (simp add: all_overrides_defs e)+)
  show "ak_enabled (se_apikey_rate_limit (cf_security e)) = setting parse_bool env ''PROXY_SECURITY_APIKEY_RATE_LIMIT_ENABLED'' (ak_enabled (se_apikey_rate_limit (cf_security f)))"
    by (rule parsed_decides[where i = 14 and get = "\<lambda>c. ak_enabled (se_apikey_rate_limit (cf_security c))"], (simp add: all_overrides_defs e)+)
  show "ak_key_header (se_apikey_rate_limit (cf_security e)) = setting Some env ''PROXY_SECURITY_APIKEY_RATE_LIMIT_KEY_HEADER'' (ak_key_header (se_apikey_rate_limit (cf_security f)))"
    by (rule string_decides[where i = 18 and get = "\<lambda>c. ak_key_header (se_apikey_rate_limit (cf_security c))"], (simp add: all_overrides_defs e)+)
  show "jl_requests_per_min (se_jwt_rate_limit (cf_security e)) = setting parse_int env ''PROXY_SECURITY_JWT_RATE_LIMIT_REQUESTS_PER_MIN'' (jl_requests_per_min (se_jwt_rate_limit (cf_security f)))"
    by (rule parsed_decides[where i = 22 and get = "\<lambda>c. jl_requests_per_min (se_jwt_rate_limit (cf_security c))"], (simp add: all_overrides_defs e)+)
  show "se_max_body_bytes (cf_security e) = setting parse_int env ''PROXY_SECURITY_MAX_BODY_BYTES'' (se_max_body_bytes (cf_security f))"
    by (rule parsed_decides[where i = 27 and get = "\<lambda>c. se_max_body_bytes (cf_security c)"], (simp add: all_overrides_defs e)+)
qed

lemma other_settings:
  assumes e: "apply_env_overrides env f = Inr e"
  shows "au_header_prefix (cf_auth e) = setting Some env ''PROXY_AUTH_HEADER_PREFIX'' (au_header_prefix (cf_auth f))"
    and "jc_enabled (au_jwt (cf_auth e)) = setting parse_bool env ''PROXY_AUTH_JWT_ENABLED'' (jc_enabled (au_jwt (cf_auth f)))"
    and "jc_tolerance_secs (au_jwt (cf_auth e)) = setting parse_int env ''PROXY_AUTH_JWT_TOLERANCE_SECS'' (jc_tolerance_secs (au_jwt (cf_auth f)))"
    and "kc_enabled (au_api_key (cf_auth e)) = setting parse_bool env ''PROXY_AUTH_API_KEY_ENABLED'' (kc_enabled (au_api_key (cf_auth f)))"
    and "kc_name (au_api_key (cf_auth e)) = setting Some env ''PROXY_AUTH_API_KEY_NAME'' (kc_name (au_api_key (cf_auth f)))"
    and "st_enabled (cf_storage e) = setting parse_bool env ''PROXY_STORAGE_ENABLED'' (st_enabled (cf_storage f))"
    and "ad_enabled (cf_admin e) = setting parse_bool env ''PROXY_ADMIN_ENABLED'' (ad_enabled (cf_admin f))"
    and "jc_issuer (ad_jwt (cf_admin e)) = setting Some env ''PROXY_ADMIN_JWT_ISSUER'' (jc_issuer (ad_jwt (cf_admin f)))"
proof -
  show "au_header_prefix (cf_auth e) = setting Some env ''PROXY_AUTH_HEADER_PREFIX'' (au_header_prefix (cf_auth f))"
    by (rule string_decides[where i = 28 and get = "\<lambda>c. au_header_prefix (cf_auth c)"], (simp add: all_overrides_defs e)+)
  show "jc_enabled (au_jwt (cf_auth e)) = setting parse_bool env ''PROXY_AUTH_JWT_ENABLED'' (jc_enabled (au_jwt (cf_auth f)))"
    by (rule parsed_decides[where i = 29 and get = "\<lambda>c. jc_enabled (au_jwt (cf_auth c))"], (simp add: all_overrides_defs e)+)
  show "jc_tolerance_secs (au_jwt (cf_auth e)) = setting parse_int env ''PROXY_AUTH_JWT_TOLERANCE_SECS'' (jc_tolerance_secs (au_jwt (cf_auth f)))"
    by (rule parsed_decides[where i = 32 and get = "\<lambda>c. jc_tolerance_secs (au_jwt (cf_auth c))"], (simp add: all_overrides_defs e)+)
  show "kc_enabled (au_api_key (cf_auth e)) = setting parse_bool env ''PROXY_AUTH_API_KEY_ENABLED'' (kc_enabled (au_api_key (cf_auth f)))"
    by (rule parsed_decides[where i = 37 and get = "\<lambda>c. kc_enabled (au_api_key (cf_auth c))"], (simp add: all_overrides_defs e)+)
  show "kc_name (au_api_key (cf_auth e)) = setting Some env ''PROXY_AUTH_API_KEY_NAME'' (kc_name (au_api_key (cf_auth f)))"
    by (rule string_decides[where i = 38 and get = "\<lambda>c. kc_name (au_api_key (cf_auth c))"], (simp add: all_overrides_defs e)+)
  show "st_enabled (cf_storage e) = setting parse_bool env ''PROXY_STORAGE_ENABLED'' (st_enabled (cf_storage f))"
    by (rule parsed_decides[where i = 41 and get = "\<lambda>c. st_enabled (cf_storage c)"], (simp add: all_overrides_defs e)+)
  show "ad_enabled (cf_admin e) = setting parse_bool env ''PROXY_ADMIN_ENABLED'' (ad_enabled (cf_admin f))"
    by (rule parsed_decides[where i = 45 and get = "\<lambda>c. ad_enabled (cf_admin c)"], (simp add: all_overrides_defs e)+)
  show "jc_issuer (ad_jwt (cf_admin e)) = setting Some env ''PROXY_ADMIN_JWT_ISSUER'' (jc_issuer (ad_jwt (cf_admin f)))"
    by (rule string_decides[where i = 46 and get = "\<lambda>c. jc_issuer (ad_jwt (cf_admin c))"], (simp add: all_overrides_defs e)+)
qed

lemma set_defaults_keeps:
  "jc_enabled (au_jwt (cf_auth (set_defaults env reply c))) = jc_enabled (au_jwt (cf_auth c))"
  "kc_enabled (au_api_key (cf_auth (set_defaults env reply c))) = kc_enabled (au_api_key (cf_auth c))"
  "st_enabled (cf_storage (set_defaults env reply c)) = st_enabled (cf_storage c)"
  by (simp_all add: set_defaults_def resolve_gcp_project_id_def jwt_defaults_def Let_def)



section \<open>Placeholders\<close>

lemma substitute_Nil [simp]: "substitute_env_vars env [] = []"
  by (subst substitute_env_vars.simps) simp

lemma substitute_plain: "c \<noteq> CHR ''{'' \<Longrightarrow> substitute_env_vars env (c # r) = c # substitute_env_vars env r"
  by (subst substitute_env_vars.simps) (simp add: placeholder_def)

lemma substitute_prefix: "CHR ''{'' \<notin> set pre \<Longrightarrow> substitute_env_vars env (pre @ s) = pre @ substitute_env_vars env s"
  by (induction pre) (auto simp: substitute_plain)

definition env_name :: "string \<Rightarrow> bool" where
  "env_name n \<longleftrightarrow> n \<noteq> [] \<and> env_name_start (hd n) \<and> list_all env_name_byte n"

lemma placeholder_here:
  assumes "env_name n"
  shows "placeholder (''{{ENV.'' @ n @ ''}}'' @ post) = Some (n, post)"
proof -
  have brace: "\<not> env_name_byte CHR ''}''"
    by (simp add: env_name_byte_def is_upper_byte_def is_digit_byte_def)
  have "takeWhile env_name_byte (n @ ''}}'' @ post) = n"
    "dropWhile env_name_byte (n @ ''}}'' @ post) = ''}}'' @ post"
    using assms brace by (auto simp: env_name_def list_all_iff takeWhile_append dropWhile_append)
  then show ?thesis using assms by (simp add: placeholder_def Let_def env_name_def)
qed

text \<open>
  Substitution replaces exactly the placeholder: in text before which no brace occurs,
  a placeholder of a set variable becomes the variable's value, taken as it is (not
  scanned again), a placeholder of an unset variable stays, and the rest of the text is
  processed the same way.
\<close>

theorem substitute_placeholder:
  assumes "CHR ''{'' \<notin> set pre" and "env_name n"
  shows "substitute_env_vars env (pre @ ''{{ENV.'' @ n @ ''}}'' @ post)
       = pre @ (if getenv env n \<noteq> [] then getenv env n else ''{{ENV.'' @ n @ ''}}'')
         @ substitute_env_vars env post"
proof -
  have "substitute_env_vars env (''{{ENV.'' @ n @ ''}}'' @ post)
      = (if getenv env n \<noteq> [] then getenv env n else ''{{ENV.'' @ n @ ''}}'') @ substitute_env_vars env post"
    using placeholder_here[OF assms(2), of post]
    by (subst substitute_env_vars.simps) simp
  then show ?thesis by (simp add: substitute_prefix[OF assms(1)])
qed

theorem substitute_placeholder_witness:
  "substitute_env_vars [(''P'', ''x1'')] (''https://'' @ ''{{ENV.'' @ ''P'' @ ''}}'' @ ''/a'') = ''https://x1/a''"
  using substitute_placeholder[of "''https://''" "''P''" "[(''P'', ''x1'')]" "''/a''"]
  by (simp add: env_name_def env_name_start_def env_name_byte_def is_upper_byte_def getenv_def
      substitute_plain)

section \<open>Comma-separated lists\<close>

definition csv_item :: "string \<Rightarrow> bool" where
  "csv_item s \<longleftrightarrow> s \<noteq> [] \<and> CHR '','' \<notin> set s \<and> \<not> is_space_byte (hd s) \<and> \<not> is_space_byte (last s)"

lemma trim_space_item: "csv_item s \<Longrightarrow> trim_space s = s"
proof -
  assume "csv_item s"
  then have "dropWhile is_space_byte s = s" and "dropWhile is_space_byte (rev s) = rev s"
    by (auto simp: csv_item_def dropWhile_eq_self_iff hd_rev)
  then show ?thesis by (simp add: trim_space_def)
qed

text \<open>
  Round trip of a comma-separated list: joining items that are not empty, contain no
  comma and neither start nor end with white space, and splitting the result, gives the
  items back.
\<close>

theorem split_csv_join:
  assumes "list_all csv_item items"
  shows "split_csv (join '','' items) = items"
  using assms
proof (induction items)
  case Nil
  then show ?case by (simp add: split_csv_def trim_space_def)
next
  case (Cons x xs)
  then have x: "csv_item x" "CHR '','' \<notin> set x" "x \<noteq> []" by (auto simp: csv_item_def)
  show ?case
  proof (cases xs)
    case Nil
    then show ?thesis using x by (simp add: split_csv_def split_on_single trim_space_item)
  next
    case (Cons y ys)
    then have "split_csv (join '','' (x # xs)) = x # split_csv (join '','' xs)"
      using x by (simp add: split_csv_def split_on_append trim_space_item)
    then show ?thesis using Cons.IH Cons.prems by simp
  qed
qed

theorem split_csv_join_witness: "split_csv (join '','' [''/a'', ''/b c'']) = [''/a'', ''/b c'']"
  by (rule split_csv_join) (simp add: csv_item_def is_space_byte_def)

end
