(* ===== verification/Go_Path.thy ===== *)
theory Go_Path
  imports Go_Strings
begin

text \<open>
  Go's \<open>path.Match\<close> and \<open>path.Clean\<close> on byte strings, with the rune decoding of
  \<open>unicode/utf8\<close> that \<open>?\<close> and \<open>[...]\<close> use.

  \<open>parse_glob\<close> reads a pattern into tokens, \<open>None\<close> being \<open>ErrBadPattern\<close>; \<open>glob_chunks\<close>
  groups them as \<open>scanChunk\<close> does, a chunk being preceded by a star or not, and
  \<open>match_chunks\<close> runs Go's search: each chunk is placed at its leftmost position, with no
  backtracking into earlier chunks, and a star never skips a slash. A class may match a
  slash, \<open>?\<close> may not.
\<close>

section \<open>Runes\<close>

definition cont_byte :: "nat \<Rightarrow> bool" where
  "cont_byte b \<longleftrightarrow> 128 \<le> b \<and> b \<le> 191"

text \<open>Length of the encoding a first byte announces, with the range of the second byte.\<close>

definition rune_shape :: "nat \<Rightarrow> (nat \<times> nat \<times> nat) option" where
  "rune_shape b =
     (if 194 \<le> b \<and> b \<le> 223 then Some (2, 128, 191)
      else if b = 224 then Some (3, 160, 191)
      else if b = 237 then Some (3, 128, 159)
      else if 225 \<le> b \<and> b \<le> 239 then Some (3, 128, 191)
      else if b = 240 then Some (4, 144, 191)
      else if 241 \<le> b \<and> b \<le> 243 then Some (4, 128, 191)
      else if b = 244 then Some (4, 128, 143)
      else None)"

definition rune_error :: nat where "rune_error = 65533"

definition decode_rune :: "string \<Rightarrow> nat \<times> nat" where
  "decode_rune s =
     (let bs = map of_char s in
      case bs of
        [] \<Rightarrow> (rune_error, 0)
      | b0 # r \<Rightarrow>
          if b0 < 128 then (b0, 1)
          else case rune_shape b0 of
            None \<Rightarrow> (rune_error, 1)
          | Some (n, lo, hi) \<Rightarrow>
              if length bs < n \<or> bs ! 1 < lo \<or> hi < bs ! 1 then (rune_error, 1)
              else if n = 2 then ((b0 mod 32) * 64 + bs ! 1 mod 64, 2)
              else if \<not> cont_byte (bs ! 2) then (rune_error, 1)
              else if n = 3 then ((b0 mod 16) * 4096 + (bs ! 1 mod 64) * 64 + bs ! 2 mod 64, 3)
              else if \<not> cont_byte (bs ! 3) then (rune_error, 1)
              else ((b0 mod 8) * 262144 + (bs ! 1 mod 64) * 4096 + (bs ! 2 mod 64) * 64
                    + bs ! 3 mod 64, 4))"

lemma decode_rune_ascii: "(of_char c :: nat) < 128 \<Longrightarrow> decode_rune (c # s) = (of_char c, 1)"
  by (simp add: decode_rune_def)

lemma decode_rune_width: "s \<noteq> [] \<Longrightarrow> 0 < snd (decode_rune s)"
  by (cases s) (auto simp: decode_rune_def Let_def split: option.splits)

section \<open>Patterns\<close>

datatype glob =
    Star
  | AnyRune
  | Lit char
  | Class bool "(nat \<times> nat) list" \<comment> \<open>negated or not, and the ranges\<close>

definition backslash :: char where "backslash = CHR 0x5C"

definition get_esc :: "string \<Rightarrow> (nat \<times> string) option" where
  "get_esc s =
     (if s = [] \<or> hd s = CHR ''-'' \<or> hd s = CHR '']'' then None
      else let body = (if hd s = backslash then tl s else s)
           in if body = [] then None
              else let (r, n) = decode_rune body; t = drop n body
                   in if (r = rune_error \<and> n = 1) \<or> t = [] then None else Some (r, t))"

lemma get_esc_shorter: "get_esc s = Some (r, t) \<Longrightarrow> length t < length s"
  using decode_rune_width[of s] decode_rune_width[of "tl s"]
  by (cases s) (auto simp: get_esc_def Let_def split: if_splits prod.splits)

function parse_ranges :: "nat \<Rightarrow> string \<Rightarrow> ((nat \<times> nat) list \<times> string) option" where
  "parse_ranges n s =
     (if s \<noteq> [] \<and> hd s = CHR '']'' \<and> 0 < n then Some ([], tl s)
      else case get_esc s of
        None \<Rightarrow> None
      | Some (lo, t) \<Rightarrow>
          if hd t = CHR ''-'' then
            (case get_esc (tl t) of
               None \<Rightarrow> None
             | Some (hi, u) \<Rightarrow> map_option (apfst (Cons (lo, hi))) (parse_ranges (Suc n) u))
          else map_option (apfst (Cons (lo, lo))) (parse_ranges (Suc n) t))"
  by pat_completeness auto
termination
  by (relation "measure (\<lambda>(n, s). length s)") (auto dest!: get_esc_shorter)

declare parse_ranges.simps [simp del]

lemma parse_ranges_shorter: "parse_ranges n s = Some (rs, t) \<Longrightarrow> length t \<le> length s"
proof (induction n s arbitrary: rs rule: parse_ranges.induct)
  case (1 n s)
  show ?case
  proof (cases "s \<noteq> [] \<and> hd s = CHR '']'' \<and> 0 < n")
    case True
    then show ?thesis using "1.prems" by (auto simp: parse_ranges.simps[of n s])
  next
    case close: False
    then obtain lo u where esc: "get_esc s = Some (lo, u)"
      using "1.prems" by (cases "get_esc s") (auto simp: parse_ranges.simps[of n s])
    then have shorter: "length u < length s" by (rule get_esc_shorter)
    show ?thesis
    proof (cases "hd u = CHR ''-''")
      case True
      then obtain hi v qs where "get_esc (tl u) = Some (hi, v)"
        and "parse_ranges (Suc n) v = Some (qs, t)"
        using "1.prems" esc close
        by (cases "get_esc (tl u)") (auto simp: parse_ranges.simps[of n s])
      then show ?thesis
        using "1.IH"(1)[OF close esc _ True _ _] get_esc_shorter[of "tl u" hi v] shorter by fastforce
    next
      case False
      then obtain qs where "parse_ranges (Suc n) u = Some (qs, t)"
        using "1.prems" esc close by (auto simp: parse_ranges.simps[of n s])
      then show ?thesis
        using "1.IH"(2)[OF close esc _ False] shorter by fastforce
    qed
  qed
qed

function parse_glob :: "string \<Rightarrow> glob list option" where
  "parse_glob s =
     (case s of
        [] \<Rightarrow> Some []
      | c # r \<Rightarrow>
          if c = CHR ''*'' then map_option (Cons Star) (parse_glob r)
          else if c = CHR ''?'' then map_option (Cons AnyRune) (parse_glob r)
          else if c = backslash then
            (case r of [] \<Rightarrow> None | d # q \<Rightarrow> map_option (Cons (Lit d)) (parse_glob q))
          else if c = CHR ''['' then
            (let neg = (r \<noteq> [] \<and> hd r = CHR ''^''); body = (if neg then tl r else r)
             in case parse_ranges 0 body of
                  None \<Rightarrow> None
                | Some (rs, q) \<Rightarrow> map_option (Cons (Class neg rs)) (parse_glob q))
          else map_option (Cons (Lit c)) (parse_glob r))"
  by pat_completeness auto
termination
  by (relation "measure length") (auto dest!: parse_ranges_shorter split: if_splits)

declare parse_glob.simps [simp del]

lemma parse_glob_Nil [simp]: "parse_glob [] = Some []"
  by (subst parse_glob.simps) simp

lemma parse_glob_plain:
  "c \<notin> {CHR ''*'', CHR ''?'', backslash, CHR ''[''} \<Longrightarrow>
   parse_glob (c # r) = map_option (Cons (Lit c)) (parse_glob r)"
  by (subst parse_glob.simps) auto

section \<open>Matching\<close>

definition in_class :: "bool \<Rightarrow> (nat \<times> nat) list \<Rightarrow> nat \<Rightarrow> bool" where
  "in_class neg rs r \<longleftrightarrow> list_ex (\<lambda>(lo, hi). lo \<le> r \<and> r \<le> hi) rs \<noteq> neg"

fun match_chunk :: "glob list \<Rightarrow> string \<Rightarrow> string option" where
  "match_chunk [] s = Some s"
| "match_chunk (p # ps) [] = None"
| "match_chunk (Lit c # ps) (d # s) = (if c = d then match_chunk ps s else None)"
| "match_chunk (AnyRune # ps) (d # s) =
     (if d = CHR ''/'' then None else match_chunk ps (drop (snd (decode_rune (d # s))) (d # s)))"
| "match_chunk (Class neg rs # ps) (d # s) =
     (if in_class neg rs (fst (decode_rune (d # s)))
      then match_chunk ps (drop (snd (decode_rune (d # s))) (d # s)) else None)"
| "match_chunk (Star # ps) (d # s) = None"

function glob_chunks :: "glob list \<Rightarrow> (bool \<times> glob list) list" where
  "glob_chunks ts =
     (if ts = [] then []
      else let rest = dropWhile (\<lambda>t. t = Star) ts
           in (hd ts = Star, takeWhile (\<lambda>t. t \<noteq> Star) rest)
              # glob_chunks (dropWhile (\<lambda>t. t \<noteq> Star) rest))"
  by pat_completeness auto
termination
proof (relation "measure length")
  fix ts rest assume "ts \<noteq> []" and rest: "rest = dropWhile (\<lambda>t. t = Star) (ts :: glob list)"
  then obtain t us where ts: "ts = t # us" by (cases ts) auto
  have "length (dropWhile (\<lambda>t. t \<noteq> Star) rest) \<le> length us"
  proof (cases "t = Star")
    case True
    then have "length rest \<le> length us" using ts rest by (simp add: length_dropWhile_le)
    then show ?thesis using length_dropWhile_le le_trans by blast
  next
    case False
    then have "rest = t # us" using ts rest by simp
    then show ?thesis using False by (simp add: length_dropWhile_le)
  qed
  then show "(dropWhile (\<lambda>t. t \<noteq> Star) rest, ts) \<in> measure length" using ts by simp
qed simp

declare glob_chunks.simps [simp del]

fun star_scan :: "glob list \<Rightarrow> bool \<Rightarrow> string \<Rightarrow> string option" where
  "star_scan ps final [] = None"
| "star_scan ps final (c # s) =
     (if c = CHR ''/'' then None
      else case match_chunk ps s of
        Some t \<Rightarrow> if final \<and> t \<noteq> [] then star_scan ps final s else Some t
      | None \<Rightarrow> star_scan ps final s)"

fun match_chunks :: "(bool \<times> glob list) list \<Rightarrow> string \<Rightarrow> bool" where
  "match_chunks [] s = (s = [])"
| "match_chunks ((star, ps) # cs) s =
     (if star \<and> ps = [] then CHR ''/'' \<notin> set s
      else case (case match_chunk ps s of
                   Some t \<Rightarrow> if t = [] \<or> cs \<noteq> [] then Some t
                             else if star then star_scan ps (cs = []) s else None
                 | None \<Rightarrow> if star then star_scan ps (cs = []) s else None) of
             Some t \<Rightarrow> match_chunks cs t
           | None \<Rightarrow> False)"

text \<open>\<open>path.Match\<close> with its error; the callers treat an error as no match.\<close>

definition path_match_result :: "string \<Rightarrow> string \<Rightarrow> bool option" where
  "path_match_result pattern name =
     map_option (\<lambda>ts. match_chunks (glob_chunks ts) name) (parse_glob pattern)"

definition path_match :: "string \<Rightarrow> string \<Rightarrow> bool" where
  "path_match pattern name = (path_match_result pattern name = Some True)"

definition plain_pattern :: "string \<Rightarrow> bool" where
  "plain_pattern p \<longleftrightarrow> set p \<inter> {CHR ''*'', CHR ''?'', backslash, CHR ''[''} = {}"

lemma parse_glob_literal: "plain_pattern p \<Longrightarrow> parse_glob p = Some (map Lit p)"
  by (induction p) (auto simp: plain_pattern_def parse_glob_plain)

lemma match_chunk_literal: "match_chunk (map Lit p) s = (if has_prefix s p then Some (drop (length p) s) else None)"
  by (induction p arbitrary: s) (case_tac s; auto)+

lemma no_star_in_literal: "dropWhile (\<lambda>t. t = Star) (map Lit p) = map Lit p"
  "takeWhile (\<lambda>t. t \<noteq> Star) (map Lit p) = map Lit p"
  "dropWhile (\<lambda>t. t \<noteq> Star) (map Lit p) = []"
  by (induction p) simp_all

text \<open>A pattern without special characters matches exactly itself.\<close>

lemma path_match_literal: "plain_pattern p \<Longrightarrow> path_match p name \<longleftrightarrow> name = p"
proof -
  assume plain: "plain_pattern p"
  have chunks: "glob_chunks (map Lit p) = (if p = [] then [] else [(False, map Lit p)])"
    by (subst glob_chunks.simps) (auto simp: no_star_in_literal glob_chunks.simps[of "[]"] hd_map)
  have "match_chunks (glob_chunks (map Lit p)) name \<longleftrightarrow> name = p"
    by (auto simp: chunks match_chunk_literal has_prefix_iff split: if_splits)
  then show ?thesis
    by (simp add: path_match_def path_match_result_def parse_glob_literal[OF plain])
qed

section \<open>path.Clean on the paths of an HTTP request\<close>

text \<open>
  \<open>http.ServeMux\<close> answers a request whose path is not clean with a redirect, before any
  handler runs. \<open>clean_path\<close> is the mux's function: a leading slash is added, empty
  segments and \<open>.\<close> are dropped, \<open>..\<close> drops the segment before it, and a trailing slash
  is kept.
\<close>

fun clean_segments :: "string list \<Rightarrow> string list \<Rightarrow> string list" where
  "clean_segments acc [] = rev acc"
| "clean_segments acc (p # ps) =
     (if p = [] \<or> p = ''.'' then clean_segments acc ps
      else if p = ''..'' then clean_segments (drop 1 acc) ps
      else clean_segments (p # acc) ps)"

definition clean_path :: "string \<Rightarrow> string" where
  "clean_path p =
     (if p = [] then ''/''
      else let segs = clean_segments [] (split_on CHR ''/'' p);
               np = CHR ''/'' # join ''/'' segs
           in if last p = CHR ''/'' \<and> np \<noteq> ''/'' then np @ ''/'' else np)"

lemma clean_segments_ok:
  "s \<in> set (clean_segments acc ps) \<Longrightarrow>
   s \<in> set acc \<or> (s \<in> set ps \<and> s \<noteq> [] \<and> s \<noteq> ''.'' \<and> s \<noteq> ''..'')"
proof (induction ps arbitrary: acc)
  case Nil
  then show ?case by simp
next
  case (Cons p ps)
  from Cons.prems show ?case
    by (auto split: if_splits dest!: Cons.IH dest: in_set_dropD)
qed

end
