(* ===== verification/Rules.thy ===== *)
theory Rules
  imports Go_Path
begin

text \<open>
  Dynamic rules, \<open>internal/store/types.go\<close> and \<open>internal/store/rules.go\<close>: the rule record,
  the in-memory rule store and its two background goroutines.

  The store's mutex makes each method one step on the record \<open>mem_store\<close>. \<open>time.Now()\<close> is
  the argument \<open>now\<close>. A loop that ranges over the map and whose result depends on the
  order has the order as the argument \<open>ks\<close>. The atomic counter of a rule is an unbounded
  integer: it counts requests.
\<close>

section \<open>Rules\<close>

record rule =
  r_id :: string
  r_target_host :: string
  r_action :: string
  r_max_rpm :: int
  r_path_pattern :: "string option"
  r_rate_by_key :: bool
  r_limiter :: string
  r_throttle_delay_ms :: int
  r_max_delay_slots :: int
  r_duration_seconds :: int
  r_expires_at :: time
  r_current_rpm :: int

record rule_status =
  rst_id :: string
  rst_target_host :: string
  rst_action :: string
  rst_max_rpm :: int
  rst_current_rpm :: int
  rst_status :: string
  rst_expires_at :: time \<comment> \<open>rendered as RFC 3339 in UTC in the JSON\<close>

definition current_rpm_value :: "rule \<Rightarrow> int" where
  "current_rpm_value r = r_current_rpm r"

definition increment_rpm :: "rule \<Rightarrow> int \<times> rule" where
  "increment_rpm r = (r_current_rpm r + 1, r\<lparr>r_current_rpm := r_current_rpm r + 1\<rparr>)"

definition reset_rpm :: "rule \<Rightarrow> rule" where
  "reset_rpm r = r\<lparr>r_current_rpm := 0\<rparr>"

definition contains_glob_chars :: "string \<Rightarrow> bool" where
  "contains_glob_chars s = contains_any s ''*?[''"

definition match_rule_path :: "string \<Rightarrow> string \<Rightarrow> bool" where
  "match_rule_path pattern req_path =
     (if pattern = [] then True
      else if contains_glob_chars pattern then path_match pattern req_path
      else has_prefix req_path pattern)"

section \<open>The in-memory store\<close>

type_synonym rules = "string \<rightharpoonup> rule"

record mem_store =
  ms_rules :: rules
  ms_stopped :: bool
  ms_cleaning :: bool \<comment> \<open>the cleanup goroutine runs\<close>
  ms_resetting :: bool \<comment> \<open>the counter reset goroutine runs\<close>

definition new_memory_rule_store :: mem_store where
  "new_memory_rule_store = \<lparr>ms_rules = Map.empty, ms_stopped = False, ms_cleaning = True, ms_resetting = True\<rparr>"

text \<open>The rule as \<open>SetRule\<close> stores it: expiry computed unless given, counter reset.\<close>

definition stored_rule :: "time \<Rightarrow> rule \<Rightarrow> rule" where
  "stored_rule now r =
     reset_rpm (if is_zero_time (r_expires_at r)
                then r\<lparr>r_expires_at := time_add now (mul64 (r_duration_seconds r) second)\<rparr> else r)"

definition set_rule :: "time \<Rightarrow> rule \<Rightarrow> mem_store \<Rightarrow> (string, rule \<times> mem_store) result" where
  "set_rule now r s =
     (if r_id r = [] then Inl ''ruleId is required''
      else let r' = stored_rule now r
           in Inr (r', s\<lparr>ms_rules := (ms_rules s)(r_id r' \<mapsto> r')\<rparr>))"

definition remove_rule :: "string \<Rightarrow> mem_store \<Rightarrow> bool \<times> mem_store" where
  "remove_rule rid s =
     (if ms_rules s rid = None then (False, s)
      else (True, s\<lparr>ms_rules := (ms_rules s)(rid := None)\<rparr>))"

definition remove_all :: "mem_store \<Rightarrow> nat \<times> mem_store" where
  "remove_all s = (card (dom (ms_rules s)), s\<lparr>ms_rules := Map.empty\<rparr>)"

definition rule_active :: "time \<Rightarrow> rule \<Rightarrow> bool" where
  "rule_active now r = time_after (r_expires_at r) now"

definition status_of :: "rule \<Rightarrow> rule_status" where
  "status_of r =
     \<lparr>rst_id = r_id r, rst_target_host = r_target_host r, rst_action = r_action r,
      rst_max_rpm = r_max_rpm r, rst_current_rpm = current_rpm_value r,
      rst_status = ''active'', rst_expires_at = r_expires_at r\<rparr>"

fun status_loop :: "time \<Rightarrow> rules \<Rightarrow> string list \<Rightarrow> rule_status list" where
  "status_loop now rs [] = []"
| "status_loop now rs (k # ks) =
     (case rs k of
        None \<Rightarrow> status_loop now rs ks
      | Some r \<Rightarrow> if \<not> rule_active now r then status_loop now rs ks
                  else status_of r # status_loop now rs ks)"

definition get_rule_status :: "string list \<Rightarrow> time \<Rightarrow> mem_store \<Rightarrow> rule_status list" where
  "get_rule_status ks now s = status_loop now (ms_rules s) ks"

text \<open>A rule the loop of \<open>ShouldAllow\<close> does not skip.\<close>

definition rule_applies :: "time \<Rightarrow> string \<Rightarrow> string \<Rightarrow> rule \<Rightarrow> bool" where
  "rule_applies now host req_path r \<longleftrightarrow>
     rule_active now r \<and> r_target_host r = host
     \<and> (case r_path_pattern r of None \<Rightarrow> True | Some p \<Rightarrow> match_rule_path p req_path)"

fun should_allow_loop :: "string list \<Rightarrow> time \<Rightarrow> string \<Rightarrow> string \<Rightarrow> rules \<Rightarrow> bool \<times> rules" where
  "should_allow_loop [] now host req_path rs = (True, rs)"
| "should_allow_loop (k # ks) now host req_path rs =
     (case rs k of
        None \<Rightarrow> should_allow_loop ks now host req_path rs
      | Some r \<Rightarrow>
          if \<not> rule_applies now host req_path r then should_allow_loop ks now host req_path rs
          else if r_action r = ''block'' then (False, rs)
          else if r_action r = ''allow'' then (True, rs)
          else if r_action r = ''throttle'' then
            (case increment_rpm r of (n, r') \<Rightarrow> (n \<le> r_max_rpm r, rs(k \<mapsto> r')))
          else should_allow_loop ks now host req_path rs)"

definition should_allow :: "string list \<Rightarrow> time \<Rightarrow> string \<Rightarrow> string \<Rightarrow> mem_store \<Rightarrow> bool \<times> mem_store" where
  "should_allow ks now host req_path s =
     (case should_allow_loop ks now host req_path (ms_rules s) of
        (ok, rs) \<Rightarrow> (ok, s\<lparr>ms_rules := rs\<rparr>))"

definition stop :: "mem_store \<Rightarrow> mem_store" where
  "stop s = (if \<not> ms_stopped s then s\<lparr>ms_stopped := True\<rparr> else s)"

definition delete_expired :: "time \<Rightarrow> mem_store \<Rightarrow> mem_store" where
  "delete_expired now s = s\<lparr>ms_rules := keep_entries (\<lambda>_ r. rule_active now r) (ms_rules s)\<rparr>"

definition reset_all_rpm :: "mem_store \<Rightarrow> mem_store" where
  "reset_all_rpm s = s\<lparr>ms_rules := (\<lambda>k. map_option reset_rpm (ms_rules s k))\<rparr>"

text \<open>
  A turn of the two background loops: a tick of the loop's ticker is served, or the closed
  stop channel is read and the goroutine ends.
\<close>

definition mem_cleanup_turn :: "time option \<Rightarrow> mem_store \<Rightarrow> mem_store" where
  "mem_cleanup_turn tick s =
     (if \<not> ms_cleaning s then s
      else case tick of
        Some now \<Rightarrow> delete_expired now s
      | None \<Rightarrow> if ms_stopped s then s\<lparr>ms_cleaning := False\<rparr> else s)"

definition mem_reset_turn :: "bool \<Rightarrow> mem_store \<Rightarrow> mem_store" where
  "mem_reset_turn tick s =
     (if \<not> ms_resetting s then s
      else if tick then reset_all_rpm s
      else if ms_stopped s then s\<lparr>ms_resetting := False\<rparr> else s)"

section \<open>The interface of a rule store\<close>

text \<open>
  \<open>store.RuleStore\<close>: what the admin handlers, the startup loader and the request pipeline
  call, and what they rely on. \<open>rules_of\<close> is the rule map a request is decided by.
\<close>

locale rule_store =
  fixes set :: "time \<Rightarrow> rule \<Rightarrow> 's \<Rightarrow> (string, rule \<times> 's) result"
    and remove :: "string \<Rightarrow> 's \<Rightarrow> bool \<times> 's"
    and clear :: "'s \<Rightarrow> nat \<times> 's"
    and decide :: "string list \<Rightarrow> time \<Rightarrow> string \<Rightarrow> string \<Rightarrow> 's \<Rightarrow> bool \<times> 's"
    and rules_of :: "'s \<Rightarrow> rules"
  assumes set_error: "r_id r = [] \<Longrightarrow> set now r s = Inl ''ruleId is required''"
    and set_stores: "r_id r \<noteq> [] \<Longrightarrow>
      \<exists>s'. set now r s = Inr (stored_rule now r, s') \<and> rules_of s' = (rules_of s)(r_id r \<mapsto> stored_rule now r)"
    and remove_found: "fst (remove rid s) \<longleftrightarrow> rules_of s rid \<noteq> None"
    and remove_rules: "rules_of (snd (remove rid s)) = (rules_of s)(rid := None)"
    and clear_count: "fst (clear s) = card (dom (rules_of s))"
    and clear_rules: "rules_of (snd (clear s)) = Map.empty"
    and decide_loop: "should_allow_loop ks now host path (rules_of s)
      = (fst (decide ks now host path s), rules_of (snd (decide ks now host path s)))"
begin

lemma set_lookup:
  assumes "set now r s = Inr (r', s')"
  shows "r' = stored_rule now r" and "rules_of s' (r_id r) = Some r'"
    and "k \<noteq> r_id r \<Longrightarrow> rules_of s' k = rules_of s k"
proof -
  have "r_id r \<noteq> []" using assms set_error[of r now s] by auto
  from set_stores[OF this, of now s] assms
  have "r' = stored_rule now r" and "rules_of s' = (rules_of s)(r_id r \<mapsto> stored_rule now r)" by auto
  then show "r' = stored_rule now r" and "rules_of s' (r_id r) = Some r'"
    and "k \<noteq> r_id r \<Longrightarrow> rules_of s' k = rules_of s k" by auto
qed

lemma remove_lookup: "rules_of (snd (remove rid s)) rid = None"
  by (simp add: remove_rules)

lemma clear_allows: "fst (decide ks now host path (snd (clear s)))"
proof -
  have "should_allow_loop ks now host path Map.empty = (True, Map.empty)"
    by (induction ks) auto
  then show ?thesis using decide_loop[of ks now host path "snd (clear s)"] by (simp add: clear_rules)
qed

end

lemma stored_rule_id [simp]: "r_id (stored_rule now r) = r_id r"
  by (simp add: stored_rule_def reset_rpm_def)

interpretation mem: rule_store set_rule remove_rule remove_all should_allow ms_rules
  by unfold_locales
     (auto simp: set_rule_def remove_rule_def remove_all_def should_allow_def Let_def
       split: prod.splits)

end
