(* ===== verification/Rules_Claims.thy ===== *)
theory Rules_Claims
  imports Rules
begin

text \<open>
  What the dynamic rules guarantee: the decision when one rule applies, the bound of a
  throttle rule, the lifetime of a rule, what cleanup may and may not change, and where
  the decision depends on the iteration order of the map.
\<close>

section \<open>The decision loop\<close>

definition decisive :: "time \<Rightarrow> string \<Rightarrow> string \<Rightarrow> rule \<Rightarrow> bool" where
  "decisive now host path r \<longleftrightarrow>
     rule_applies now host path r \<and> r_action r \<in> {''block'', ''allow'', ''throttle''}"

definition decisive_keys :: "time \<Rightarrow> string \<Rightarrow> string \<Rightarrow> rules \<Rightarrow> string set" where
  "decisive_keys now host path rs = {k. \<exists>r. rs k = Some r \<and> decisive now host path r}"

text \<open>What one decisive rule does on its own.\<close>

definition rule_decision :: "string \<Rightarrow> rule \<Rightarrow> rules \<Rightarrow> bool \<times> rules" where
  "rule_decision k r rs =
     (if r_action r = ''block'' then (False, rs)
      else if r_action r = ''allow'' then (True, rs)
      else (r_current_rpm r + 1 \<le> r_max_rpm r, rs(k \<mapsto> r\<lparr>r_current_rpm := r_current_rpm r + 1\<rparr>)))"

lemma loop_skip:
  "\<forall>r. rs k = Some r \<longrightarrow> \<not> decisive now host path r \<Longrightarrow>
   should_allow_loop (k # ks) now host path rs = should_allow_loop ks now host path rs"
  by (auto simp: decisive_def split: option.splits)

lemma loop_decide:
  "rs k = Some r \<Longrightarrow> decisive now host path r \<Longrightarrow>
   should_allow_loop (k # ks) now host path rs = rule_decision k r rs"
  by (auto simp: decisive_def rule_decision_def increment_rpm_def)

lemma loop_none:
  "set ks \<inter> decisive_keys now host path rs = {} \<Longrightarrow> should_allow_loop ks now host path rs = (True, rs)"
proof (induction ks)
  case Nil
  then show ?case by simp
next
  case (Cons k ks)
  then have "\<forall>r. rs k = Some r \<longrightarrow> \<not> decisive now host path r" by (auto simp: decisive_keys_def)
  then have "should_allow_loop (k # ks) now host path rs = should_allow_loop ks now host path rs"
    by (rule loop_skip)
  then show ?case using Cons by simp
qed

lemma loop_first:
  assumes "k \<in> set ks" and "rs k = Some r" and "decisive now host path r"
    and "set ks \<inter> decisive_keys now host path rs \<subseteq> {k}"
  shows "should_allow_loop ks now host path rs = rule_decision k r rs"
  using assms
proof (induction ks)
  case Nil
  then show ?case by simp
next
  case (Cons j ks)
  show ?case
  proof (cases "j = k")
    case True
    then show ?thesis using loop_decide Cons.prems(2,3) by simp
  next
    case False
    then have "\<forall>r. rs j = Some r \<longrightarrow> \<not> decisive now host path r"
      using Cons.prems(4) by (auto simp: decisive_keys_def)
    then have "should_allow_loop (j # ks) now host path rs = should_allow_loop ks now host path rs"
      by (rule loop_skip)
    then show ?thesis using Cons False by auto
  qed
qed

lemma decision_keeps_keys:
  "rs k = Some r \<Longrightarrow> decisive_keys now host path (snd (rule_decision k r rs)) = decisive_keys now host path rs"
  by (auto simp: rule_decision_def decisive_keys_def decisive_def rule_applies_def rule_active_def
      split: option.splits if_splits)

text \<open>
  C17. When no rule applies the request passes and nothing changes; when exactly one rule
  applies, the answer and the new state are that rule's, in whatever order the runtime
  visits the map: a block rejects, an allow passes, a throttle counts the request and
  passes it while the count is within \<open>maxRPM\<close>.
\<close>

theorem single_rule_decides:
  assumes "range_order ks rs"
  shows "(decisive_keys now host path rs = {} \<longrightarrow> should_allow_loop ks now host path rs = (True, rs))
       \<and> (decisive_keys now host path rs = {k} \<longrightarrow>
            should_allow_loop ks now host path rs = rule_decision k (the (rs k)) rs)"
proof (intro conjI impI)
  assume "decisive_keys now host path rs = {}"
  then show "should_allow_loop ks now host path rs = (True, rs)" using loop_none by blast
next
  assume one: "decisive_keys now host path rs = {k}"
  then have "k \<in> decisive_keys now host path rs" by simp
  then obtain r where r: "rs k = Some r" "decisive now host path r"
    unfolding decisive_keys_def by blast
  then have "k \<in> set ks" using assms by (auto simp: range_order_def)
  from loop_first[of k ks rs r now host path, OF this r] one r
  show "should_allow_loop ks now host path rs = rule_decision k (the (rs k)) rs" by simp
qed

definition demo_rule :: "string \<Rightarrow> string \<Rightarrow> rule" where
  "demo_rule k action = \<lparr>r_id = k, r_target_host = ''h'', r_action = action, r_max_rpm = 2,
     r_path_pattern = None, r_rate_by_key = False, r_limiter = [], r_throttle_delay_ms = 0,
     r_max_delay_slots = 0, r_duration_seconds = 60, r_expires_at = 100, r_current_rpm = 0\<rparr>"

lemma demo_decisive:
  "now < 100 \<Longrightarrow> action \<in> {''block'', ''allow'', ''throttle''} \<Longrightarrow>
   decisive_keys now ''h'' path [k \<mapsto> demo_rule k action] = {k}"
  by (auto simp: decisive_keys_def decisive_def rule_applies_def rule_active_def demo_rule_def go_time)

theorem single_rule_decides_witness:
  "should_allow_loop [''a''] 5 ''h'' ''/'' [''a'' \<mapsto> demo_rule ''a'' ''block''] = (False, [''a'' \<mapsto> demo_rule ''a'' ''block''])"
proof -
  have "range_order [''a''] [''a'' \<mapsto> demo_rule ''a'' ''block'']" by (simp add: range_order_def)
  from single_rule_decides[OF this, of 5 "''h''" "''/''" "''a''"] demo_decisive[of 5 "''block''"]
  show ?thesis by (simp add: rule_decision_def demo_rule_def)
qed

text \<open>
  With two rules that disagree, the answer depends on the order in which the runtime
  happens to visit the map: there is a rule map with two iteration orders of which one
  rejects a request and the other lets it pass.
\<close>

theorem rule_order_is_unspecified:
  "\<exists>rs ks ks' now host path. range_order ks rs \<and> range_order ks' rs
     \<and> fst (should_allow_loop ks now host path rs) \<and> \<not> fst (should_allow_loop ks' now host path rs)"
proof (intro exI conjI)
  let ?rs = "[''a'' \<mapsto> demo_rule ''a'' ''allow'', ''b'' \<mapsto> demo_rule ''b'' ''block'']"
  show "range_order [''a'', ''b''] ?rs" and "range_order [''b'', ''a''] ?rs"
    by (auto simp: range_order_def)
  show "fst (should_allow_loop [''a'', ''b''] 5 ''h'' ''/'' ?rs)"
    and "\<not> fst (should_allow_loop [''b'', ''a''] 5 ''h'' ''/'' ?rs)"
    by (simp_all add: demo_rule_def rule_applies_def rule_active_def go_time)
qed

section \<open>The bound of a throttle rule\<close>

text \<open>A run of requests: the order of the map, the clock, the host and the path of each.\<close>

fun run_requests :: "(string list \<times> time \<times> string \<times> string) list \<Rightarrow> rules \<Rightarrow> bool list" where
  "run_requests [] rs = []"
| "run_requests ((ks, now, host, path) # reqs) rs =
     (case should_allow_loop ks now host path rs of (ok, rs') \<Rightarrow> ok # run_requests reqs rs')"

definition only_rule :: "string \<Rightarrow> rules \<Rightarrow> string list \<times> time \<times> string \<times> string \<Rightarrow> bool" where
  "only_rule k rs = (\<lambda>(ks, now, host, path). k \<in> set ks \<and> decisive_keys now host path rs = {k})"

text \<open>
  The same over the rule map alone: of the requests in a run for which a throttle rule
  is the only rule that applies, with no counter reset in between, exactly the first
  \<open>maxRPM - currentRPM\<close> pass, whoever sends them.
\<close>

theorem throttle_rule_bound:
  assumes "rs k = Some r" and "r_action r = ''throttle''"
    and "list_all (only_rule k rs) reqs"
  shows "run_requests reqs rs
    = map (\<lambda>i. r_current_rpm r + int i < r_max_rpm r) [0..<length reqs]"
  using assms
proof (induction reqs arbitrary: rs r)
  case Nil
  then show ?case by simp
next
  case (Cons req reqs)
  obtain ks now host path where req: "req = (ks, now, host, path)" by (cases req)
  let ?r' = "r\<lparr>r_current_rpm := r_current_rpm r + 1\<rparr>"
  have in_ks: "k \<in> set ks" and keys: "decisive_keys now host path rs = {k}"
    using Cons.prems(3) by (auto simp: req only_rule_def)
  have "k \<in> decisive_keys now host path rs" using keys by simp
  then have dec: "decisive now host path r" using Cons.prems(1) by (simp add: decisive_keys_def)
  have step: "should_allow_loop ks now host path rs = (r_current_rpm r + 1 \<le> r_max_rpm r, rs(k \<mapsto> ?r'))"
    using loop_first[of k ks rs r now host path, OF in_ks Cons.prems(1) dec] keys Cons.prems(2) by (simp add: rule_decision_def)
  have same: "decisive_keys now' host' path' (rs(k \<mapsto> ?r')) = decisive_keys now' host' path' rs" for now' host' path'
    using decision_keeps_keys[of rs k r now' host' path', OF Cons.prems(1)] Cons.prems(2) by (simp add: rule_decision_def)
  have "list_all (only_rule k (rs(k \<mapsto> ?r'))) reqs"
    using Cons.prems(3) by (auto simp: list_all_iff only_rule_def same split: prod.splits)
  with Cons.IH[of "rs(k \<mapsto> ?r')" ?r'] Cons.prems(2)
  have rest: "run_requests reqs (rs(k \<mapsto> ?r')) = map (\<lambda>i. r_current_rpm r + 1 + int i < r_max_rpm r) [0..<length reqs]"
    by (simp add: fun_upd_same del: fun_upd_apply)
  have upt: "[0..<length (req # reqs)] = 0 # map Suc [0..<length reqs]"
    by (simp add: upt_conv_Cons map_Suc_upt del: upt_Suc)
  have first: "(r_current_rpm r + 1 \<le> r_max_rpm r) = (r_current_rpm r < r_max_rpm r)" by linarith
  have shift: "map (\<lambda>i. r_current_rpm r + int i < r_max_rpm r) (map Suc [0..<length reqs])
      = map (\<lambda>i. r_current_rpm r + 1 + int i < r_max_rpm r) [0..<length reqs]"
    by (simp add: algebra_simps)
  have "run_requests (req # reqs) rs
      = (r_current_rpm r < r_max_rpm r) # run_requests reqs (rs(k \<mapsto> ?r'))"
    by (simp add: req step first)
  then show ?case by (simp only: upt list.map shift rest) simp
qed

theorem throttle_rule_bound_witness:
  "run_requests (replicate 3 ([''a''], 5, ''h'', ''/'')) [''a'' \<mapsto> demo_rule ''a'' ''throttle'']
   = [True, True, False]"
proof -
  have "list_all (only_rule ''a'' [''a'' \<mapsto> demo_rule ''a'' ''throttle'']) (replicate 3 ([''a''], 5, ''h'', ''/''))"
    by (simp add: list_all_iff only_rule_def demo_decisive)
  from throttle_rule_bound[OF _ _ this, of "demo_rule ''a'' ''throttle''"] show ?thesis
    by (simp add: demo_rule_def upt_rec)
qed

section \<open>The windows of a throttle rule\<close>

text \<open>
  A run of the memory store with its background goroutines: requests (map order, clock, host
  and path), ticks of the counter reset, and cleanups. \<open>run_store\<close> collects the answers.
\<close>

datatype store_event = Asks "string list" time string string | ResetTick | CleanupTick time

fun store_event_step :: "store_event \<Rightarrow> mem_store \<Rightarrow> bool list \<times> mem_store" where
  "store_event_step (Asks ks now host path) s = apfst (\<lambda>ok. [ok]) (should_allow ks now host path s)"
| "store_event_step ResetTick s = ([], mem_reset_turn True s)"
| "store_event_step (CleanupTick now) s = ([], mem_cleanup_turn (Some now) s)"

fun run_store :: "store_event list \<Rightarrow> mem_store \<Rightarrow> bool list" where
  "run_store [] s = []"
| "run_store (e # es) s = (case store_event_step e s of (oks, s') \<Rightarrow> oks @ run_store es s')"

text \<open>The reference: a counter that a reset sets to zero.\<close>

fun windowed :: "int \<Rightarrow> int \<Rightarrow> store_event list \<Rightarrow> bool list" where
  "windowed limit n [] = []"
| "windowed limit n (Asks ks now host path # es) = (n < limit) # windowed limit (n + 1) es"
| "windowed limit n (ResetTick # es) = windowed limit 0 es"
| "windowed limit n (CleanupTick now # es) = windowed limit n es"

text \<open>The event concerns rule \<open>k\<close> alone; a cleanup comes while the rule is active.\<close>

definition alone :: "string \<Rightarrow> rules \<Rightarrow> store_event \<Rightarrow> bool" where
  "alone k rs e =
     (case e of
        Asks ks now host path \<Rightarrow> k \<in> set ks \<and> decisive_keys now host path rs = {k}
      | ResetTick \<Rightarrow> True
      | CleanupTick now \<Rightarrow> (\<forall>r. rs k = Some r \<longrightarrow> rule_active now r))"

lemma decisive_reset [simp]: "decisive now host path (reset_rpm r) = decisive now host path r"
  by (simp add: decisive_def rule_applies_def rule_active_def reset_rpm_def)

lemma rule_active_rpm [simp]: "rule_active now (r\<lparr>r_current_rpm := n\<rparr>) = rule_active now r"
  by (simp add: rule_active_def)

lemma alone_counted:
  "rs k = Some r \<Longrightarrow> alone k (rs(k \<mapsto> r\<lparr>r_current_rpm := n\<rparr>)) e = alone k rs e"
proof -
  assume r: "rs k = Some r"
  have "decisive_keys now host path (rs(k \<mapsto> r\<lparr>r_current_rpm := n\<rparr>)) = decisive_keys now host path rs" for now host path
    using r by (auto simp: decisive_keys_def decisive_def rule_applies_def rule_active_def)
  then show ?thesis using r by (simp add: alone_def split: store_event.splits)
qed

lemma alone_reset: "alone k (\<lambda>j. map_option reset_rpm (rs j)) e = alone k rs e"
proof -
  have "decisive_keys now host path (\<lambda>j. map_option reset_rpm (rs j)) = decisive_keys now host path rs" for now host path
    by (auto simp: decisive_keys_def)
  then show ?thesis by (auto simp: alone_def reset_rpm_def split: store_event.splits)
qed

lemma alone_cleaned:
  assumes "alone k rs e" and "rs k = Some r" and "rule_active t r"
  shows "alone k (keep_entries (\<lambda>_. rule_active t) rs) e"
proof -
  have "decisive_keys now host path (keep_entries (\<lambda>_. rule_active t) rs) = {k}"
    if "decisive_keys now host path rs = {k}" for now host path
  proof -
    have "k \<in> decisive_keys now host path rs" using that by simp
    then have "decisive now host path r" using assms(2) by (simp add: decisive_keys_def)
    then have "k \<in> decisive_keys now host path (keep_entries (\<lambda>_. rule_active t) rs)"
      using assms(2,3) by (simp add: decisive_keys_def)
    moreover have "decisive_keys now host path (keep_entries (\<lambda>_. rule_active t) rs) \<subseteq> decisive_keys now host path rs"
      by (auto simp: decisive_keys_def)
    ultimately show ?thesis using that by auto
  qed
  then show ?thesis using assms by (auto simp: alone_def split: store_event.splits)
qed

lemma asks_alone:
  assumes "alone k (ms_rules s) (Asks ks now host path)" and "ms_rules s k = Some r" and "r_action r = ''throttle''"
  shows "should_allow ks now host path s
    = (r_current_rpm r < r_max_rpm r, s\<lparr>ms_rules := (ms_rules s)(k \<mapsto> r\<lparr>r_current_rpm := r_current_rpm r + 1\<rparr>)\<rparr>)"
proof -
  have ks: "k \<in> set ks" and keys: "decisive_keys now host path (ms_rules s) = {k}" using assms(1) by (auto simp: alone_def)
  have "k \<in> decisive_keys now host path (ms_rules s)" using keys by simp
  then have "decisive now host path r" using assms(2) by (simp add: decisive_keys_def)
  then have "should_allow_loop ks now host path (ms_rules s) = rule_decision k r (ms_rules s)"
    using loop_first[of k ks "ms_rules s" r now host path, OF ks assms(2)] keys by simp
  then show ?thesis using assms(3) by (simp add: should_allow_def rule_decision_def) linarith
qed

text \<open>
  C16. A throttle rule bounds the requests it governs in each window of the counter: over
  any run of requests for which it is the only rule that applies, of ticks of the counter
  reset and of cleanups, the store answers exactly as a counter that starts at the rule's
  count, passes a request while it is below \<open>maxRPM\<close>, counts every request, passed or not,
  and goes back to zero at a reset, whoever sends the requests.
\<close>

theorem throttle_rule_windows:
  assumes "ms_rules s k = Some r" and "r_action r = ''throttle''"
    and "ms_resetting s" and "ms_cleaning s" and "list_all (alone k (ms_rules s)) es"
  shows "run_store es s = windowed (r_max_rpm r) (r_current_rpm r) es"
  using assms
proof (induction es arbitrary: s r)
  case (Cons e es)
  note IH = Cons.IH and now = Cons.prems
  show ?case
  proof (cases e)
    case (Asks ks t host path)
    let ?r = "r\<lparr>r_current_rpm := r_current_rpm r + 1\<rparr>" and ?s = "s\<lparr>ms_rules := (ms_rules s)(k \<mapsto> r\<lparr>r_current_rpm := r_current_rpm r + 1\<rparr>)\<rparr>"
    have "alone k (ms_rules s) (Asks ks t host path)" using now(5) Asks by simp
    from asks_alone[OF this now(1,2)] have "should_allow ks t host path s = (r_current_rpm r < r_max_rpm r, ?s)" .
    moreover have "list_all (alone k (ms_rules ?s)) es"
      using now(5) alone_counted[of "ms_rules s" k r "r_current_rpm r + 1", OF now(1)] by (simp add: list_all_iff)
    ultimately show ?thesis using IH[of ?s ?r] now Asks
      by (simp add: fun_upd_same del: fun_upd_apply)
  next
    case ResetTick
    have "list_all (alone k (ms_rules (reset_all_rpm s))) es"
      using now(5) by (simp add: list_all_iff reset_all_rpm_def alone_reset)
    then show ?thesis using IH[of "reset_all_rpm s" "reset_rpm r"] now ResetTick
      by (simp add: mem_reset_turn_def reset_all_rpm_def reset_rpm_def)
  next
    case (CleanupTick t)
    have act: "rule_active t r" using now(1,5) CleanupTick by (simp add: alone_def)
    have "list_all (alone k (ms_rules (delete_expired t s))) es"
      using now(5) alone_cleaned[of k "ms_rules s" _ r t, OF _ now(1) act] by (auto simp: list_all_iff delete_expired_def)
    then show ?thesis using IH[of "delete_expired t s" r] now CleanupTick act
      by (simp add: mem_cleanup_turn_def delete_expired_def)
  qed
qed simp

theorem throttle_rule_windows_witness:
  "run_store (replicate 3 (Asks [''a''] 5 ''h'' ''/'') @ [ResetTick, CleanupTick 50, Asks [''a''] 60 ''h'' ''/''])
     (new_memory_rule_store\<lparr>ms_rules := [''a'' \<mapsto> demo_rule ''a'' ''throttle'']\<rparr>) = [True, True, False, True]"
proof -
  let ?es = "replicate 3 (Asks [''a''] 5 ''h'' ''/'') @ [ResetTick, CleanupTick 50, Asks [''a''] 60 ''h'' ''/'']"
  have "list_all (alone ''a'' [''a'' \<mapsto> demo_rule ''a'' ''throttle'']) ?es"
    by (simp add: alone_def demo_decisive list_all_iff) (simp add: rule_active_def demo_rule_def go_time)
  with throttle_rule_windows[of "new_memory_rule_store\<lparr>ms_rules := [''a'' \<mapsto> demo_rule ''a'' ''throttle'']\<rparr>" "''a''"
      "demo_rule ''a'' ''throttle''" ?es]
  show ?thesis by (simp add: new_memory_rule_store_def) (simp add: demo_rule_def numeral_eq_Suc)
qed

section \<open>The flag rateByKey\<close>

text \<open>
  The flag \<open>rateByKey\<close> has no effect: setting it on every rule of the map changes no
  decision, and the resulting map differs in the flag only, so a throttle rule always has
  one counter for all callers.
\<close>

definition with_rate_by_key :: "bool \<Rightarrow> rules \<Rightarrow> rules" where
  "with_rate_by_key b rs = (\<lambda>k. map_option (\<lambda>r. r\<lparr>r_rate_by_key := b\<rparr>) (rs k))"

lemma with_rate_by_key_upd:
  "with_rate_by_key b (rs(k \<mapsto> r)) = (with_rate_by_key b rs)(k \<mapsto> r\<lparr>r_rate_by_key := b\<rparr>)"
  by (auto simp: with_rate_by_key_def)

lemma rate_by_key_rpm:
  "r\<lparr>r_rate_by_key := b, r_current_rpm := n\<rparr> = r\<lparr>r_current_rpm := n, r_rate_by_key := b\<rparr>"
  by (cases r) simp

lemma rate_by_key_applies [simp]:
  "rule_applies now host path (r\<lparr>r_rate_by_key := b\<rparr>) = rule_applies now host path r"
  by (simp add: rule_applies_def rule_active_def)

theorem rate_by_key_ignored:
  "should_allow_loop ks now host path (with_rate_by_key b rs)
   = apsnd (with_rate_by_key b) (should_allow_loop ks now host path rs)"
proof (induction ks)
  case Nil
  then show ?case by simp
next
  case (Cons k ks)
  show ?case
  proof (cases "rs k")
    case None
    then show ?thesis using Cons by (simp add: with_rate_by_key_def)
  next
    case (Some r)
    then have "with_rate_by_key b rs k = Some (r\<lparr>r_rate_by_key := b\<rparr>)" by (simp add: with_rate_by_key_def)
    then show ?thesis using Cons Some by (simp add: increment_rpm_def with_rate_by_key_upd rate_by_key_rpm)
  qed
qed

section \<open>Lifetime\<close>

text \<open>
  A rule lives for its duration: for any duration from one second to 9223372036
  seconds, a rule stored at \<open>now\<close> without an expiry is active at exactly the instants
  before \<open>now\<close> plus the duration.
\<close>

theorem rule_lifetime:
  assumes "0 < r_duration_seconds r" and "r_duration_seconds r \<le> 9223372036" and "r_expires_at r = 0"
  shows "rule_active t (stored_rule now r) \<longleftrightarrow> t < now + r_duration_seconds r * second"
proof -
  have "int64_ok (r_duration_seconds r * second)"
    using assms by (simp add: int64_ok_def second_def)
  then show ?thesis
    using assms(3) by (simp add: stored_rule_def reset_rpm_def rule_active_def go_time mul64_exact)
qed

theorem rule_lifetime_witness:
  "rule_active 7 (stored_rule 5 ((demo_rule ''a'' ''block'')\<lparr>r_expires_at := 0\<rparr>)) \<longleftrightarrow> (7 :: int) < 5 + 60 * second"
  using rule_lifetime[of "(demo_rule ''a'' ''block'')\<lparr>r_expires_at := 0\<rparr>" 7 5] by (simp add: demo_rule_def)

text \<open>
  A duration of 9223372037 seconds or a little more overflows the nanosecond count: the
  rule is stored with an expiry in the past and is never active, although its duration is
  positive.
\<close>

theorem long_duration_never_active:
  assumes "9223372037 \<le> r_duration_seconds r" and "r_duration_seconds r \<le> 18446744073"
    and "r_expires_at r = 0" and "now \<le> t"
  shows "\<not> rule_active t (stored_rule now r)"
proof -
  have "mul64 (r_duration_seconds r) second = r_duration_seconds r * second - 2 ^ 64"
  proof -
    have "(r_duration_seconds r * second + 2 ^ 63) mod 2 ^ 64
        = (r_duration_seconds r * second - 2 ^ 63 + 2 ^ 64) mod (2 ^ 64 :: int)" by (simp add: algebra_simps)
    also have "\<dots> = (r_duration_seconds r * second - 2 ^ 63) mod 2 ^ 64" by (rule mod_add_self2)
    also have "\<dots> = r_duration_seconds r * second - 2 ^ 63"
      using assms(1,2) by (intro mod_pos_pos_trivial) (simp_all add: second_def)
    finally show ?thesis by (simp add: mul64_def wrap64_def)
  qed
  then have "mul64 (r_duration_seconds r) second < 0" using assms(2) by (simp add: second_def)
  then show ?thesis
    using assms(3,4) by (simp add: stored_rule_def reset_rpm_def rule_active_def go_time)
qed

theorem long_duration_never_active_witness:
  "\<not> rule_active 5 (stored_rule 5 ((demo_rule ''a'' ''block'')\<lparr>r_duration_seconds := 9223372037, r_expires_at := 0\<rparr>))"
  by (rule long_duration_never_active) (simp_all add: demo_rule_def)

section \<open>Cleanup\<close>

definition expired_gone :: "time \<Rightarrow> rules \<Rightarrow> rules \<Rightarrow> bool" where
  "expired_gone t rs rs' \<longleftrightarrow>
     (\<forall>k. rs' k = rs k \<or> (rs' k = None \<and> (\<forall>r. rs k = Some r \<longrightarrow> \<not> rule_active t r)))"

lemma rule_inactive_later: "\<not> rule_active t r \<Longrightarrow> t \<le> now \<Longrightarrow> \<not> rule_applies now host path r"
  by (auto simp: rule_applies_def rule_active_def go_time)

lemma loop_expired_gone:
  assumes "expired_gone t rs rs'" and "t \<le> now"
  shows "fst (should_allow_loop ks now host path rs') = fst (should_allow_loop ks now host path rs)
    \<and> expired_gone t (snd (should_allow_loop ks now host path rs)) (snd (should_allow_loop ks now host path rs'))"
proof (induction ks)
  case Nil
  then show ?case using assms by simp
next
  case (Cons k ks)
  have "rs' k = rs k \<or> rs' k = None \<and> (\<forall>r. rs k = Some r \<longrightarrow> \<not> rule_active t r)"
    using assms(1) unfolding expired_gone_def by (rule spec)
  then show ?case
  proof (elim disjE)
    assume 1: "rs' k = rs k"
    show ?thesis
    proof (cases "rs k")
      case (Some r)
      have "expired_gone t (rs(k \<mapsto> r')) (rs'(k \<mapsto> r'))" for r'
        using assms(1) by (simp add: expired_gone_def)
      then show ?thesis using Cons 1 Some assms(1) by (simp add: increment_rpm_def)
    qed (use Cons 1 in simp)
  next
    assume "rs' k = None \<and> (\<forall>r. rs k = Some r \<longrightarrow> \<not> rule_active t r)"
    then show ?thesis using Cons rule_inactive_later[OF _ assms(2)] by (auto split: option.splits)
  qed
qed

text \<open>
  Deleting expired rules is not observable: for requests at or after the instant of the
  cleanup, the store that was cleaned gives the answers of the store that was not.
\<close>

theorem delete_expired_unobservable:
  assumes "\<forall>(ks, now, host, path) \<in> set reqs. t \<le> now"
  shows "run_requests reqs (ms_rules (delete_expired t s)) = run_requests reqs (ms_rules s)"
proof -
  have "expired_gone t rs rs' \<Longrightarrow> run_requests reqs rs' = run_requests reqs rs" for rs rs'
    using assms
  proof (induction reqs arbitrary: rs rs')
    case Nil
    then show ?case by simp
  next
    case (Cons req reqs)
    obtain ks now host path where req: "req = (ks, now, host, path)" by (cases req)
    have "t \<le> now" using Cons.prems(2) by (simp add: req)
    from loop_expired_gone[OF Cons.prems(1) this, of ks host path] Cons.IH Cons.prems(2)
    show ?case by (auto simp: req split: prod.splits)
  qed
  moreover have "expired_gone t (ms_rules s) (ms_rules (delete_expired t s))"
    by (auto simp: expired_gone_def delete_expired_def keep_entries_at split: option.splits)
  ultimately show ?thesis by blast
qed

theorem delete_expired_unobservable_witness:
  "run_requests [([''a''], 200, ''h'', ''/'')]
     (ms_rules (delete_expired 150 (new_memory_rule_store\<lparr>ms_rules := [''a'' \<mapsto> demo_rule ''a'' ''block'']\<rparr>)))
   = run_requests [([''a''], 200, ''h'', ''/'')] [''a'' \<mapsto> demo_rule ''a'' ''block'']"
  using delete_expired_unobservable[of "[([''a''], 200, ''h'', ''/'')]" 150
      "new_memory_rule_store\<lparr>ms_rules := [''a'' \<mapsto> demo_rule ''a'' ''block'']\<rparr>"] by simp

end
