(* ===== verification/Patterns.thy ===== *)
theory Patterns
  imports Go_Path Http
begin

text \<open>
  The \<open>/.../\<close> convention for regular expressions that the path filter, the request matcher
  and the claim filters share. The regular-expression engine is an argument \<open>rx\<close> of every
  definition that compiles a pattern: \<open>rx p\<close> is \<open>None\<close> when \<open>regexp.Compile p\<close> fails and
  \<open>Some f\<close> when it succeeds, \<open>f s\<close> being \<open>MatchString s\<close>.
\<close>

type_synonym regex_engine = "string \<Rightarrow> (string \<Rightarrow> bool) option"

definition slash_delimited :: "string \<Rightarrow> bool" where
  "slash_delimited v \<longleftrightarrow> 2 \<le> length v \<and> has_prefix v ''/'' \<and> has_suffix v ''/''"

definition inside_slashes :: "string \<Rightarrow> string" where
  "inside_slashes v = butlast (tl v)"

lemma inside_slashes_delim: "slash_delimited (''/'' @ p @ ''/'')" "inside_slashes (''/'' @ p @ ''/'') = p"
  by (auto simp: slash_delimited_def inside_slashes_def has_suffix_iff intro: exI[of _ "CHR ''/'' # p"])

end
