(* ===== verification/Matcher.thy ===== *)
theory Matcher
  imports Patterns Config
begin

text \<open>
  The request matcher of the API-key rate limit, \<open>internal/ratelimit/matcher.go\<close>: match
  rules are compiled once, a request matches when one rule has all its non-empty fields
  satisfied. \<open>match_rule\<close> (of the configuration) doubles as \<open>RequestMatchRule\<close>, which has
  the same three fields and is filled by copying them.
\<close>

record compiled_rule =
  cr_host_exact :: string
  cr_host_regex :: "(string \<Rightarrow> bool) option"
  cr_path_exact :: string
  cr_path_regex :: "(string \<Rightarrow> bool) option"
  cr_header_name :: string

datatype match_error = BadHostRegex nat | BadPathRegex nat

definition is_regex_value :: "string \<Rightarrow> bool" where
  "is_regex_value v = slash_delimited v"

text \<open>A non-empty field, compiled: an exact text or a regular expression.\<close>

definition compile_field :: "regex_engine \<Rightarrow> string \<Rightarrow> (string \<times> (string \<Rightarrow> bool) option) option" where
  "compile_field rx v =
     (if v = [] then Some ([], None)
      else if is_regex_value v then map_option (\<lambda>f. ([], Some f)) (rx (inside_slashes v))
      else Some (v, None))"

definition compile_rule :: "regex_engine \<Rightarrow> nat \<Rightarrow> match_rule \<Rightarrow> (match_error, compiled_rule) result" where
  "compile_rule rx i r =
     (case compile_field rx (mr_host r) of
        None \<Rightarrow> Inl (BadHostRegex i)
      | Some (he, hr) \<Rightarrow>
          (case compile_field rx (mr_path r) of
             None \<Rightarrow> Inl (BadPathRegex i)
           | Some (pe, pr) \<Rightarrow>
               Inr \<lparr>cr_host_exact = he, cr_host_regex = hr, cr_path_exact = pe, cr_path_regex = pr,
                    cr_header_name = mr_header r\<rparr>))"

fun compile_rules :: "regex_engine \<Rightarrow> nat \<Rightarrow> match_rule list \<Rightarrow> (match_error, compiled_rule list) result" where
  "compile_rules rx i [] = Inr []"
| "compile_rules rx i (r # rs) =
     bind_result (compile_rule rx i r)
       (\<lambda>c. bind_result (compile_rules rx (Suc i) rs) (\<lambda>cs. Inr (c # cs)))"

definition new_request_matcher :: "regex_engine \<Rightarrow> match_rule list \<Rightarrow> (match_error, compiled_rule list) result" where
  "new_request_matcher rx rules = compile_rules rx 0 rules"

definition field_matches :: "string \<Rightarrow> (string \<Rightarrow> bool) option \<Rightarrow> string \<Rightarrow> bool" where
  "field_matches exact regex v =
     (case regex of Some f \<Rightarrow> f v | None \<Rightarrow> exact = [] \<or> v = exact)"

definition rule_matches :: "compiled_rule \<Rightarrow> request \<Rightarrow> bool" where
  "rule_matches cr r \<longleftrightarrow>
     field_matches (cr_host_exact cr) (cr_host_regex cr) (rq_host r)
     \<and> field_matches (cr_path_exact cr) (cr_path_regex cr) (rq_path r)
     \<and> (cr_header_name cr = [] \<or> header_get (rq_headers r) (cr_header_name cr) \<noteq> [])"

definition matches :: "compiled_rule list \<Rightarrow> request \<Rightarrow> bool" where
  "matches rules r = list_ex (\<lambda>cr. rule_matches cr r) rules"

section \<open>What a match rule means\<close>

text \<open>The documented meaning, on the rule as it is configured.\<close>

definition field_spec :: "regex_engine \<Rightarrow> string \<Rightarrow> string \<Rightarrow> bool" where
  "field_spec rx pat v \<longleftrightarrow>
     pat = [] \<or> (if is_regex_value pat then (\<exists>f. rx (inside_slashes pat) = Some f \<and> f v) else v = pat)"

definition rule_spec :: "regex_engine \<Rightarrow> match_rule \<Rightarrow> request \<Rightarrow> bool" where
  "rule_spec rx m r \<longleftrightarrow>
     field_spec rx (mr_host m) (rq_host r) \<and> field_spec rx (mr_path m) (rq_path r)
     \<and> (mr_header m = [] \<or> header_get (rq_headers r) (mr_header m) \<noteq> [])"

definition compiles :: "regex_engine \<Rightarrow> string \<Rightarrow> bool" where
  "compiles rx pat \<longleftrightarrow> pat = [] \<or> \<not> is_regex_value pat \<or> rx (inside_slashes pat) \<noteq> None"

lemma compile_field_None: "compile_field rx v = None \<longleftrightarrow> \<not> compiles rx v"
  by (auto simp: compile_field_def compiles_def)

lemma compiles_iff: "compiles rx v \<longleftrightarrow> compile_field rx v \<noteq> None"
  by (simp add: compile_field_None)

lemma compile_field_spec:
  "compile_field rx v = Some (e, f) \<Longrightarrow> field_matches e f x \<longleftrightarrow> field_spec rx v x"
  by (auto simp: compile_field_def field_matches_def field_spec_def split: if_splits)

lemma compile_rule_spec: "compile_rule rx i m = Inr c \<Longrightarrow> rule_matches c r \<longleftrightarrow> rule_spec rx m r"
  by (auto simp: compile_rule_def rule_matches_def rule_spec_def compile_field_spec
      split: option.splits)

lemma compile_rule_ok: "is_ok (compile_rule rx i m) \<longleftrightarrow> compiles rx (mr_host m) \<and> compiles rx (mr_path m)"
  unfolding compiles_iff by (auto simp: compile_rule_def is_ok_iff split: option.splits)

lemma compile_rules_spec:
  "compile_rules rx i ms = Inr cs \<Longrightarrow> list_ex (\<lambda>c. rule_matches c r) cs \<longleftrightarrow> (\<exists>m \<in> set ms. rule_spec rx m r)"
proof (induction ms arbitrary: i cs)
  case Nil
  then show ?case by simp
next
  case (Cons m ms)
  then obtain c ds where c: "compile_rule rx i m = Inr c" and ds: "compile_rules rx (Suc i) ms = Inr ds"
    and cs: "cs = c # ds" by (auto simp: bind_result_Inr_iff)
  show ?case using Cons.IH[OF ds] compile_rule_spec[OF c, of r] by (simp add: cs)
qed

lemma compile_rules_ok:
  "is_ok (compile_rules rx i ms) \<longleftrightarrow> (\<forall>m \<in> set ms. compiles rx (mr_host m) \<and> compiles rx (mr_path m))"
proof (induction ms arbitrary: i)
  case Nil
  then show ?case by simp
next
  case (Cons m ms)
  have "is_ok (compile_rules rx i (m # ms)) \<longleftrightarrow> is_ok (compile_rule rx i m) \<and> is_ok (compile_rules rx (Suc i) ms)"
    by (auto simp: is_ok_iff bind_result_Inr_iff)
  then show ?case using Cons.IH compile_rule_ok by simp
qed


definition demo_rules :: "match_rule list" where
  "demo_rules = [\<lparr>mr_host = ''h'', mr_path = [], mr_header = []\<rparr>]"


end
