(* ===== verification/KeyValue.thy ===== *)
theory KeyValue
  imports Go_Strings "HOL-Library.Char_ord" "HOL-Library.List_Lexorder"
begin

text \<open>
  Key-value storage for plugins, \<open>internal/store/keyvalue.go\<close>: the interface
  \<open>KeyValueStore\<close> as the locale \<open>kv_store\<close>, and the in-memory implementation, whose mutex
  makes each method one step. A missing key is \<open>None\<close> (Go's nil slice). The copies the code
  makes of every value keep the stored bytes apart from the caller's, which is what values
  are in HOL. Strings are ordered by bytes, as \<open>sort.Strings\<close> orders them.
\<close>

section \<open>The interface\<close>

text \<open>
  \<open>view\<close> is the map a client may think of, \<open>valid\<close> the keys for which the store keeps it,
  \<open>order_ok\<close> the constraint on the order \<open>'o\<close> in which the store happens to enumerate its
  entries. An operation that fails returns its error; nothing is promised of it.
\<close>

locale kv_store =
  fixes get :: "string \<Rightarrow> 's \<Rightarrow> (string, string option) result"
    and put :: "string \<Rightarrow> string \<Rightarrow> 's \<Rightarrow> string option \<times> 's"
    and del :: "string \<Rightarrow> 's \<Rightarrow> string option \<times> 's"
    and lst :: "'o \<Rightarrow> string \<Rightarrow> 's \<Rightarrow> (string, string list) result"
    and view :: "'s \<Rightarrow> string \<rightharpoonup> string"
    and ok :: "'s \<Rightarrow> bool"
    and valid :: "string \<Rightarrow> bool"
    and order_ok :: "'o \<Rightarrow> 's \<Rightarrow> bool"
  assumes get_view: "ok s \<Longrightarrow> valid k \<Longrightarrow> get k s = Inr w \<Longrightarrow> w = view s k"
    and put_view: "ok s \<Longrightarrow> valid k \<Longrightarrow> put k v s = (None, s') \<Longrightarrow> ok s' \<and> view s' = (view s)(k \<mapsto> v)"
    and del_view: "ok s \<Longrightarrow> valid k \<Longrightarrow> del k s = (None, s') \<Longrightarrow> ok s' \<and> view s' = (view s)(k := None)"
    and lst_view: "ok s \<Longrightarrow> order_ok ord s \<Longrightarrow> lst ord p s = Inr ks \<Longrightarrow>
      sorted ks \<and> distinct ks \<and> set ks = {k \<in> dom (view s). has_prefix k p}"
begin

lemma get_after_put:
  "ok s \<Longrightarrow> valid k \<Longrightarrow> put k v s = (None, s') \<Longrightarrow> get k s' = Inr w \<Longrightarrow> w = Some v"
  using put_view get_view by fastforce

lemma get_other_after_put:
  assumes "ok s" and "valid k" and "valid j" and "j \<noteq> k"
    and "put k v s = (None, s')" and "get j s = Inr w" and "get j s' = Inr w'"
  shows "w' = w"
  using put_view[OF assms(1,2,5)] get_view[OF assms(1,3,6)] get_view[of s' j w'] assms(3,4,7) by simp

lemma get_after_del:
  "ok s \<Longrightarrow> valid k \<Longrightarrow> del k s = (None, s') \<Longrightarrow> get k s' = Inr w \<Longrightarrow> w = None"
  using del_view get_view by fastforce

lemma put_listed:
  assumes "ok s" and "valid k" and "put k v s = (None, s')" and "order_ok ord s'"
    and "lst ord p s' = Inr ks"
  shows "k \<in> set ks \<longleftrightarrow> has_prefix k p"
  using put_view[OF assms(1-3)] lst_view[OF _ assms(4,5)] by auto

lemma del_unlisted:
  assumes "ok s" and "valid k" and "del k s = (None, s')" and "order_ok ord s'"
    and "lst ord p s' = Inr ks"
  shows "k \<notin> set ks"
  using del_view[OF assms(1-3)] lst_view[OF _ assms(4,5)] by auto

end

section \<open>The in-memory store\<close>

type_synonym memory_kv = "string \<rightharpoonup> string"

definition new_memory_kv :: memory_kv where
  "new_memory_kv = Map.empty"

definition kv_get :: "string \<Rightarrow> memory_kv \<Rightarrow> (string, string option) result" where
  "kv_get key m = (case m key of None \<Rightarrow> Inr None | Some val \<Rightarrow> Inr (Some val))"

definition kv_set :: "string \<Rightarrow> string \<Rightarrow> memory_kv \<Rightarrow> string option \<times> memory_kv" where
  "kv_set key value m = (None, m(key \<mapsto> value))"

definition kv_delete :: "string \<Rightarrow> memory_kv \<Rightarrow> string option \<times> memory_kv" where
  "kv_delete key m = (None, m(key := None))"

fun kv_list_loop :: "string list \<Rightarrow> string \<Rightarrow> string list" where
  "kv_list_loop [] prefix = []"
| "kv_list_loop (k # ks) prefix =
     (if has_prefix k prefix then k # kv_list_loop ks prefix else kv_list_loop ks prefix)"

definition kv_list :: "string list \<Rightarrow> string \<Rightarrow> memory_kv \<Rightarrow> (string, string list) result" where
  "kv_list ks prefix m = Inr (sort (kv_list_loop ks prefix))"

lemma kv_list_loop_filter: "kv_list_loop ks p = filter (\<lambda>k. has_prefix k p) ks"
  by (induction ks) auto

interpretation mkv: kv_store kv_get kv_set kv_delete kv_list "\<lambda>m. m" "\<lambda>_. True" "\<lambda>_. True" range_order
  by unfold_locales
     (auto simp: kv_get_def kv_set_def kv_delete_def kv_list_def kv_list_loop_filter range_order_def
       split: option.splits)

text \<open>
  The listing does not depend on the order in which the runtime visits the map: it is
  the sorted list of the stored keys that start with the prefix.
\<close>

theorem kv_list_order_independent:
  assumes "range_order ks m"
  shows "kv_list ks prefix m = Inr (sorted_list_of_set {k \<in> dom m. has_prefix k prefix})"
proof -
  have "distinct (kv_list_loop ks prefix)" and "set (kv_list_loop ks prefix) = {k \<in> dom m. has_prefix k prefix}"
    using assms by (auto simp: kv_list_loop_filter range_order_def)
  then show ?thesis
    by (metis kv_list_def sorted_list_of_set_sort_remdups distinct_remdups_id)
qed

theorem kv_list_order_independent_witness:
  "kv_list [''b'', ''ab'', ''aa''] ''a'' [''aa'' \<mapsto> ''1'', ''ab'' \<mapsto> ''2'', ''b'' \<mapsto> ''3'']
   = Inr (sorted_list_of_set {k \<in> dom [''aa'' \<mapsto> ''1'', ''ab'' \<mapsto> ''2'', ''b'' \<mapsto> ''3'']. has_prefix k ''a''})"
  by (rule kv_list_order_independent) (auto simp: range_order_def)

end
