(* ===== verification/Firestore.thy ===== *)
theory Firestore
  imports Rules KeyValue Config
begin

text \<open>
  The Firestore storage backend, \<open>internal/plugins/storage/firestore\<close>: the rule store with
  its cache, its asynchronous writes and its snapshot listener (\<open>rule_store.go\<close>), the
  key-value store (\<open>kv_store.go\<close>) and the plugin's configuration (\<open>plugin.go\<close>).

  The Firestore client is third-party code. Its iterators, its answers to reads and writes
  and the decoding of a document into a Go struct (\<open>DataTo\<close>) are arguments; the changes
  the snapshot listener receives are inputs of \<open>listen_step\<close>. A write the store starts in
  a goroutine of its own is an entry of \<open>fs_pending\<close>, which \<open>run_write\<close> turns into the
  call the goroutine makes when it runs.
\<close>

section \<open>Rule documents\<close>

record rule_doc =
  rd_rule_id :: string
  rd_target_host :: string
  rd_action :: string
  rd_max_rpm :: int
  rd_path_pattern :: "string option"
  rd_rate_by_key :: bool
  rd_limiter :: string
  rd_throttle_delay_ms :: int
  rd_max_delay_slots :: int
  rd_duration_seconds :: int
  rd_expires_at :: time
  rd_created_at :: time
  rd_updated_at :: time

definition doc_to_rule :: "rule_doc \<Rightarrow> rule" where
  "doc_to_rule d =
     reset_rpm
       \<lparr>r_id = rd_rule_id d, r_target_host = rd_target_host d, r_action = rd_action d,
        r_max_rpm = rd_max_rpm d, r_path_pattern = rd_path_pattern d, r_rate_by_key = rd_rate_by_key d,
        r_limiter = rd_limiter d, r_throttle_delay_ms = rd_throttle_delay_ms d,
        r_max_delay_slots = rd_max_delay_slots d, r_duration_seconds = rd_duration_seconds d,
        r_expires_at = rd_expires_at d, r_current_rpm = 0\<rparr>"

definition rule_to_doc :: "time \<Rightarrow> rule \<Rightarrow> rule_doc" where
  "rule_to_doc now r =
     \<lparr>rd_rule_id = r_id r, rd_target_host = r_target_host r, rd_action = r_action r,
      rd_max_rpm = r_max_rpm r, rd_path_pattern = r_path_pattern r, rd_rate_by_key = r_rate_by_key r,
      rd_limiter = r_limiter r, rd_throttle_delay_ms = r_throttle_delay_ms r,
      rd_max_delay_slots = r_max_delay_slots r, rd_duration_seconds = r_duration_seconds r,
      rd_expires_at = r_expires_at r, rd_created_at = now, rd_updated_at = now\<rparr>"

definition fs_match_rule_path :: "string \<Rightarrow> string \<Rightarrow> bool" where
  "fs_match_rule_path pattern req_path =
     (if pattern = [] then True
      else if contains_any pattern ''*?['' then path_match pattern req_path
      else has_prefix req_path pattern)"

section \<open>The rule store\<close>

datatype remote_write = SetDoc rule | DeleteDoc string | DeleteAllDocs

record fs_store =
  fs_collection :: string
  fs_rules :: rules
  fs_pending :: "remote_write list"
  fs_stopped :: bool
  fs_listening :: bool
  fs_cleaning :: bool \<comment> \<open>the cleanup goroutine runs\<close>
  fs_resetting :: bool \<comment> \<open>the counter reset goroutine runs\<close>

text \<open>
  The initial load reads the documents of the first snapshot. \<open>nxt\<close> is the iterator's
  \<open>Next\<close>; every error other than \<open>Done\<close> is skipped, so the loop may not end.
\<close>

datatype 'd iter_item = ItDone | ItError string | ItDoc 'd

definition load_doc :: "('d \<Rightarrow> (string, rule_doc) result) \<Rightarrow> time \<Rightarrow> 'd \<Rightarrow> rules \<Rightarrow> rules" where
  "load_doc data_to now d rs =
     (case data_to d of
        Inl e \<Rightarrow> rs
      | Inr rd \<Rightarrow> if time_after (rd_expires_at rd) now then rs(rd_rule_id rd \<mapsto> doc_to_rule rd) else rs)"

partial_function (option) load_rules ::
    "('i \<Rightarrow> 'd iter_item \<times> 'i) \<Rightarrow> ('d \<Rightarrow> (string, rule_doc) result) \<Rightarrow> time \<Rightarrow> 'i \<Rightarrow> rules \<Rightarrow> rules option"
where
  "load_rules nxt data_to now it rs =
     (case nxt it of
        (ItDone, _) \<Rightarrow> Some rs
      | (ItError e, it') \<Rightarrow> load_rules nxt data_to now it' rs
      | (ItDoc d, it') \<Rightarrow> load_rules nxt data_to now it' (load_doc data_to now d rs))"

text \<open>
  \<open>first\<close> is the first snapshot or its error. The outer option is \<open>None\<close> when the loop
  over the documents does not end.
\<close>

definition new_firestore_rule_store ::
    "('i \<Rightarrow> 'd iter_item \<times> 'i) \<Rightarrow> ('d \<Rightarrow> (string, rule_doc) result) \<Rightarrow> time \<Rightarrow> string
     \<Rightarrow> (string, 'i) result \<Rightarrow> (string, fs_store) result option" where
  "new_firestore_rule_store nxt data_to now prefix first =
     (case first of
        Inl e \<Rightarrow> Some (Inl (''initial rule snapshot failed: '' @ e))
      | Inr it \<Rightarrow>
          map_option (\<lambda>rs. Inr \<lparr>fs_collection = prefix @ ''-rules'', fs_rules = rs, fs_pending = [],
              fs_stopped = False, fs_listening = True, fs_cleaning = True, fs_resetting = True\<rparr>)
            (load_rules nxt data_to now it Map.empty))"

definition fs_set_rule :: "time \<Rightarrow> rule \<Rightarrow> fs_store \<Rightarrow> (string, rule \<times> fs_store) result" where
  "fs_set_rule now r s =
     (if r_id r = [] then Inl ''ruleId is required''
      else let r1 = (if is_zero_time (r_expires_at r)
                     then r\<lparr>r_expires_at := time_add now (mul64 (r_duration_seconds r) second)\<rparr> else r);
               r' = reset_rpm r1
           in Inr (r', s\<lparr>fs_rules := (fs_rules s)(r_id r' \<mapsto> r'), fs_pending := fs_pending s @ [SetDoc r']\<rparr>))"

definition fs_remove_rule :: "string \<Rightarrow> fs_store \<Rightarrow> bool \<times> fs_store" where
  "fs_remove_rule rid s =
     (if fs_rules s rid \<noteq> None
      then (True, s\<lparr>fs_rules := (fs_rules s)(rid := None), fs_pending := fs_pending s @ [DeleteDoc rid]\<rparr>)
      else (False, s))"

definition fs_remove_all :: "fs_store \<Rightarrow> nat \<times> fs_store" where
  "fs_remove_all s =
     (card (dom (fs_rules s)), s\<lparr>fs_rules := Map.empty, fs_pending := fs_pending s @ [DeleteAllDocs]\<rparr>)"

fun fs_should_allow_loop :: "string list \<Rightarrow> time \<Rightarrow> string \<Rightarrow> string \<Rightarrow> rules \<Rightarrow> bool \<times> rules" where
  "fs_should_allow_loop [] now host req_path rs = (True, rs)"
| "fs_should_allow_loop (k # ks) now host req_path rs =
     (case rs k of
        None \<Rightarrow> fs_should_allow_loop ks now host req_path rs
      | Some r \<Rightarrow>
          if \<not> time_after (r_expires_at r) now then fs_should_allow_loop ks now host req_path rs
          else if r_target_host r \<noteq> host then fs_should_allow_loop ks now host req_path rs
          else if (case r_path_pattern r of None \<Rightarrow> False | Some p \<Rightarrow> \<not> fs_match_rule_path p req_path)
            then fs_should_allow_loop ks now host req_path rs
          else if r_action r = ''block'' then (False, rs)
          else if r_action r = ''allow'' then (True, rs)
          else if r_action r = ''throttle'' then
            (case increment_rpm r of (n, r') \<Rightarrow> (n \<le> r_max_rpm r, rs(k \<mapsto> r')))
          else fs_should_allow_loop ks now host req_path rs)"

definition fs_should_allow :: "string list \<Rightarrow> time \<Rightarrow> string \<Rightarrow> string \<Rightarrow> fs_store \<Rightarrow> bool \<times> fs_store" where
  "fs_should_allow ks now host req_path s =
     (case fs_should_allow_loop ks now host req_path (fs_rules s) of
        (ok, rs) \<Rightarrow> (ok, s\<lparr>fs_rules := rs\<rparr>))"

fun fs_status_loop :: "time \<Rightarrow> rules \<Rightarrow> string list \<Rightarrow> rule_status list" where
  "fs_status_loop now rs [] = []"
| "fs_status_loop now rs (k # ks) =
     (case rs k of
        None \<Rightarrow> fs_status_loop now rs ks
      | Some r \<Rightarrow> if \<not> time_after (r_expires_at r) now then fs_status_loop now rs ks
                  else status_of r # fs_status_loop now rs ks)"

definition fs_get_status :: "string list \<Rightarrow> time \<Rightarrow> fs_store \<Rightarrow> rule_status list" where
  "fs_get_status ks now s = fs_status_loop now (fs_rules s) ks"

definition fs_stop :: "fs_store \<Rightarrow> fs_store" where
  "fs_stop s = (if \<not> fs_stopped s then s\<lparr>fs_stopped := True\<rparr> else s)"

definition fs_delete_expired :: "time \<Rightarrow> fs_store \<Rightarrow> fs_store" where
  "fs_delete_expired now s =
     s\<lparr>fs_rules := keep_entries (\<lambda>_ r. time_after (r_expires_at r) now) (fs_rules s)\<rparr>"

definition fs_reset_all_rpm :: "fs_store \<Rightarrow> fs_store" where
  "fs_reset_all_rpm s = s\<lparr>fs_rules := (\<lambda>k. map_option reset_rpm (fs_rules s k))\<rparr>"

text \<open>A turn of the two ticker loops: a tick is served, or the stop channel is read.\<close>

definition cleanup_turn :: "time option \<Rightarrow> fs_store \<Rightarrow> fs_store" where
  "cleanup_turn tick s =
     (if \<not> fs_cleaning s then s
      else case tick of
        Some now \<Rightarrow> fs_delete_expired now s
      | None \<Rightarrow> if fs_stopped s then s\<lparr>fs_cleaning := False\<rparr> else s)"

definition reset_turn :: "bool \<Rightarrow> fs_store \<Rightarrow> fs_store" where
  "reset_turn tick s =
     (if \<not> fs_resetting s then s
      else if tick then fs_reset_all_rpm s
      else if fs_stopped s then s\<lparr>fs_resetting := False\<rparr> else s)"

section \<open>The snapshot listener\<close>

datatype 'd doc_change = DocAdded 'd | DocModified 'd | DocRemoved string

definition upsert_doc :: "('d \<Rightarrow> (string, rule_doc) result) \<Rightarrow> 'd \<Rightarrow> fs_store \<Rightarrow> fs_store" where
  "upsert_doc data_to d s =
     (case data_to d of
        Inl e \<Rightarrow> s
      | Inr rd \<Rightarrow> let r = doc_to_rule rd in s\<lparr>fs_rules := (fs_rules s)(r_id r \<mapsto> r)\<rparr>)"

fun apply_change :: "('d \<Rightarrow> (string, rule_doc) result) \<Rightarrow> 'd doc_change \<Rightarrow> fs_store \<Rightarrow> fs_store" where
  "apply_change data_to (DocAdded d) s = upsert_doc data_to d s"
| "apply_change data_to (DocModified d) s = upsert_doc data_to d s"
| "apply_change data_to (DocRemoved rid) s = s\<lparr>fs_rules := (fs_rules s)(rid := None)\<rparr>"

text \<open>
  One turn of the listener. Whatever the error and whether or not the store was stopped,
  an error ends the goroutine.
\<close>

definition listen_step ::
    "('d \<Rightarrow> (string, rule_doc) result) \<Rightarrow> (string, 'd doc_change list) result \<Rightarrow> fs_store \<Rightarrow> fs_store" where
  "listen_step data_to snap s =
     (if \<not> fs_listening s then s
      else case snap of
        Inl e \<Rightarrow> s\<lparr>fs_listening := False\<rparr>
      | Inr changes \<Rightarrow> fold (apply_change data_to) changes s)"

text \<open>The call a pending write makes when its goroutine runs at \<open>now\<close>.\<close>

datatype remote_call = CallSet string string rule_doc | CallDelete string string | CallDeleteAll string

definition run_write :: "time \<Rightarrow> string \<Rightarrow> remote_write \<Rightarrow> remote_call" where
  "run_write now coll w =
     (case w of
        SetDoc r \<Rightarrow> CallSet coll (r_id r) (rule_to_doc now r)
      | DeleteDoc rid \<Rightarrow> CallDelete coll rid
      | DeleteAllDocs \<Rightarrow> CallDeleteAll coll)"

section \<open>The store implements the rule store interface\<close>

lemma fs_match_is_match: "fs_match_rule_path p q = match_rule_path p q"
  by (simp add: fs_match_rule_path_def match_rule_path_def contains_glob_chars_def)

lemma fs_loop_is_loop: "fs_should_allow_loop ks now host path rs = should_allow_loop ks now host path rs"
  by (induction ks)
     (auto simp: fs_match_is_match rule_applies_def rule_active_def split: option.splits)

lemma fs_set_is_stored:
  "r_id r \<noteq> [] \<Longrightarrow> fs_set_rule now r s =
     Inr (stored_rule now r, s\<lparr>fs_rules := (fs_rules s)(r_id r \<mapsto> stored_rule now r),
                              fs_pending := fs_pending s @ [SetDoc (stored_rule now r)]\<rparr>)"
  by (simp add: fs_set_rule_def stored_rule_def Let_def reset_rpm_def)

interpretation fsr: rule_store fs_set_rule fs_remove_rule fs_remove_all fs_should_allow fs_rules
  by unfold_locales
     (auto simp: fs_set_rule_def stored_rule_def reset_rpm_def fs_remove_rule_def fs_remove_all_def
       fs_should_allow_def fs_loop_is_loop Let_def split: prod.splits)

section \<open>The key-value store\<close>

record kv_doc =
  kd_key :: string
  kd_data :: string

definition sanitize_doc_id :: "string \<Rightarrow> string" where
  "sanitize_doc_id key = replace_all ''/'' ''__'' key"

text \<open>
  The client's calls, by collection and document id: a read finds no document, fails, or
  finds one; a query gives what its iterator returns before \<open>Done\<close>.
\<close>

datatype 'd get_reply = NotFound | GetFailed string | Found 'd

record ('c, 'd) kv_client =
  cl_get :: "string \<Rightarrow> string \<Rightarrow> 'c \<Rightarrow> 'd get_reply"
  cl_set :: "string \<Rightarrow> string \<Rightarrow> kv_doc \<Rightarrow> 'c \<Rightarrow> string option \<times> 'c"
  cl_delete :: "string \<Rightarrow> string \<Rightarrow> 'c \<Rightarrow> string option \<times> 'c"
  cl_query :: "string \<Rightarrow> string \<Rightarrow> string \<Rightarrow> 'c \<Rightarrow> (string, 'd) result list"
  cl_data_to :: "'d \<Rightarrow> (string, kv_doc) result"

definition new_firestore_kv_store :: "string \<Rightarrow> string \<Rightarrow> string" where
  "new_firestore_kv_store prefix namespace = prefix @ ''-'' @ namespace"

definition fs_kv_get ::
    "('c, 'd) kv_client \<Rightarrow> string \<Rightarrow> string \<Rightarrow> 'c \<Rightarrow> (string, string option) result" where
  "fs_kv_get cl coll key c =
     (case cl_get cl coll (sanitize_doc_id key) c of
        NotFound \<Rightarrow> Inr None
      | GetFailed e \<Rightarrow> Inl e
      | Found d \<Rightarrow> (case cl_data_to cl d of Inl e \<Rightarrow> Inl e | Inr kv \<Rightarrow> Inr (Some (kd_data kv))))"

definition fs_kv_set ::
    "('c, 'd) kv_client \<Rightarrow> string \<Rightarrow> string \<Rightarrow> string \<Rightarrow> 'c \<Rightarrow> string option \<times> 'c" where
  "fs_kv_set cl coll key value c =
     cl_set cl coll (sanitize_doc_id key) \<lparr>kd_key = key, kd_data = value\<rparr> c"

definition fs_kv_delete :: "('c, 'd) kv_client \<Rightarrow> string \<Rightarrow> string \<Rightarrow> 'c \<Rightarrow> string option \<times> 'c" where
  "fs_kv_delete cl coll key c = cl_delete cl coll (sanitize_doc_id key) c"

fun fs_kv_list_loop :: "('d \<Rightarrow> (string, kv_doc) result) \<Rightarrow> (string, 'd) result list \<Rightarrow> (string, string list) result" where
  "fs_kv_list_loop data_to [] = Inr []"
| "fs_kv_list_loop data_to (Inl e # items) = Inl e"
| "fs_kv_list_loop data_to (Inr d # items) =
     (case data_to d of
        Inl e \<Rightarrow> fs_kv_list_loop data_to items
      | Inr kv \<Rightarrow> bind_result (fs_kv_list_loop data_to items) (\<lambda>keys. Inr (kd_key kv # keys)))"

text \<open>The upper end of the query: the prefix followed by U+FFFF in UTF-8.\<close>

definition list_end :: "string \<Rightarrow> string" where
  "list_end prefix = prefix @ [CHR 0xEF, CHR 0xBF, CHR 0xBF]"

definition fs_kv_list ::
    "('c, 'd) kv_client \<Rightarrow> string \<Rightarrow> string \<Rightarrow> 'c \<Rightarrow> (string, string list) result" where
  "fs_kv_list cl coll prefix c =
     fs_kv_list_loop (cl_data_to cl) (cl_query cl coll prefix (list_end prefix) c)"

section \<open>The plugin\<close>

definition resolve_project_id :: "env \<Rightarrow> http_reply \<Rightarrow> config \<Rightarrow> string" where
  "resolve_project_id env reply c =
     (if st_project_id (cf_storage c) \<noteq> [] then st_project_id (cf_storage c)
      else if getenv env ''GOOGLE_CLOUD_PROJECT'' \<noteq> [] then getenv env ''GOOGLE_CLOUD_PROJECT''
      else fetch_gcp_project_id reply)"

text \<open>The regular expression \<open>^[a-z0-9-]+$\<close>.\<close>

definition collection_prefix_ok :: "string \<Rightarrow> bool" where
  "collection_prefix_ok p \<longleftrightarrow>
     p \<noteq> [] \<and> list_all (\<lambda>c. is_lower_byte c \<or> is_digit_byte c \<or> c = CHR ''-'') p"

datatype fs_config_error = ProjectIDRequired | BadCollectionPrefix string

definition effective_prefix :: "config \<Rightarrow> string" where
  "effective_prefix c =
     (if st_collection_prefix (cf_storage c) = [] then ''proxy'' else st_collection_prefix (cf_storage c))"

definition firestore_validate_config :: "env \<Rightarrow> http_reply \<Rightarrow> config \<Rightarrow> (fs_config_error, unit) result" where
  "firestore_validate_config env reply c =
     (if \<not> st_enabled (cf_storage c) then Inr ()
      else if resolve_project_id env reply c = [] then Inl ProjectIDRequired
      else if \<not> collection_prefix_ok (effective_prefix c) then Inl (BadCollectionPrefix (effective_prefix c))
      else Inr ())"

text \<open>\<open>connect project db\<close> is the client library's constructor.\<close>

record 'cl fs_plugin =
  fp_client :: "'cl option"
  fp_prefix :: string

definition firestore_open ::
    "(string \<Rightarrow> string option \<Rightarrow> (string, 'cl) result) \<Rightarrow> env \<Rightarrow> http_reply \<Rightarrow> config
     \<Rightarrow> 'cl fs_plugin \<Rightarrow> (string, 'cl fs_plugin) result" where
  "firestore_open connect env reply c p =
     (let dbname = st_dbname (cf_storage c)
      in case connect (resolve_project_id env reply c) (if dbname \<noteq> [] then Some dbname else None) of
           Inl e \<Rightarrow> Inl (''failed to create Firestore client: '' @ e)
         | Inr cl \<Rightarrow> Inr (p\<lparr>fp_client := Some cl, fp_prefix := effective_prefix c\<rparr>))"

definition firestore_plugin_name :: string where "firestore_plugin_name = ''storage-firestore''"
definition firestore_plugin_priority :: int where "firestore_plugin_priority = 5"

end
