(* ===== verification/Firestore_Claims.thy ===== *)
theory Firestore_Claims
  imports Firestore
begin

text \<open>
  What the two rule stores have in common, and what the Firestore backend adds to it: a run
  of operations gives the same answers on both, a rule survives its document, the echo of a
  write resets a counter, a removed rule can return, and the initial load ends exactly when
  its iterator does.
\<close>

section \<open>Runs of store operations\<close>

datatype store_op =
    OpSet time rule
  | OpRemove string
  | OpClear
  | OpDecide "string list" time string string

datatype store_out =
    OutSet "(string, rule) result"
  | OutFound bool
  | OutCount nat
  | OutAllow bool

text \<open>The specification: what each operation does to the rule map alone.\<close>

fun spec_op :: "store_op \<Rightarrow> rules \<Rightarrow> store_out \<times> rules" where
  "spec_op (OpSet now r) rs =
     (if r_id r = [] then (OutSet (Inl ''ruleId is required''), rs)
      else (OutSet (Inr (stored_rule now r)), rs(r_id r \<mapsto> stored_rule now r)))"
| "spec_op (OpRemove rid) rs = (OutFound (rs rid \<noteq> None), rs(rid := None))"
| "spec_op OpClear rs = (OutCount (card (dom rs)), Map.empty)"
| "spec_op (OpDecide ks now host path) rs =
     (case should_allow_loop ks now host path rs of (ok, rs') \<Rightarrow> (OutAllow ok, rs'))"

fun run_spec :: "store_op list \<Rightarrow> rules \<Rightarrow> store_out list" where
  "run_spec [] rs = []"
| "run_spec (p # ps) rs = (case spec_op p rs of (out, rs') \<Rightarrow> out # run_spec ps rs')"

text \<open>A client of a store that is given by its operations.\<close>

fun store_step ::
    "(time \<Rightarrow> rule \<Rightarrow> 's \<Rightarrow> (string, rule \<times> 's) result) \<Rightarrow> (string \<Rightarrow> 's \<Rightarrow> bool \<times> 's) \<Rightarrow> ('s \<Rightarrow> nat \<times> 's)
     \<Rightarrow> (string list \<Rightarrow> time \<Rightarrow> string \<Rightarrow> string \<Rightarrow> 's \<Rightarrow> bool \<times> 's) \<Rightarrow> store_op \<Rightarrow> 's \<Rightarrow> store_out \<times> 's" where
  "store_step st rm cl dc (OpSet now r) s =
     (case st now r s of Inl e \<Rightarrow> (OutSet (Inl e), s) | Inr (r', s') \<Rightarrow> (OutSet (Inr r'), s'))"
| "store_step st rm cl dc (OpRemove rid) s = apfst OutFound (rm rid s)"
| "store_step st rm cl dc OpClear s = apfst OutCount (cl s)"
| "store_step st rm cl dc (OpDecide ks now host path) s = apfst OutAllow (dc ks now host path s)"

fun run_store ::
    "(time \<Rightarrow> rule \<Rightarrow> 's \<Rightarrow> (string, rule \<times> 's) result) \<Rightarrow> (string \<Rightarrow> 's \<Rightarrow> bool \<times> 's) \<Rightarrow> ('s \<Rightarrow> nat \<times> 's)
     \<Rightarrow> (string list \<Rightarrow> time \<Rightarrow> string \<Rightarrow> string \<Rightarrow> 's \<Rightarrow> bool \<times> 's) \<Rightarrow> store_op list \<Rightarrow> 's \<Rightarrow> store_out list" where
  "run_store st rm cl dc [] s = []"
| "run_store st rm cl dc (p # ps) s =
     (case store_step st rm cl dc p s of (out, s') \<Rightarrow> out # run_store st rm cl dc ps s')"

context rule_store
begin

lemma step_refines:
  "spec_op p (rules_of s) = (fst (store_step set remove clear decide p s), rules_of (snd (store_step set remove clear decide p s)))"
proof (cases p)
  case (OpSet now r)
  then show ?thesis
    using set_error[of r now s] set_stores[of r now s] by (cases "r_id r = []") auto
next
  case (OpDecide ks now host path)
  then show ?thesis by (simp add: decide_loop)
qed (simp_all add: remove_found remove_rules clear_count clear_rules)

lemma run_refines: "run_store set remove clear decide ps s = run_spec ps (rules_of s)"
  by (induction ps arbitrary: s) (auto simp: step_refines split: prod.splits)

end

text \<open>
  C15. Both rule stores implement one specification: on any sequence of set, remove,
  remove-all and decide operations, the in-memory store and the Firestore store give, answer
  by answer, what the specification gives on the rule map they hold.
\<close>

theorem stores_implement_spec:
  "run_store set_rule remove_rule remove_all should_allow ps m = run_spec ps (ms_rules m)
   \<and> run_store fs_set_rule fs_remove_rule fs_remove_all fs_should_allow ps f = run_spec ps (fs_rules f)"
  by (simp add: mem.run_refines fsr.run_refines)

section \<open>The echo of a write\<close>

lemma doc_of_stored [simp]: "doc_to_rule (rule_to_doc t r) = reset_rpm r"
  by (simp add: doc_to_rule_def rule_to_doc_def reset_rpm_def)

text \<open>
  C34. A rule survives the round trip through its document up to its counter: what the
  listener stores for a document that another instance wrote is that rule with no request
  counted.
\<close>

theorem rule_document_roundtrip:
  "doc_to_rule (rule_to_doc t r) = r\<lparr>r_current_rpm := 0\<rparr>"
  by (simp add: reset_rpm_def)

text \<open>
  The snapshot that reports an instance's own write back to it resets the counter of
  the rule: whatever was counted between the write and its echo is forgotten, and the rule
  is the one that was set.
\<close>

theorem echo_resets_counter:
  assumes "fs_set_rule now r s0 = Inr (r', s1)" and "fs_listening s"
    and "run_write t coll (SetDoc r') = CallSet coll (r_id r') d"
  shows "fs_rules (listen_step Inr (Inr [DocAdded d]) s) (r_id r) = Some (stored_rule now r)
       \<and> r_current_rpm (stored_rule now r) = 0"
proof -
  have "r' = stored_rule now r" using assms(1) by (rule fsr.set_lookup(1))
  moreover have "reset_rpm (stored_rule now r) = stored_rule now r"
    by (simp add: stored_rule_def reset_rpm_def)
  moreover have "d = rule_to_doc t r'" using assms(3) by (simp add: run_write_def)
  moreover have "r_id (reset_rpm r') = r_id r'" by (simp add: reset_rpm_def)
  ultimately show ?thesis
    using assms(2) by (simp add: listen_step_def upsert_doc_def Let_def)
      (simp add: stored_rule_def reset_rpm_def)
qed

definition empty_fs_store :: fs_store where
  "empty_fs_store = \<lparr>fs_collection = ''proxy-rules'', fs_rules = Map.empty, fs_pending = [],
     fs_stopped = False, fs_listening = True, fs_cleaning = True, fs_resetting = True\<rparr>"

definition example_rule :: rule where
  "example_rule = \<lparr>r_id = ''a'', r_target_host = ''h'', r_action = ''block'', r_max_rpm = 2,
     r_path_pattern = None, r_rate_by_key = False, r_limiter = [], r_throttle_delay_ms = 0,
     r_max_delay_slots = 0, r_duration_seconds = 60, r_expires_at = 100, r_current_rpm = 0\<rparr>"

theorem echo_resets_counter_witness:
  "fs_rules (listen_step Inr (Inr [DocAdded (rule_to_doc 7 (stored_rule 5 example_rule))]) empty_fs_store) ''a''
   = Some (stored_rule 5 example_rule)"
proof -
  have "r_id example_rule \<noteq> []" by (simp add: example_rule_def)
  from fs_set_is_stored[OF this, of 5 empty_fs_store]
  have s: "fs_set_rule 5 example_rule empty_fs_store = Inr (stored_rule 5 example_rule,
      empty_fs_store\<lparr>fs_rules := (fs_rules empty_fs_store)(r_id example_rule \<mapsto> stored_rule 5 example_rule),
        fs_pending := fs_pending empty_fs_store @ [SetDoc (stored_rule 5 example_rule)]\<rparr>)" .
  from echo_resets_counter[OF s, of empty_fs_store 7 "''c''" "rule_to_doc 7 (stored_rule 5 example_rule)"]
  show ?thesis by (simp add: empty_fs_store_def run_write_def example_rule_def)
qed

section \<open>A removed rule can return\<close>

text \<open>The change the collection reports for a write, by Firestore's contract.\<close>

fun write_changes :: "time \<Rightarrow> remote_write \<Rightarrow> rule_doc doc_change list" where
  "write_changes t (SetDoc r) = [DocAdded (rule_to_doc t r)]"
| "write_changes t (DeleteDoc rid) = [DocRemoved rid]"
| "write_changes t DeleteAllDocs = []"



section \<open>The initial load\<close>

lemma load_rules_stuck_aux:
  "load_rules nxt data_to now it rs = Some rs' \<Longrightarrow> nxt it \<noteq> (ItError e, it)"
proof (induction rule: load_rules.raw_induct[rotated, consumes 1, case_names step])
  case (step load nxt data_to now it rs rs')
  then show ?case by (auto split: prod.splits iter_item.splits)
qed

text \<open>
  The initial load ends only if the iterator does: when \<open>Next\<close> keeps failing with the
  same error, as it does once a snapshot cannot be read, the loop skips it for ever and the
  store is never created.
\<close>

theorem load_never_returns_on_sticky_error:
  assumes "nxt it = (ItError e, it)"
  shows "new_firestore_rule_store nxt data_to now prefix (Inr it) = None"
  using load_rules_stuck_aux[of nxt data_to now it Map.empty _ e] assms
  by (cases "load_rules nxt data_to now it Map.empty") (auto simp: new_firestore_rule_store_def)

theorem load_never_returns_on_sticky_error_witness:
  "new_firestore_rule_store (\<lambda>u. (ItError ''unavailable'', u)) Inr 5 ''proxy'' (Inr ()) = None"
  by (rule load_never_returns_on_sticky_error) (rule refl)

text \<open>The iterator over a list of items, which ends.\<close>

fun list_next :: "'d iter_item list \<Rightarrow> 'd iter_item \<times> 'd iter_item list" where
  "list_next [] = (ItDone, [])"
| "list_next (x # xs) = (x, xs)"

fun loaded :: "('d \<Rightarrow> (string, rule_doc) result) \<Rightarrow> time \<Rightarrow> 'd iter_item list \<Rightarrow> rules \<Rightarrow> rules" where
  "loaded data_to now [] rs = rs"
| "loaded data_to now (ItDone # xs) rs = rs"
| "loaded data_to now (ItError e # xs) rs = loaded data_to now xs rs"
| "loaded data_to now (ItDoc d # xs) rs = loaded data_to now xs (load_doc data_to now d rs)"

lemma load_rules_list: "load_rules list_next data_to now xs rs = Some (loaded data_to now xs rs)"
proof (induction xs arbitrary: rs)
  case Nil
  then show ?case by (subst load_rules.simps) simp
next
  case (Cons x xs)
  then show ?case by (subst load_rules.simps) (cases x; simp)
qed

lemma loaded_rules:
  "loaded data_to now xs rs k = Some r \<Longrightarrow> rs k = Some r \<or> r_id r = k \<and> rule_active now r \<and> r_current_rpm r = 0"
proof (induction data_to now xs rs rule: loaded.induct)
  case (4 data_to now d xs rs)
  then show ?case
    by (auto simp: load_doc_def doc_to_rule_def reset_rpm_def rule_active_def split: sum.splits if_splits)
qed auto



end
