(* ===== verification/Cluster.thy ===== *)
theory Cluster
  imports Firestore_Claims
begin

text \<open>
  Several instances over one Firestore collection: each serves requests and operators from its
  cache, its writes are goroutines of their own that commit in any order, every commit is a
  change that each instance's listener receives later, and instances restart. The documents
  say that all instances converge to the same rules; \<open>cluster_converges\<close> is that statement.

  The collection is a map of documents. A commit changes one document; the bulk delete reads
  the documents there are and then deletes them one by one. The changes an instance has not
  received yet are its queue, and a snapshot delivers any number of them in order. An expired
  document may disappear (the TTL policy). A write that fails is only logged, and an instance
  that lost one does not converge; writes do not fail here.
\<close>

section \<open>A rule and its document\<close>

type_synonym collection = "string \<rightharpoonup> rule_doc"

definition keyed :: "collection \<Rightarrow> bool" where
  "keyed docs \<longleftrightarrow> (\<forall>k d. docs k = Some d \<longrightarrow> rd_rule_id d = k)"

lemma keyed_upd: "keyed docs \<Longrightarrow> rd_rule_id d = k \<Longrightarrow> keyed (docs(k \<mapsto> d))" "keyed docs \<Longrightarrow> keyed (docs(k := None))"
  by (auto simp: keyed_def)

text \<open>
  A cached rule is its document's rule up to the counter; a document without a cached rule has
  expired.
\<close>

definition agrees :: "time \<Rightarrow> rule_doc option \<Rightarrow> rule option \<Rightarrow> bool" where
  "agrees now doc cached \<longleftrightarrow>
     (case cached of
        Some r \<Rightarrow> (\<exists>d. doc = Some d \<and> reset_rpm r = doc_to_rule d)
      | None \<Rightarrow> (\<forall>d. doc = Some d \<longrightarrow> \<not> time_after (rd_expires_at d) now))"

lemma agrees_simps [simp]:
  "agrees now doc (Some r) \<longleftrightarrow> (\<exists>d. doc = Some d \<and> reset_rpm r = doc_to_rule d)"
  "agrees now None None" "agrees now (Some d) None \<longleftrightarrow> \<not> time_after (rd_expires_at d) now"
  by (simp_all add: agrees_def)

lemma reset_reset [simp]: "reset_rpm (reset_rpm r) = reset_rpm r"
  by (simp add: reset_rpm_def)

lemma reset_count [simp]: "reset_rpm (r\<lparr>r_current_rpm := n\<rparr>) = reset_rpm r"
  by (simp add: reset_rpm_def)

lemma reset_doc [simp]: "reset_rpm (doc_to_rule d) = doc_to_rule d"
  by (simp add: doc_to_rule_def)

lemma doc_to_rule_fields [simp]:
  "r_id (doc_to_rule d) = rd_rule_id d" "r_expires_at (doc_to_rule d) = rd_expires_at d"
  by (simp_all add: doc_to_rule_def reset_rpm_def)

lemma expiry_of_doc: "reset_rpm r = doc_to_rule d \<Longrightarrow> r_expires_at r = rd_expires_at d"
  by (metis doc_to_rule_fields(2) reset_rpm_def rule.select_convs(11) rule.surjective rule.update_convs(12))

lemma agrees_later: "agrees t doc cached \<Longrightarrow> t \<le> now \<Longrightarrow> agrees now doc cached"
  by (auto simp: agrees_def go_time split: option.splits)

lemma agrees_live:
  assumes "agrees now doc cached"
  shows "(\<exists>r. cached = Some r \<and> rule_active now r \<and> reset_rpm r = rule)
     \<longleftrightarrow> (\<exists>d. doc = Some d \<and> time_after (rd_expires_at d) now \<and> doc_to_rule d = rule)"
proof (cases cached)
  case None
  then show ?thesis using assms by (cases doc) auto
next
  case (Some r)
  then obtain d where "doc = Some d" "reset_rpm r = doc_to_rule d" using assms by auto
  then show ?thesis using Some expiry_of_doc[of r d] by (auto simp: rule_active_def)
qed

section \<open>Changes on the way\<close>

fun change_rules :: "rule_doc doc_change \<Rightarrow> rules \<Rightarrow> rules" where
  "change_rules (DocAdded d) rs = rs(rd_rule_id d \<mapsto> doc_to_rule d)"
| "change_rules (DocModified d) rs = rs(rd_rule_id d \<mapsto> doc_to_rule d)"
| "change_rules (DocRemoved rid) rs = rs(rid := None)"

lemma apply_change_Inr: "apply_change Inr ch s = s\<lparr>fs_rules := change_rules ch (fs_rules s)\<rparr>"
  by (cases ch) (simp_all add: upsert_doc_def Let_def)

lemma fold_apply_change: "fold (apply_change Inr) cs s = s\<lparr>fs_rules := fold change_rules cs (fs_rules s)\<rparr>"
  by (induction cs arbitrary: s) (simp_all add: apply_change_Inr)

text \<open>At one key a queue either decides the value or leaves it.\<close>

lemma fold_changes_at:
  "(\<exists>v. \<forall>rs. fold change_rules cs rs k = v) \<or> (\<forall>rs. fold change_rules cs rs k = rs k)"
proof (induction cs)
  case (Cons c cs)
  show ?case
  proof (cases "\<exists>v. \<forall>rs. fold change_rules cs rs k = v")
    case True
    then show ?thesis by auto
  next
    case False
    then have "\<forall>rs. fold change_rules cs rs k = rs k" using Cons.IH by blast
    then have "\<forall>rs. fold change_rules (c # cs) rs k = change_rules c rs k" by simp
    moreover have "(\<exists>v. \<forall>rs. change_rules c rs k = v) \<or> (\<forall>rs. change_rules c rs k = rs k)"
      by (cases c) auto
    ultimately show ?thesis by simp
  qed
qed simp

section \<open>The cluster\<close>

record cluster =
  cl_now :: time
  cl_docs :: collection
  cl_inst :: "nat \<Rightarrow> fs_store"
  cl_queue :: "nat \<Rightarrow> rule_doc doc_change list"

definition put_inst :: "nat \<Rightarrow> fs_store \<Rightarrow> cluster \<Rightarrow> cluster" where
  "put_inst i s c = c\<lparr>cl_inst := (cl_inst c)(i := s)\<rparr>"

definition broadcast :: "collection \<times> rule_doc doc_change list \<Rightarrow> cluster \<Rightarrow> cluster" where
  "broadcast p c = c\<lparr>cl_docs := fst p, cl_queue := (\<lambda>i. cl_queue c i @ snd p)\<rparr>"

text \<open>
  What a call does to the collection, with the changes that listeners see. A call of the bulk
  delete itself changes nothing; its deletes follow.
\<close>

fun apply_call :: "remote_call \<Rightarrow> collection \<Rightarrow> collection \<times> rule_doc doc_change list" where
  "apply_call (CallSet coll rid d) docs =
     (docs(rid \<mapsto> d), [if docs rid = None then DocAdded d else DocModified d])"
| "apply_call (CallDelete coll rid) docs =
     (if docs rid = None then (docs, []) else (docs(rid := None), [DocRemoved rid]))"
| "apply_call (CallDeleteAll coll) docs = (docs, [])"

definition doc_items :: "collection \<Rightarrow> string list \<Rightarrow> rule_doc iter_item list" where
  "doc_items docs ks = map (\<lambda>k. ItDoc (the (docs k))) ks"

inductive cluster_step :: "cluster \<Rightarrow> cluster \<Rightarrow> bool" where
  sets: "fs_set_rule (cl_now c) r (cl_inst c i) = Inr (r', s) \<Longrightarrow> cluster_step c (put_inst i s c)"
| removes: "fs_remove_rule rid (cl_inst c i) = (found, s) \<Longrightarrow> cluster_step c (put_inst i s c)"
| clears: "fs_remove_all (cl_inst c i) = (n, s) \<Longrightarrow> cluster_step c (put_inst i s c)"
| decides: "fs_should_allow ks (cl_now c) host path (cl_inst c i) = (ok, s) \<Longrightarrow> cluster_step c (put_inst i s c)"
| cleans: "cluster_step c (put_inst i (cleanup_turn (Some (cl_now c)) (cl_inst c i)) c)"
| resets: "cluster_step c (put_inst i (reset_turn tick (cl_inst c i)) c)"
| commits: "fs_pending (cl_inst c i) = xs @ w # ys \<Longrightarrow> w \<noteq> DeleteAllDocs \<Longrightarrow>
    cluster_step c (broadcast (apply_call (run_write (cl_now c) (fs_collection (cl_inst c i)) w) (cl_docs c))
      (put_inst i ((cl_inst c i)\<lparr>fs_pending := xs @ ys\<rparr>) c))"
| bulk_delete: "fs_pending (cl_inst c i) = xs @ DeleteAllDocs # ys \<Longrightarrow> set ks = dom (cl_docs c) \<Longrightarrow>
    cluster_step c (put_inst i ((cl_inst c i)\<lparr>fs_pending := xs @ map DeleteDoc ks @ ys\<rparr>) c)"
| expires: "cl_docs c k = Some d \<Longrightarrow> \<not> time_after (rd_expires_at d) (cl_now c) \<Longrightarrow>
    cluster_step c (broadcast ((cl_docs c)(k := None), [DocRemoved k]) c)"
| delivers: "cl_queue c i = cs @ rest \<Longrightarrow> fs_listening (cl_inst c i) \<Longrightarrow>
    cluster_step c ((put_inst i (listen_step Inr (Inr cs) (cl_inst c i)) c)\<lparr>cl_queue := (cl_queue c)(i := rest)\<rparr>)"
| listener_fails: "cluster_step c (put_inst i (listen_step Inr (Inl e) (cl_inst c i)) c)"
| restarts: "distinct ks \<Longrightarrow> set ks = dom (cl_docs c) \<Longrightarrow>
    new_firestore_rule_store list_next Inr (cl_now c) prefix (Inr (doc_items (cl_docs c) ks)) = Some (Inr s) \<Longrightarrow>
    cluster_step c ((put_inst i s c)\<lparr>cl_queue := (cl_queue c)(i := [])\<rparr>)"
| waits: "cl_now c \<le> t \<Longrightarrow> cluster_step c (c\<lparr>cl_now := t\<rparr>)"

text \<open>A cluster starts with instances that have loaded the collection.\<close>

definition cluster_start :: "cluster \<Rightarrow> bool" where
  "cluster_start c \<longleftrightarrow> keyed (cl_docs c)
     \<and> (\<forall>i. cl_queue c i = [] \<and> fs_pending (cl_inst c i) = []
          \<and> (\<forall>k. agrees (cl_now c) (cl_docs c k) (fs_rules (cl_inst c i) k)))"

inductive cluster_reachable :: "cluster \<Rightarrow> bool" where
  started: "cluster_start c \<Longrightarrow> cluster_reachable c"
| moved: "cluster_reachable c \<Longrightarrow> cluster_step c c' \<Longrightarrow> cluster_reachable c'"

section \<open>Every disagreement is about to end\<close>

definition set_pending :: "fs_store \<Rightarrow> string \<Rightarrow> bool" where
  "set_pending s k \<longleftrightarrow> (\<exists>r. SetDoc r \<in> set (fs_pending s) \<and> r_id r = k)"

definition delete_pending :: "fs_store \<Rightarrow> string \<Rightarrow> bool" where
  "delete_pending s k \<longleftrightarrow> DeleteDoc k \<in> set (fs_pending s) \<or> DeleteAllDocs \<in> set (fs_pending s)"

text \<open>
  What an instance will have at a key once its queue is delivered agrees with the document, or
  a write of the instance that will change the document is still pending.
\<close>

definition settled :: "time \<Rightarrow> rule_doc option \<Rightarrow> fs_store \<Rightarrow> rule_doc doc_change list \<Rightarrow> string \<Rightarrow> bool" where
  "settled now doc s q k \<longleftrightarrow>
     agrees now doc (fold change_rules q (fs_rules s) k) \<or> set_pending s k \<or> (doc \<noteq> None \<and> delete_pending s k)"

definition cluster_ok :: "cluster \<Rightarrow> bool" where
  "cluster_ok c \<longleftrightarrow> keyed (cl_docs c) \<and> (\<forall>i k. settled (cl_now c) (cl_docs c k) (cl_inst c i) (cl_queue c i) k)"

lemma settled_local:
  assumes "settled now doc s q k" and "set (fs_pending s) \<subseteq> set (fs_pending s')"
    and "(agrees now doc (fs_rules s k) \<longrightarrow> agrees now doc (fs_rules s' k))
      \<or> set_pending s' k \<or> (fs_rules s' k = None \<and> delete_pending s' k)"
  shows "settled now doc s' q k"
proof -
  have pend: "set_pending s k \<Longrightarrow> set_pending s' k" "delete_pending s k \<Longrightarrow> delete_pending s' k"
    using assms(2) by (auto simp: set_pending_def delete_pending_def)
  from fold_changes_at[of q k] consider v where "\<And>rs. fold change_rules q rs k = v" | "\<And>rs. fold change_rules q rs k = rs k"
    by blast
  then show ?thesis
  proof cases
    case 1
    then show ?thesis using assms(1) pend by (auto simp: settled_def)
  next
    case 2
    then show ?thesis using assms(1,3) pend by (cases doc) (auto simp: settled_def)
  qed
qed

lemma cluster_ok_put:
  assumes "cluster_ok c" and "\<And>k. settled (cl_now c) (cl_docs c k) s (cl_queue c i) k"
  shows "cluster_ok (put_inst i s c)"
  using assms by (simp add: cluster_ok_def put_inst_def)

lemma cluster_ok_local:
  assumes "cluster_ok c" and "set (fs_pending (cl_inst c i)) \<subseteq> set (fs_pending s)"
    and "\<And>k doc. (agrees (cl_now c) doc (fs_rules (cl_inst c i) k) \<longrightarrow> agrees (cl_now c) doc (fs_rules s k))
      \<or> set_pending s k \<or> (fs_rules s k = None \<and> delete_pending s k)"
  shows "cluster_ok (put_inst i s c)"
  by (rule cluster_ok_put[OF assms(1)], rule settled_local[OF _ assms(2,3)]) (use assms(1) in \<open>simp add: cluster_ok_def\<close>)

text \<open>A commit settles its key for every instance and leaves the other keys alone.\<close>

lemma call_at:
  assumes "apply_call call docs = (docs', chs)" and "call = CallSet coll k d \<longrightarrow> rd_rule_id d = k"
    and "call = CallSet coll k d \<or> call = CallDelete coll k"
  shows "k' \<noteq> k \<Longrightarrow> docs' k' = docs k' \<and> fold change_rules chs rs k' = rs k'"
    and "chs \<noteq> [] \<Longrightarrow> agrees now (docs' k) (fold change_rules chs rs k)"
    and "chs = [] \<Longrightarrow> docs' = docs \<and> call = CallDelete coll k \<and> docs k = None"
  using assms by (auto split: if_splits)

lemma fold_changes_other: "\<forall>rs. fold change_rules chs rs k = rs k \<Longrightarrow> fold change_rules (q @ chs) rs k = fold change_rules q rs k"
  by simp

lemma written_call:
  assumes "w \<noteq> DeleteAllDocs"
  obtains k d where "run_write t coll w = CallSet coll k d" "rd_rule_id d = k" "\<exists>r. w = SetDoc r \<and> r_id r = k"
    | k where "run_write t coll w = CallDelete coll k" "w = DeleteDoc k"
  using assms by (cases w) (auto simp: run_write_def rule_to_doc_def)

lemma settled_fewer:
  assumes "settled now doc s q k" and "set_pending s k \<longrightarrow> set_pending s' k" and "doc \<noteq> None \<longrightarrow> delete_pending s k \<longrightarrow> delete_pending s' k"
    and "fs_rules s' = fs_rules s"
  shows "settled now doc s' q k"
  using assms by (auto simp: settled_def)

lemma pending_without:
  assumes "fs_pending s = xs @ w # ys" and "s' = s\<lparr>fs_pending := xs @ ys\<rparr>" and "w \<noteq> DeleteAllDocs"
  shows "(\<forall>r. w = SetDoc r \<longrightarrow> r_id r \<noteq> k) \<Longrightarrow> set_pending s' k = set_pending s k"
    and "w \<noteq> DeleteDoc k \<Longrightarrow> delete_pending s' k = delete_pending s k"
  using assms by (auto simp: set_pending_def delete_pending_def)

lemma commit_settles:
  assumes "settled now (docs k') s q k'" and "fs_rules s' = fs_rules s"
    and "apply_call call docs = (docs', chs)" and "call = CallSet coll k d \<longrightarrow> rd_rule_id d = k"
    and "call = CallSet coll k d \<or> call = CallDelete coll k"
    and "k' \<noteq> k \<longrightarrow> set_pending s' k' = set_pending s k' \<and> delete_pending s' k' = delete_pending s k'"
    and "call = CallDelete coll k \<longrightarrow> set_pending s' k = set_pending s k"
  shows "settled now (docs' k') s' (q @ chs) k'"
proof (cases "k' = k")
  case False
  then show ?thesis using call_at(1)[OF assms(3-5) False] assms(1,2,6) by (auto simp: settled_def)
next
  case True
  show ?thesis
  proof (cases "chs = []")
    case False
    then show ?thesis using call_at(2)[OF assms(3-5) False] True by (simp add: settled_def)
  next
    case empty: True
    from call_at(3)[OF assms(3-5) this] have "docs' = docs" "call = CallDelete coll k" "docs k = None" by auto
    then show ?thesis using assms(1,2,7) empty True by (auto simp: settled_def)
  qed
qed

lemma cluster_ok_commit:
  assumes "cluster_ok c" and "fs_pending (cl_inst c i) = xs @ w # ys" and "w \<noteq> DeleteAllDocs"
  shows "cluster_ok (broadcast (apply_call (run_write (cl_now c) coll w) (cl_docs c))
      (put_inst i ((cl_inst c i)\<lparr>fs_pending := xs @ ys\<rparr>) c))"
proof -
  let ?call = "run_write (cl_now c) coll w"
  obtain docs' chs where ap: "apply_call ?call (cl_docs c) = (docs', chs)" by fastforce
  let ?s = "(cl_inst c i)\<lparr>fs_pending := xs @ ys\<rparr>"
  obtain k d where k: "?call = CallSet coll k d \<longrightarrow> rd_rule_id d = k" "?call = CallSet coll k d \<or> ?call = CallDelete coll k"
    and w: "(\<exists>r. w = SetDoc r \<and> r_id r = k) \<or> w = DeleteDoc k" "?call = CallDelete coll k \<longrightarrow> w = DeleteDoc k"
  proof (rule written_call[OF assms(3), of "cl_now c" coll])
    fix k d assume "?call = CallSet coll k d" "rd_rule_id d = k" "\<exists>r. w = SetDoc r \<and> r_id r = k"
    then show thesis by (intro that[of k d]) auto
  next
    fix k assume "?call = CallDelete coll k" "w = DeleteDoc k"
    then show thesis by (intro that[of k undefined]) auto
  qed
  have ok: "settled (cl_now c) (cl_docs c k') (cl_inst c j) (cl_queue c j) k'" for j k'
    using assms(1) by (simp add: cluster_ok_def)
  have i: "settled (cl_now c) (docs' k') ?s (cl_queue c i @ chs) k'" for k'
  proof (rule commit_settles[OF ok _ ap k])
    show "k' \<noteq> k \<longrightarrow> set_pending ?s k' = set_pending (cl_inst c i) k' \<and> delete_pending ?s k' = delete_pending (cl_inst c i) k'"
      using w(1) pending_without[OF assms(2) refl assms(3)] by auto
    show "?call = CallDelete coll k \<longrightarrow> set_pending ?s k = set_pending (cl_inst c i) k"
      using w(2) pending_without(1)[OF assms(2) refl assms(3)] by auto
  qed simp
  have j: "settled (cl_now c) (docs' k') (cl_inst c j) (cl_queue c j @ chs) k'" for j k'
    by (rule commit_settles[OF ok _ ap k]) simp_all
  have "keyed docs'"
    using ap k assms(1) by (auto simp: cluster_ok_def keyed_def split: if_splits)
  then show ?thesis using i j by (simp add: ap cluster_ok_def broadcast_def put_inst_def)
qed

lemma cluster_ok_expire:
  assumes "cluster_ok c"
  shows "cluster_ok (broadcast ((cl_docs c)(k := None), [DocRemoved k]) c)"
proof -
  have "settled (cl_now c) (((cl_docs c)(k := None)) k') (cl_inst c j) (cl_queue c j @ [DocRemoved k]) k'" for j k'
    using assms by (cases "k' = k") (auto simp: cluster_ok_def settled_def)
  then show ?thesis using assms by (simp add: cluster_ok_def broadcast_def keyed_upd del: fun_upd_apply)
qed

lemma cluster_ok_bulk:
  assumes "cluster_ok c" and "fs_pending (cl_inst c i) = xs @ DeleteAllDocs # ys" and "set ks = dom (cl_docs c)"
  shows "cluster_ok (put_inst i ((cl_inst c i)\<lparr>fs_pending := xs @ map DeleteDoc ks @ ys\<rparr>) c)"
proof (rule cluster_ok_put[OF assms(1)], rule settled_fewer)
  fix k
  show "settled (cl_now c) (cl_docs c k) (cl_inst c i) (cl_queue c i) k" using assms(1) by (simp add: cluster_ok_def)
  show "set_pending (cl_inst c i) k \<longrightarrow> set_pending ((cl_inst c i)\<lparr>fs_pending := xs @ map DeleteDoc ks @ ys\<rparr>) k"
    using assms(2) by (auto simp: set_pending_def)
  show "cl_docs c k \<noteq> None \<longrightarrow> delete_pending (cl_inst c i) k
      \<longrightarrow> delete_pending ((cl_inst c i)\<lparr>fs_pending := xs @ map DeleteDoc ks @ ys\<rparr>) k"
    using assms(3) by (auto simp: delete_pending_def)
qed simp

lemma cluster_ok_deliver:
  assumes "cluster_ok c" and "cl_queue c i = cs @ rest" and "fs_listening (cl_inst c i)"
  shows "cluster_ok ((put_inst i (listen_step Inr (Inr cs) (cl_inst c i)) c)\<lparr>cl_queue := (cl_queue c)(i := rest)\<rparr>)"
proof -
  have "settled (cl_now c) (cl_docs c k) (listen_step Inr (Inr cs) (cl_inst c i)) rest k" for k
  proof -
    have "settled (cl_now c) (cl_docs c k) (cl_inst c i) (cs @ rest) k"
      using assms(1,2) unfolding cluster_ok_def by metis
    then show ?thesis
      using assms(3) by (simp add: settled_def set_pending_def delete_pending_def listen_step_def fold_apply_change)
  qed
  then show ?thesis using assms(1) by (simp add: cluster_ok_def put_inst_def)
qed

text \<open>What an instance that starts loads from the collection.\<close>

lemma load_doc_at:
  "load_doc Inr now d rs k = (if k = rd_rule_id d \<and> time_after (rd_expires_at d) now then Some (doc_to_rule d) else rs k)"
  by (auto simp: load_doc_def)

lemma loaded_docs:
  assumes "keyed docs" and "set ks \<subseteq> dom docs" and "distinct ks"
  shows "loaded Inr now (doc_items docs ks) rs k =
    (case docs k of Some d \<Rightarrow> if k \<in> set ks \<and> time_after (rd_expires_at d) now then Some (doc_to_rule d) else rs k | None \<Rightarrow> rs k)"
  using assms(2,3)
proof (induction ks arbitrary: rs)
  case Nil
  then show ?case by (simp add: doc_items_def split: option.split)
next
  case (Cons a ks)
  then obtain d where d: "docs a = Some d" by auto
  then have id: "rd_rule_id d = a" using assms(1) by (simp add: keyed_def)
  have "loaded Inr now (doc_items docs (a # ks)) rs k = loaded Inr now (doc_items docs ks) (load_doc Inr now d rs) k"
    by (simp add: doc_items_def d)
  also have "\<dots> = (case docs k of Some d' \<Rightarrow> if k \<in> set ks \<and> time_after (rd_expires_at d') now then Some (doc_to_rule d')
      else load_doc Inr now d rs k | None \<Rightarrow> load_doc Inr now d rs k)"
    using Cons by simp
  finally show ?case using Cons.prems d id by (auto simp: load_doc_at split: option.split)
qed

lemma loaded_agrees:
  assumes "keyed docs" and "set ks = dom docs" and "distinct ks"
    and "new_firestore_rule_store list_next Inr now prefix (Inr (doc_items docs ks)) = Some (Inr s)"
  shows "agrees now (docs k) (fs_rules s k)"
proof -
  have "fs_rules s = loaded Inr now (doc_items docs ks) Map.empty"
    using assms(4) by (auto simp: new_firestore_rule_store_def load_rules_list)
  then have "fs_rules s k = (case docs k of Some d \<Rightarrow> if time_after (rd_expires_at d) now then Some (doc_to_rule d) else None | None \<Rightarrow> None)"
    using loaded_docs[OF assms(1) _ assms(3), of now Map.empty k] assms(2) by (auto split: option.split)
  then show ?thesis by (auto split: option.splits)
qed

lemma loop_keeps_agrees:
  "agrees now doc (rs k) \<longrightarrow> agrees now doc (snd (fs_should_allow_loop ks t host path rs) k)"
proof (induction ks arbitrary: rs)
  case (Cons a ks)
  then show ?case by (auto split: option.splits simp: increment_rpm_def)
qed simp

lemma step_keeps_ok: "cluster_step c c' \<Longrightarrow> cluster_ok c \<Longrightarrow> cluster_ok c'"
proof (induction rule: cluster_step.induct)
  case (sets c r i r' s)
  then have "r_id r \<noteq> []" by (auto simp: fs_set_rule_def)
  then have s: "fs_rules s = (fs_rules (cl_inst c i))(r_id r \<mapsto> stored_rule (cl_now c) r)"
    "fs_pending s = fs_pending (cl_inst c i) @ [SetDoc (stored_rule (cl_now c) r)]"
    using fs_set_is_stored[of r "cl_now c" "cl_inst c i"] sets by auto
  then show ?case by (intro cluster_ok_local[OF sets(2)]) (auto simp: set_pending_def)
next
  case (removes rid c i found s)
  then show ?case
    by (intro cluster_ok_local[OF removes(2)]) (auto simp: fs_remove_rule_def delete_pending_def split: if_splits)
next
  case (clears c i n s)
  then show ?case
    by (intro cluster_ok_local[OF clears(2)]) (auto simp: fs_remove_all_def delete_pending_def)
next
  case (decides ks c host path i ok s)
  then have s: "s = (cl_inst c i)\<lparr>fs_rules := snd (fs_should_allow_loop ks (cl_now c) host path (fs_rules (cl_inst c i)))\<rparr>"
    by (auto simp: fs_should_allow_def split: prod.splits)
  then show ?case using loop_keeps_agrees by (intro cluster_ok_local[OF decides(2)]) auto
next
  case (cleans c i)
  show ?case
  proof (rule cluster_ok_local[OF cleans])
    fix k doc
    have "agrees (cl_now c) doc (keep_entries (\<lambda>_ r. time_after (r_expires_at r) (cl_now c)) (fs_rules (cl_inst c i)) k)"
      if "agrees (cl_now c) doc (fs_rules (cl_inst c i) k)"
      using that expiry_of_doc by (cases "fs_rules (cl_inst c i) k") (auto simp: keep_entries_def)
    then show "(agrees (cl_now c) doc (fs_rules (cl_inst c i) k)
        \<longrightarrow> agrees (cl_now c) doc (fs_rules (cleanup_turn (Some (cl_now c)) (cl_inst c i)) k))
      \<or> set_pending (cleanup_turn (Some (cl_now c)) (cl_inst c i)) k
      \<or> (fs_rules (cleanup_turn (Some (cl_now c)) (cl_inst c i)) k = None
         \<and> delete_pending (cleanup_turn (Some (cl_now c)) (cl_inst c i)) k)"
      by (simp add: cleanup_turn_def fs_delete_expired_def)
  qed (simp add: cleanup_turn_def fs_delete_expired_def)
next
  case (resets c i tick)
  have "agrees t doc (map_option reset_rpm x) = agrees t doc x" for t doc x by (cases x) auto
  then show ?case
    by (intro cluster_ok_local[OF resets]) (auto simp: reset_turn_def fs_reset_all_rpm_def)
next
  case (commits c i xs w ys)
  then show ?case using cluster_ok_commit by blast
next
  case (bulk_delete c i xs ys ks)
  then show ?case using cluster_ok_bulk by blast
next
  case (expires c k d)
  then show ?case using cluster_ok_expire by blast
next
  case (delivers c i cs rest)
  then show ?case using cluster_ok_deliver by blast
next
  case (listener_fails c i e)
  then show ?case by (intro cluster_ok_local[OF listener_fails]) (auto simp: listen_step_def)
next
  case (restarts ks c prefix s i)
  have "agrees (cl_now c) (cl_docs c k) (fs_rules s k)" for k
    using loaded_agrees[OF _ restarts(2,1,3)] restarts(4) by (simp add: cluster_ok_def)
  then show ?case using restarts(4) by (simp add: cluster_ok_def put_inst_def settled_def)
next
  case (waits c t)
  then show ?case using agrees_later by (fastforce simp: cluster_ok_def settled_def)
qed

lemma cluster_reachable_ok: "cluster_reachable c \<Longrightarrow> cluster_ok c"
proof (induction rule: cluster_reachable.induct)
  case (started c)
  then show ?case by (simp add: cluster_start_def cluster_ok_def settled_def)
qed (rule step_keeps_ok)


text \<open>Two instances, one of which sets a rule that is then committed and delivered.\<close>

definition quiet_cluster :: cluster where
  "quiet_cluster = \<lparr>cl_now = 5, cl_docs = Map.empty, cl_inst = (\<lambda>_. empty_fs_store), cl_queue = (\<lambda>_. [])\<rparr>"

lemma quiet_start: "cluster_reachable quiet_cluster"
  by (rule started) (simp add: cluster_start_def quiet_cluster_def empty_fs_store_def keyed_def)

definition example_doc :: rule_doc where
  "example_doc = rule_to_doc 5 (stored_rule 5 example_rule)"

lemma example_propagates:
  obtains c where "cluster_reachable c" "cl_docs c = [''a'' \<mapsto> example_doc]" "cl_queue c 1 = []"
    "fs_pending (cl_inst c 1) = []" "cl_now c = 5"
proof -
  have ne: "r_id example_rule \<noteq> []" by (simp add: example_rule_def)
  let ?s = "empty_fs_store\<lparr>fs_rules := [''a'' \<mapsto> stored_rule 5 example_rule], fs_pending := [SetDoc (stored_rule 5 example_rule)]\<rparr>"
  let ?c1 = "put_inst 0 ?s quiet_cluster"
  have "fs_set_rule (cl_now quiet_cluster) example_rule (cl_inst quiet_cluster 0) = Inr (stored_rule 5 example_rule, ?s)"
    using fs_set_is_stored[OF ne, of 5 empty_fs_store]
    by (simp add: quiet_cluster_def) (simp add: empty_fs_store_def example_rule_def)
  then have r1: "cluster_reachable ?c1" by (rule moved[OF quiet_start sets])
  let ?c2 = "broadcast (apply_call (run_write (cl_now ?c1) (fs_collection (cl_inst ?c1 0)) (SetDoc (stored_rule 5 example_rule)))
      (cl_docs ?c1)) (put_inst 0 ((cl_inst ?c1 0)\<lparr>fs_pending := [] @ []\<rparr>) ?c1)"
  have "fs_pending (cl_inst ?c1 0) = [] @ SetDoc (stored_rule 5 example_rule) # []" by (simp add: put_inst_def)
  then have r2: "cluster_reachable ?c2" by (rule moved[OF r1 commits]) simp
  have q2: "cl_queue ?c2 1 = [DocAdded example_doc] @ []" "fs_listening (cl_inst ?c2 1)" "cl_docs ?c2 = [''a'' \<mapsto> example_doc]"
    "fs_pending (cl_inst ?c2 1) = []" "cl_now ?c2 = 5"
    by (simp_all add: broadcast_def put_inst_def quiet_cluster_def run_write_def empty_fs_store_def example_doc_def example_rule_def)
  obtain c2 where c2: "cluster_reachable c2" "cl_queue c2 1 = [DocAdded example_doc] @ []" "fs_listening (cl_inst c2 1)"
    "cl_docs c2 = [''a'' \<mapsto> example_doc]" "fs_pending (cl_inst c2 1) = []" "cl_now c2 = 5"
    using r2 q2 by blast
  have "cluster_reachable ((put_inst 1 (listen_step Inr (Inr [DocAdded example_doc]) (cl_inst c2 1)) c2)\<lparr>cl_queue := (cl_queue c2)(1 := [])\<rparr>)"
    using c2(2,3) by (rule moved[OF c2(1) delivers])
  then show thesis
    by (rule that) (use c2 in \<open>simp_all add: put_inst_def listen_step_def upsert_doc_def Let_def\<close>)
qed


section \<open>A listener that failed\<close>

text \<open>
  An error of the snapshot iterator ends the listener for good: whatever arrives afterwards,
  the instance keeps deciding by the rules it had, with its own operations only.
\<close>

theorem failed_listener_never_recovers:
  "fold (\<lambda>snap s. listen_step data_to snap s) snaps (listen_step data_to (Inl e) s) = listen_step data_to (Inl e) s
   \<and> fs_rules (listen_step data_to (Inl e) s) = fs_rules s"
proof -
  have dead: "fold (\<lambda>snap s. listen_step data_to snap s) snaps s = s" if "\<not> fs_listening s" for s
    using that by (induction snaps) (simp_all add: listen_step_def)
  show ?thesis by (rule conjI, rule dead) (simp_all add: listen_step_def)
qed

end
