(* ===== verification/Firestore_KV.thy ===== *)
theory Firestore_KV
  imports Firestore
begin

text \<open>
  The key-value store over a client that keeps Firestore's contract: it implements the
  interface \<open>kv_store\<close>, for the keys that survive the document naming and the range query.
\<close>

section \<open>The key-value store\<close>

lemma replace_slash: "replace_all ''/'' new s = concat (map (\<lambda>c. if c = CHR ''/'' then new else [c]) s)"
  by (induction s) (auto simp: replace_all_Cons)

lemma sanitize_plain: "CHR ''/'' \<notin> set k \<Longrightarrow> sanitize_doc_id k = k"
proof -
  assume "CHR ''/'' \<notin> set k"
  then have "\<not> contains k ''/''" by (auto simp: contains_iff)
  then show ?thesis by (simp add: sanitize_doc_id_def replace_all_absent)
qed

text \<open>
  Document names collide: a key with a slash and the key with two underscores in its
  place name one document, so whatever the client does, each reads, overwrites and deletes
  the other's value.
\<close>

theorem doc_ids_collide:
  "fs_kv_get cl coll (a @ ''/'' @ b) = fs_kv_get cl coll (a @ ''__'' @ b)
   \<and> fs_kv_delete cl coll (a @ ''/'' @ b) = fs_kv_delete cl coll (a @ ''__'' @ b)
   \<and> a @ ''/'' @ b \<noteq> a @ ''__'' @ b"
  by (auto simp: fun_eq_iff fs_kv_get_def fs_kv_delete_def sanitize_doc_id_def replace_slash)

text \<open>
  The client's contract, Firestore's documented behaviour: reads return the stored document
  and decode to what was written, successful writes and deletes change that document alone,
  and a query returns the documents whose key is in the range, ordered by key.
\<close>

definition query_ok :: "('d \<Rightarrow> (string, kv_doc) result) \<Rightarrow> (string \<rightharpoonup> kv_doc) \<Rightarrow> string \<Rightarrow> string \<Rightarrow> 'd list \<Rightarrow> bool" where
  "query_ok data_to docs lo hi ds \<longleftrightarrow>
     (\<exists>ids. distinct ids \<and> set ids = {i. \<exists>kv. docs i = Some kv \<and> lo \<le> kd_key kv \<and> kd_key kv < hi}
        \<and> map data_to ds = map (\<lambda>i. Inr (the (docs i))) ids
        \<and> sorted (map (\<lambda>i. kd_key (the (docs i))) ids))"

definition client_documented :: "('c, 'd) kv_client \<Rightarrow> string \<Rightarrow> ('c \<Rightarrow> string \<rightharpoonup> kv_doc) \<Rightarrow> bool" where
  "client_documented cl coll docs \<longleftrightarrow>
     (\<forall>i c. cl_get cl coll i c = NotFound \<longrightarrow> docs c i = None)
   \<and> (\<forall>i c d. cl_get cl coll i c = Found d \<longrightarrow> (\<exists>kv. cl_data_to cl d = Inr kv \<and> docs c i = Some kv))
   \<and> (\<forall>i kv c c'. cl_set cl coll i kv c = (None, c') \<longrightarrow> docs c' = (docs c)(i \<mapsto> kv))
   \<and> (\<forall>i c c'. cl_delete cl coll i c = (None, c') \<longrightarrow> docs c' = (docs c)(i := None))
   \<and> (\<forall>lo hi c ds. cl_query cl coll lo hi c = map Inr ds \<longrightarrow> query_ok (cl_data_to cl) (docs c) lo hi ds)"

text \<open>The keys that the naming keeps apart and the range query finds under every prefix.\<close>

definition plain_key :: "string \<Rightarrow> bool" where
  "plain_key k \<longleftrightarrow> list_all (\<lambda>c. c \<noteq> CHR ''/'' \<and> (of_char c :: nat) < 239) k"

definition kv_view :: "('c \<Rightarrow> string \<rightharpoonup> kv_doc) \<Rightarrow> 'c \<Rightarrow> string \<rightharpoonup> string" where
  "kv_view docs c = (\<lambda>k. map_option kd_data (docs c k))"

definition kv_ok :: "('c \<Rightarrow> string \<rightharpoonup> kv_doc) \<Rightarrow> 'c \<Rightarrow> bool" where
  "kv_ok docs c \<longleftrightarrow> (\<forall>i kv. docs c i = Some kv \<longrightarrow> plain_key i \<and> kd_key kv = i)"

lemma between_has_prefix: "(p::string) \<le> k \<Longrightarrow> k < p @ q \<Longrightarrow> has_prefix k p"
proof (induction p arbitrary: k)
  case (Cons c p)
  then show ?case by (cases k) auto
qed simp

lemma less_append_same: "((p::string) @ r < p @ q) = (r < q)"
  by (induction p) auto

lemma le_append: "(p::string) \<le> p @ r"
  by (induction p) auto

lemma plain_below_end: "plain_key (p @ r) \<Longrightarrow> p @ r < list_end p"
  unfolding list_end_def less_append_same
  by (cases r) (auto simp: plain_key_def less_char_def)

lemma range_is_prefix: "plain_key k \<Longrightarrow> (p \<le> k \<and> k < list_end p) \<longleftrightarrow> has_prefix k p"
  using between_has_prefix[of p k] plain_below_end[of p] le_append[of p]
  by (auto simp: list_end_def has_prefix_iff)

lemma list_loop_Inr:
  "fs_kv_list_loop data_to items = Inr ks \<Longrightarrow> \<exists>ds. items = map Inr ds"
proof (induction data_to items arbitrary: ks rule: fs_kv_list_loop.induct)
  case (3 data_to d items)
  then obtain ks' where "fs_kv_list_loop data_to items = Inr ks'"
    by (auto simp: bind_result_Inr_iff split: sum.splits)
  with 3 obtain ds where "items = map Inr ds" by (cases "data_to d") blast+
  then show ?case by (auto intro: exI[of _ "d # ds"])
qed auto

lemma list_loop_keys:
  "map data_to ds = map Inr kvs \<Longrightarrow> fs_kv_list_loop data_to (map Inr ds) = Inr (map kd_key kvs)"
  by (induction ds arbitrary: kvs) (auto simp: map_eq_Cons_conv)

lemma fs_kv_list_spec:
  assumes "client_documented cl coll docs" and "fs_kv_list cl coll p c = Inr ks"
  shows "\<exists>ids. distinct ids
      \<and> set ids = {i. \<exists>kv. docs c i = Some kv \<and> p \<le> kd_key kv \<and> kd_key kv < list_end p}
      \<and> ks = map (\<lambda>i. kd_key (the (docs c i))) ids \<and> sorted ks"
proof -
  obtain ds where ds: "cl_query cl coll p (list_end p) c = map Inr ds"
    using assms(2) list_loop_Inr unfolding fs_kv_list_def by blast
  then have "query_ok (cl_data_to cl) (docs c) p (list_end p) ds"
    using assms(1) by (simp add: client_documented_def)
  then obtain ids where ids: "distinct ids"
      "set ids = {i. \<exists>kv. docs c i = Some kv \<and> p \<le> kd_key kv \<and> kd_key kv < list_end p}"
      "map (cl_data_to cl) ds = map (\<lambda>i. Inr (the (docs c i))) ids"
      "sorted (map (\<lambda>i. kd_key (the (docs c i))) ids)"
    unfolding query_ok_def by blast
  have "map (cl_data_to cl) ds = map Inr (map (\<lambda>i. the (docs c i)) ids)" using ids(3) by simp
  from list_loop_keys[OF this] have "ks = map (\<lambda>i. kd_key (the (docs c i))) ids"
    using assms(2) ds by (simp add: fs_kv_list_def comp_def)
  with ids show ?thesis by blast
qed

lemma fs_kv_list_ok:
  assumes "client_documented cl coll docs" and "kv_ok docs c" and "fs_kv_list cl coll p c = Inr ks"
  shows "sorted ks \<and> distinct ks \<and> set ks = {k \<in> dom (kv_view docs c). has_prefix k p}"
proof -
  from fs_kv_list_spec[OF assms(1,3)] obtain ids where ids: "distinct ids"
      "set ids = {i. \<exists>kv. docs c i = Some kv \<and> p \<le> kd_key kv \<and> kd_key kv < list_end p}"
      "ks = map (\<lambda>i. kd_key (the (docs c i))) ids" "sorted ks" by blast
  have "\<forall>i \<in> set ids. kd_key (the (docs c i)) = i"
    using ids(2) assms(2) by (auto simp: kv_ok_def)
  then have "ks = ids" using ids(3) by (simp add: map_idI)
  moreover have "set ids = {k \<in> dom (kv_view docs c). has_prefix k p}"
    using ids(2) assms(2) by (auto simp: kv_ok_def kv_view_def range_is_prefix[symmetric])
  ultimately show ?thesis using ids by blast
qed

text \<open>Over such a client the Firestore store keeps the contract of the interface.\<close>

lemma firestore_kv_store:
  assumes "client_documented cl coll docs"
  shows "kv_store (fs_kv_get cl coll) (fs_kv_set cl coll) (fs_kv_delete cl coll)
    (\<lambda>_. fs_kv_list cl coll) (kv_view docs) (kv_ok docs) plain_key (\<lambda>_ _. True)"
proof unfold_locales
  fix c k w assume k: "plain_key k" and w: "fs_kv_get cl coll k c = Inr w"
  then have "sanitize_doc_id k = k" by (intro sanitize_plain) (auto simp: plain_key_def list_all_iff)
  then show "w = kv_view docs c k"
    using assms w by (fastforce simp: fs_kv_get_def kv_view_def client_documented_def split: get_reply.splits sum.splits)
next
  fix c k v c' assume ok: "kv_ok docs c" and k: "plain_key k" and w: "fs_kv_set cl coll k v c = (None, c')"
  then have "sanitize_doc_id k = k" by (intro sanitize_plain) (auto simp: plain_key_def list_all_iff)
  then have "docs c' = (docs c)(k \<mapsto> \<lparr>kd_key = k, kd_data = v\<rparr>)"
    using assms w by (simp add: fs_kv_set_def client_documented_def)
  then show "kv_ok docs c' \<and> kv_view docs c' = (kv_view docs c)(k \<mapsto> v)"
    using ok k by (auto simp: kv_ok_def kv_view_def)
next
  fix c k c' assume ok: "kv_ok docs c" and k: "plain_key k" and w: "fs_kv_delete cl coll k c = (None, c')"
  then have "sanitize_doc_id k = k" by (intro sanitize_plain) (auto simp: plain_key_def list_all_iff)
  then have "docs c' = (docs c)(k := None)"
    using assms w by (simp add: fs_kv_delete_def client_documented_def)
  then show "kv_ok docs c' \<and> kv_view docs c' = (kv_view docs c)(k := None)"
    using ok by (auto simp: kv_ok_def kv_view_def)
qed (use fs_kv_list_ok[OF assms] in blast)

text \<open>A client that keeps the contract: the collection is a map in memory.\<close>

definition map_client :: "(string \<rightharpoonup> kv_doc, kv_doc) kv_client" where
  "map_client =
     \<lparr>cl_get = (\<lambda>coll i c. case c i of None \<Rightarrow> NotFound | Some kv \<Rightarrow> Found kv),
      cl_set = (\<lambda>coll i kv c. (None, c(i \<mapsto> kv))),
      cl_delete = (\<lambda>coll i c. (None, c(i := None))),
      cl_query = (\<lambda>coll lo hi c.
        if finite (dom c)
        then map (\<lambda>i. Inr (the (c i)))
               (sort_key (\<lambda>i. kd_key (the (c i)))
                 (sorted_list_of_set {i. \<exists>kv. c i = Some kv \<and> lo \<le> kd_key kv \<and> kd_key kv < hi}))
        else [Inl ''too large'']),
      cl_data_to = Inr\<rparr>"

lemma map_client_items:
  "finite (dom c) \<Longrightarrow> \<exists>is. cl_query map_client coll lo hi c = map Inr (map (\<lambda>i. the (c i)) is)"
  by (rule exI[of _ "sort_key (\<lambda>i. kd_key (the (c i)))
      (sorted_list_of_set {i. \<exists>kv. c i = Some kv \<and> lo \<le> kd_key kv \<and> kd_key kv < hi})"])
    (simp add: map_client_def)

lemma map_client_query:
  assumes "cl_query map_client coll lo hi c = map Inr ds"
  shows "query_ok Inr c lo hi ds"
proof -
  let ?S = "{i. \<exists>kv. c i = Some kv \<and> lo \<le> kd_key kv \<and> kd_key kv < hi}"
  let ?ids = "sort_key (\<lambda>i. kd_key (the (c i))) (sorted_list_of_set ?S)"
  have fin: "finite (dom c)"
    using assms by (cases "finite (dom c)") (auto simp: map_client_def Cons_eq_map_conv)
  then have "finite ?S" by (rule rev_finite_subset) auto
  then have "distinct ?ids" and "set ?ids = ?S" by simp_all
  moreover have "map (Inr :: kv_doc \<Rightarrow> (string, kv_doc) result) ds = map (\<lambda>i. Inr (the (c i))) ?ids"
    using assms fin by (simp add: map_client_def)
  ultimately show ?thesis unfolding query_ok_def by (intro exI[of _ ?ids]) (simp add: sorted_sort_key)
qed

lemma map_client_documented: "client_documented map_client coll (\<lambda>c. c)"
  unfolding client_documented_def
  using map_client_query by (auto simp: map_client_def split: option.splits)

text \<open>
  C35. Over a client that keeps Firestore's contract, the Firestore key-value store behaves
  as a map, for keys without a slash and without bytes from 0xEF on: after a write that
  succeeds the value is read back, every other key reads as before, a listing is sorted and
  holds the key exactly if it has the prefix, and after a deletion the key is gone.
\<close>

theorem firestore_kv_implements_store:
  assumes "client_documented cl coll docs" and "kv_ok docs c" and "plain_key k"
    and "fs_kv_set cl coll k v c = (None, c1)"
  shows "kv_ok docs c1
    \<and> (fs_kv_get cl coll k c1 = Inr w \<longrightarrow> w = Some v)
    \<and> (plain_key j \<and> j \<noteq> k \<and> fs_kv_get cl coll j c = Inr u \<and> fs_kv_get cl coll j c1 = Inr u' \<longrightarrow> u' = u)
    \<and> (fs_kv_list cl coll p c1 = Inr ks \<longrightarrow> sorted ks \<and> distinct ks \<and> (k \<in> set ks) = has_prefix k p)
    \<and> (fs_kv_delete cl coll k c1 = (None, c2) \<and> fs_kv_get cl coll k c2 = Inr w2 \<longrightarrow> w2 = None)"
proof -
  note kv = firestore_kv_store[OF assms(1)]
  have ok1: "kv_ok docs c1" using kv_store.put_view[OF kv assms(2-4)] by blast
  have "fs_kv_get cl coll k c1 = Inr w \<longrightarrow> w = Some v"
    using kv_store.get_after_put[OF kv assms(2-4)] by blast
  moreover have "plain_key j \<and> j \<noteq> k \<and> fs_kv_get cl coll j c = Inr u \<and> fs_kv_get cl coll j c1 = Inr u' \<longrightarrow> u' = u"
    using kv_store.get_other_after_put[OF kv assms(2,3) _ _ assms(4)] by blast
  moreover have "fs_kv_list cl coll p c1 = Inr ks \<longrightarrow> sorted ks \<and> distinct ks \<and> (k \<in> set ks) = has_prefix k p"
    using kv_store.put_listed[OF kv assms(2-4)] fs_kv_list_ok[OF assms(1) ok1] by blast
  moreover have "fs_kv_delete cl coll k c1 = (None, c2) \<and> fs_kv_get cl coll k c2 = Inr w2 \<longrightarrow> w2 = None"
    using kv_store.get_after_del[OF kv ok1 assms(3)] by blast
  ultimately show ?thesis using ok1 by blast
qed

theorem firestore_kv_implements_store_witness:
  "fs_kv_get map_client ''kv'' ''a'' (snd (fs_kv_set map_client ''kv'' ''a'' ''1'' Map.empty)) = Inr (Some ''1'')"
proof -
  let ?c1 = "snd (fs_kv_set map_client ''kv'' ''a'' ''1'' Map.empty)"
  have ok: "kv_ok (\<lambda>c. c) Map.empty" by (simp add: kv_ok_def)
  have k: "plain_key ''a''" by (simp add: plain_key_def)
  have s: "fs_kv_set map_client ''kv'' ''a'' ''1'' Map.empty = (None, ?c1)" by (simp add: fs_kv_set_def map_client_def)
  have "\<exists>w. fs_kv_get map_client ''kv'' ''a'' ?c1 = Inr w"
    by (simp add: fs_kv_get_def map_client_def split: option.split)
  then obtain w where w: "fs_kv_get map_client ''kv'' ''a'' ?c1 = Inr w" by blast
  then show ?thesis using firestore_kv_implements_store[OF map_client_documented ok k s, of w] by simp
qed

text \<open>
  A listing misses keys: over a client that keeps the contract, a key that continues the
  prefix with a byte above 0xEF, as every character outside the basic plane does in UTF-8,
  is never listed, although it is stored and starts with the prefix.
\<close>

theorem listing_misses_supplementary_keys:
  assumes "client_documented cl coll docs" and "fs_kv_list cl coll p c = Inr ks"
    and "239 < (of_char b :: nat)"
  shows "p @ b # r \<notin> set ks"
proof -
  from fs_kv_list_spec[OF assms(1,2)] have "\<forall>k \<in> set ks. k < list_end p" by auto
  moreover have "\<not> p @ b # r < list_end p"
    unfolding list_end_def less_append_same using assms(3) by (auto simp: less_char_def)
  ultimately show ?thesis by blast
qed

theorem listing_misses_supplementary_keys_witness:
  "\<exists>c ks. fs_kv_get map_client ''kv'' [CHR ''a'', CHR 0xF0] c = Inr (Some ''v'')
     \<and> fs_kv_list map_client ''kv'' ''a'' c = Inr ks \<and> [CHR ''a'', CHR 0xF0] \<notin> set ks"
proof -
  let ?k = "[CHR ''a'', CHR 0xF0]"
  let ?c = "[?k \<mapsto> \<lparr>kd_key = ?k, kd_data = ''v''\<rparr>]"
  have doc: "client_documented map_client ''kv'' (\<lambda>c. c)"
    unfolding client_documented_def
    using map_client_query by (auto simp: map_client_def split: option.splits)
  have got: "fs_kv_get map_client ''kv'' ?k ?c = Inr (Some ''v'')"
    using sanitize_plain[of ?k] by (simp add: fs_kv_get_def map_client_def)
  have "finite (dom ?c)" by simp
  from map_client_items[OF this] obtain "is" where "cl_query map_client ''kv'' ''a'' (list_end ''a'') ?c = map Inr (map (\<lambda>i. the (?c i)) is)"
    by blast
  then have "fs_kv_list map_client ''kv'' ''a'' ?c = Inr (map kd_key (map (\<lambda>i. the (?c i)) is))"
    using list_loop_keys[of Inr "map (\<lambda>i. the (?c i)) is" "map (\<lambda>i. the (?c i)) is"]
    by (simp add: fs_kv_list_def map_client_def)
  moreover from listing_misses_supplementary_keys[OF doc this, of "CHR 0xF0" "[]"]
  have "?k \<notin> set (map kd_key (map (\<lambda>i. the (?c i)) is))" by simp
  ultimately show ?thesis using got by blast
qed

end
