(* ===== verification/Apikey.thy ===== *)
theory Apikey
  imports Config
begin

text \<open>
  API-key authentication, \<open>internal/auth/apikey/apikey.go\<close> and the plugin that offers it,
  \<open>internal/plugins/apikey/plugin.go\<close>. Bytes are 8-bit words here, because the comparison
  works on bits and truncates the length difference to a byte.

  \<open>ks\<close> is the order in which the runtime visits the payload map.
\<close>

unbundle bit_operations_syntax

section \<open>The comparison\<close>

definition byte_at :: "string \<Rightarrow> nat \<Rightarrow> 8 word" where
  "byte_at s i = (if i < length s then word_of_nat (of_char (s ! i)) else 0)"

definition length_byte :: "string \<Rightarrow> string \<Rightarrow> 8 word" where
  "length_byte left right = word_of_nat (length left XOR length right)"

definition constant_time_equals :: "string \<Rightarrow> string \<Rightarrow> bool" where
  "constant_time_equals left right =
     (fold (\<lambda>i result. result OR (byte_at left i XOR byte_at right i))
        [0..<max (length left) (length right)] (length_byte left right) = 0)"

section \<open>Validation\<close>

datatype apikey_error = AuthConfigRequired | MissingAPIKey | InvalidAPIKey

fun payload_headers :: "string list \<Rightarrow> string \<Rightarrow> (string \<rightharpoonup> string) \<Rightarrow> (string \<rightharpoonup> string) \<Rightarrow> (string \<rightharpoonup> string)" where
  "payload_headers [] prefix payload headers = headers"
| "payload_headers (k # ks) prefix payload headers =
     (case payload k of
        None \<Rightarrow> payload_headers ks prefix payload headers
      | Some v \<Rightarrow> payload_headers ks prefix payload (headers(prefix @ to_upper k \<mapsto> v)))"

definition api_key_header_name :: "apikey_config \<Rightarrow> string" where
  "api_key_header_name c = (if kc_name c = [] then ''X-API-KEY'' else kc_name c)"

definition validate_api_key ::
    "string list \<Rightarrow> request \<Rightarrow> auth_config option \<Rightarrow> (apikey_error, (string \<rightharpoonup> string) option) result" where
  "validate_api_key ks r cfg =
     (case cfg of
        None \<Rightarrow> Inl AuthConfigRequired
      | Some a \<Rightarrow>
          if \<not> kc_enabled (au_api_key a) then Inr None
          else let provided = header_get (rq_headers r) (api_key_header_name (au_api_key a))
               in if provided = [] then Inl MissingAPIKey
                  else if \<not> constant_time_equals provided (kc_value (au_api_key a)) then Inl InvalidAPIKey
                  else Inr (Some (payload_headers ks (au_header_prefix a) (kc_payload (au_api_key a)) Map.empty)))"

definition apikey_plugin_name :: string where "apikey_plugin_name = ''apikey''"
definition apikey_plugin_priority :: int where "apikey_plugin_priority = 90"

definition apikey_authenticate ::
    "string list \<Rightarrow> request \<Rightarrow> auth_config \<Rightarrow> (apikey_error, (string \<rightharpoonup> string) option) result" where
  "apikey_authenticate ks r a = validate_api_key ks r (Some a)"

section \<open>What the comparison decides\<close>

lemma fold_or_zero:
  "fold (\<lambda>i result. result OR f i) is acc = (0 :: 'a :: len word) \<longleftrightarrow> acc = 0 \<and> (\<forall>i \<in> set is. f i = 0)"
  by (induction "is" arbitrary: acc) (auto simp: or_eq_0_iff)

lemma xor_zero: "(a XOR b = (0 :: 'a :: len word)) \<longleftrightarrow> a = b"
  by (metis xor.assoc xor.left_neutral xor.right_neutral xor_self_eq)

lemma byte_of_char: "(word_of_nat (of_char c) :: 8 word) = word_of_nat (of_char d) \<longleftrightarrow> c = d"
proof
  assume "(word_of_nat (of_char c) :: 8 word) = word_of_nat (of_char d)"
  then have "unat (word_of_nat (of_char c) :: 8 word) = unat (word_of_nat (of_char d) :: 8 word)" by simp
  then have "(of_char c :: nat) mod 2 ^ 8 = of_char d mod 2 ^ 8" by (simp add: unat_of_nat)
  then show "c = d" by simp
qed simp

lemma length_byte_zero: "length_byte l r = 0 \<longleftrightarrow> length l mod 256 = length r mod 256"
proof -
  have "length_byte l r = word_of_nat (length l) XOR word_of_nat (length r)"
    by (simp add: length_byte_def of_nat_xor_eq)
  then have "length_byte l r = 0 \<longleftrightarrow> (word_of_nat (length l) :: 8 word) = word_of_nat (length r)"
    by (simp add: xor_zero)
  also have "\<dots> \<longleftrightarrow> length l mod 256 = length r mod 256"
    by (simp add: word_of_nat_eq_iff take_bit_eq_mod)
  finally show ?thesis .
qed

lemma constant_time_equals_iff:
  "constant_time_equals l r \<longleftrightarrow>
     length l mod 256 = length r mod 256 \<and> (\<forall>i < max (length l) (length r). byte_at l i = byte_at r i)"
  unfolding constant_time_equals_def fold_or_zero length_byte_zero xor_zero by auto

lemma byte_at_nonzero: "i < length s \<Longrightarrow> CHR 0x00 \<notin> set s \<Longrightarrow> byte_at s i \<noteq> 0"
proof -
  assume i: "i < length s" and no: "CHR 0x00 \<notin> set s"
  then have "s ! i \<noteq> CHR 0x00" by (metis nth_mem)
  then have "(word_of_nat (of_char (s ! i)) :: 8 word) \<noteq> word_of_nat (of_char (CHR 0x00))"
    by (simp only: byte_of_char not_False_eq_True)
  then show ?thesis using i by (simp add: byte_at_def)
qed

lemma constant_time_equals_eq:
  assumes "CHR 0x00 \<notin> set l" and "CHR 0x00 \<notin> set r"
  shows "constant_time_equals l r \<longleftrightarrow> l = r"
proof
  assume ct: "constant_time_equals l r"
  have len: "length l = length r"
  proof (rule ccontr)
    assume "length l \<noteq> length r"
    then consider "length l < length r" | "length r < length l" by linarith
    then show False
    proof cases
      case 1
      then have "byte_at l (length l) = byte_at r (length l)" using ct by (simp add: constant_time_equals_iff)
      then show False using byte_at_nonzero[OF 1 assms(2)] by (simp add: byte_at_def)
    next
      case 2
      then have "byte_at l (length r) = byte_at r (length r)" using ct by (simp add: constant_time_equals_iff)
      then show False using byte_at_nonzero[OF 2 assms(1)] by (simp add: byte_at_def)
    qed
  qed
  then show "l = r" using ct
    by (intro nth_equalityI) (auto simp: constant_time_equals_iff byte_at_def byte_of_char)
qed (simp add: constant_time_equals_iff)

text \<open>
  For an enabled configuration and keys without NUL bytes, a request is accepted exactly
  when it presents the configured value in the configured header, a request without the
  header is told so, any other value is invalid; disabled authentication decides nothing.
\<close>

theorem api_key_decision:
  assumes "CHR 0x00 \<notin> set (header_get (rq_headers r) (api_key_header_name (au_api_key a)))"
    and "CHR 0x00 \<notin> set (kc_value (au_api_key a))"
  shows "validate_api_key ks r (Some a) =
    (let provided = header_get (rq_headers r) (api_key_header_name (au_api_key a))
     in if \<not> kc_enabled (au_api_key a) then Inr None
        else if provided = [] then Inl MissingAPIKey
        else if provided = kc_value (au_api_key a)
          then Inr (Some (payload_headers ks (au_header_prefix a) (kc_payload (au_api_key a)) Map.empty))
        else Inl InvalidAPIKey)"
  using constant_time_equals_eq[OF assms] by (simp add: validate_api_key_def Let_def)

definition demo_auth :: auth_config where
  "demo_auth =
     \<lparr>au_header_prefix = ''X-AUTH-'',
      au_jwt = \<lparr>jc_enabled = False, jc_issuer = [], jc_audience = [], jc_tolerance_secs = 0,
        jc_cache_ttl_mins = 0, jc_filters = Map.empty, jc_mappings = Map.empty, jc_allowed_emails = []\<rparr>,
      au_api_key = \<lparr>kc_enabled = True, kc_name = [], kc_value = ''secret'', kc_payload = Map.empty\<rparr>\<rparr>"

theorem api_key_decision_witness:
  "validate_api_key [] (plain_request ''h'' ''/'') (Some demo_auth) = Inl MissingAPIKey"
  by (subst api_key_decision) (simp_all add: demo_auth_def header_get_def)

text \<open>
  The comparison pads the shorter value with NUL bytes and compares lengths modulo 256
  only: 256 NUL bytes behind the right key leave it accepted.
\<close>

theorem padded_key_accepted:
  "constant_time_equals (key @ replicate 256 CHR 0x00) key \<and> key @ replicate 256 CHR 0x00 \<noteq> key"
proof -
  have "byte_at (key @ replicate 256 CHR 0x00) i = byte_at key i" for i
    by (auto simp: byte_at_def nth_append)
  then show ?thesis by (simp add: constant_time_equals_iff)
qed

section \<open>The injected headers\<close>

text \<open>The payload keys that name one header, and the visit order that decides among them.\<close>

lemma payload_headers_at:
  "payload_headers ks prefix payload headers h
   = (case filter (\<lambda>k. payload k \<noteq> None \<and> prefix @ to_upper k = h) ks of
        [] \<Rightarrow> headers h | _ \<Rightarrow> payload (last (filter (\<lambda>k. payload k \<noteq> None \<and> prefix @ to_upper k = h) ks)))"
  by (induction ks arbitrary: headers) (auto split: option.splits list.splits)

text \<open>
  Accepting a key injects one header per payload entry, named by the configured prefix
  and the upper-cased entry, with the entry's value, and nothing else, provided no two
  entries differ in case only; the visit order of the map then does not matter.
\<close>

theorem payload_headers_exact:
  assumes "range_order ks payload" and "inj_on to_upper (dom payload)"
  shows "payload_headers ks prefix payload Map.empty h = Some v
     \<longleftrightarrow> (\<exists>k. payload k = Some v \<and> h = prefix @ to_upper k)"
proof -
  let ?hits = "filter (\<lambda>k. payload k \<noteq> None \<and> prefix @ to_upper k = h) ks"
  have set_hits: "set ?hits = {k \<in> dom payload. prefix @ to_upper k = h}"
    using assms(1) by (auto simp: range_order_def)
  show ?thesis
  proof (cases "?hits = []")
    case True
    then have "{k \<in> dom payload. prefix @ to_upper k = h} = {}" using set_hits by (metis set_empty)
    then have "\<And>k. payload k = Some v \<Longrightarrow> h \<noteq> prefix @ to_upper k" by blast
    then show ?thesis using True by (auto simp: payload_headers_at)
  next
    case False
    then have "last ?hits \<in> set ?hits" by (rule last_in_set)
    then have l: "last ?hits \<in> dom payload" "prefix @ to_upper (last ?hits) = h" using set_hits by blast+
    obtain k where k: "payload k \<noteq> None" "prefix @ to_upper k = h" "last ?hits = k" using l by auto
    have at: "payload_headers ks prefix payload Map.empty h = payload k"
      unfolding payload_headers_at k(3) using False by (auto split: list.split)
    have "j = k" if "payload j = Some v" and "h = prefix @ to_upper j" for j
    proof -
      have "to_upper j = to_upper k" using that(2) k(2) by simp
      then show ?thesis using assms(2) that(1) k(1) by (auto dest: inj_onD)
    qed
    then show ?thesis unfolding at using k(2) by blast
  qed
qed

theorem payload_headers_exact_witness:
  "payload_headers [''id''] ''X-AUTH-'' [''id'' \<mapsto> ''7''] Map.empty (''X-AUTH-'' @ to_upper ''id'') = Some ''7''"
  using payload_headers_exact[of "[''id'']" "[''id'' \<mapsto> ''7'']" "''X-AUTH-''" "''X-AUTH-'' @ to_upper ''id''" "''7''"]
  by (auto simp: range_order_def)

end
