(* ===== verification/Go_Json.thy ===== *)
theory Go_Json
  imports Patterns "HOL-Library.Char_ord" "HOL-Library.List_Lexorder"
begin

text \<open>
  What the program uses of \<open>encoding/json\<close>, \<open>fmt\<close> and the cryptographic packages.

  The record \<open>library\<close> collects the library functions the model takes as arguments: the JSON
  parser, the text of a floating-point number, JSON rendering, the text of a base64 error,
  the hash functions and the signature primitives, quoting, and the texts of times. Reading a parsed value into a Go map or a struct, and the \<open>%v\<close>
  rendering, are written out. A JSON object keeps its members in order, so the last of
  equal names wins, and a struct field takes every member whose name equals its own up to
  case, as \<open>json.Unmarshal\<close> does.
\<close>

section \<open>Arguments of the model\<close>

datatype hash_alg = SHA256 | SHA384 | SHA512

datatype curve = P256 | P384 | P521

record library =
  lib_json :: "string \<Rightarrow> (string, json) result" \<comment> \<open>json.Unmarshal: the whole text\<close>
  lib_json_first :: "string \<Rightarrow> (string, json) result" \<comment> \<open>Decoder.Decode: the first value\<close>
  lib_float_text :: "int \<Rightarrow> int \<Rightarrow> string"
  lib_marshal :: "json \<Rightarrow> string option"
  lib_b64_error :: "string \<Rightarrow> string"
  lib_regex :: regex_engine
  lib_hash :: "hash_alg \<Rightarrow> string \<Rightarrow> string"
  lib_rsa_pkcs1 :: "nat \<times> int \<Rightarrow> hash_alg \<Rightarrow> string \<Rightarrow> string \<Rightarrow> string option"
  lib_rsa_pss :: "nat \<times> int \<Rightarrow> hash_alg \<Rightarrow> string \<Rightarrow> string \<Rightarrow> string option"
  lib_ecdsa :: "curve \<times> nat \<times> nat \<Rightarrow> string \<Rightarrow> nat \<Rightarrow> nat \<Rightarrow> bool"
  lib_ed25519 :: "string \<Rightarrow> string \<Rightarrow> string \<Rightarrow> bool"
  lib_sha256 :: "string \<Rightarrow> string" \<comment> \<open>sha256.Sum256, 32 bytes\<close>
  lib_quote :: "string \<Rightarrow> string" \<comment> \<open>the verb q\<close>
  lib_format_time :: "time \<Rightarrow> string" \<comment> \<open>UTC().Format(time.RFC3339)\<close>
  lib_parse_time :: "string \<Rightarrow> time option" \<comment> \<open>time.Parse(time.RFC3339, s)\<close>
  lib_duration_text :: "duration \<Rightarrow> string" \<comment> \<open>Duration.String\<close>

section \<open>Reading values\<close>

type_synonym claims = "string \<rightharpoonup> json"

definition members :: "(string \<times> json) list \<Rightarrow> claims" where
  "members kvs = map_of (rev kvs)"

text \<open>Into a \<open>map[string]interface{}\<close>: null leaves the map nil.\<close>

definition json_to_map :: "json \<Rightarrow> claims option" where
  "json_to_map v = (case v of JObj kvs \<Rightarrow> Some (members kvs) | JNull \<Rightarrow> Some Map.empty | _ \<Rightarrow> None)"

text \<open>Into a string field of a struct: \<open>None\<close> is a type error.\<close>

fun string_field :: "string \<Rightarrow> string \<Rightarrow> (string \<times> json) list \<Rightarrow> string option" where
  "string_field name cur [] = Some cur"
| "string_field name cur ((k, v) # kvs) =
     (if equal_fold k name then
        (case v of JStr s \<Rightarrow> string_field name s kvs
                 | JNull \<Rightarrow> string_field name cur kvs
                 | _ \<Rightarrow> None)
      else string_field name cur kvs)"

definition object_members :: "json \<Rightarrow> (string \<times> json) list option" where
  "object_members v = (case v of JObj kvs \<Rightarrow> Some kvs | JNull \<Rightarrow> Some [] | _ \<Rightarrow> None)"

section \<open>Formatting with \<open>%v\<close> and \<open>%T\<close>\<close>

fun fmt_v :: "(int \<Rightarrow> int \<Rightarrow> string) \<Rightarrow> json \<Rightarrow> string" where
  "fmt_v ft JNull = ''<nil>''"
| "fmt_v ft (JBool b) = (if b then ''true'' else ''false'')"
| "fmt_v ft (JNum m e) = ft m e"
| "fmt_v ft (JStr s) = s"
| "fmt_v ft (JArr vs) = ''['' @ join '' '' (map (fmt_v ft) vs) @ '']''"
| "fmt_v ft (JObj kvs) =
     ''map['' @ join '' '' (map (\<lambda>(k, t). k @ '':'' @ t)
       (sort_key fst (map (\<lambda>kv. (fst kv, fmt_v ft (snd kv))) kvs))) @ '']''"

definition type_name :: "json \<Rightarrow> string" where
  "type_name v =
     (case v of JNull \<Rightarrow> ''<nil>'' | JBool b \<Rightarrow> ''bool'' | JNum m e \<Rightarrow> ''float64'' | JStr s \<Rightarrow> ''string''
      | JArr vs \<Rightarrow> ''[]interface {}'' | JObj kvs \<Rightarrow> ''map[string]interface {}'')"

section \<open>Numbers\<close>

text \<open>A number is a whole number: \<open>val == math.Ceil(val)\<close>.\<close>

definition num_is_whole :: "int \<Rightarrow> int \<Rightarrow> bool" where
  "num_is_whole m e \<longleftrightarrow> 0 \<le> e \<or> m mod 2 ^ nat (- e) = 0"

text \<open>
  \<open>int64(val)\<close> truncates toward zero; a value outside the range gives the smallest
  \<open>int64\<close>, as on amd64.
\<close>

definition num_to_int64 :: "int \<Rightarrow> int \<Rightarrow> int" where
  "num_to_int64 m e =
     (let v = (if 0 \<le> e then m * 2 ^ nat e else sgn m * (\<bar>m\<bar> div 2 ^ nat (- e)))
      in if int64_ok v then v else - (2 ^ 63))"

lemma num_to_int64_ok: "int64_ok (num_to_int64 m e)"
  by (simp add: num_to_int64_def Let_def int64_ok_def)

section \<open>Big-endian integers\<close>

fun be_nat :: "nat \<Rightarrow> string \<Rightarrow> nat" where
  "be_nat acc [] = acc"
| "be_nat acc (c # s) = be_nat (256 * acc + of_char c) s"

definition set_bytes :: "string \<Rightarrow> nat" where
  "set_bytes s = be_nat 0 s"

end
