(* ===== verification/Jwt_Claims.thy ===== *)
theory Jwt_Claims
  imports Go_Json
begin

text \<open>
  Claim filters and claim mappings, \<open>internal/auth/jwt/filter.go\<close> and
  \<open>internal/auth/jwt/mapper.go\<close>. \<open>ks\<close> is the order in which the runtime visits the map of
  filters or mappings.
\<close>

section \<open>Filters\<close>

record filter_matcher =
  fm_raw_value :: string
  fm_regex :: "(string \<Rightarrow> bool) option"

datatype filter_error = MissingClaim string | BadFilter string string | ClaimMismatch string string

definition is_regex_filter :: "string \<Rightarrow> bool" where
  "is_regex_filter v = slash_delimited v"

definition new_filter_matcher :: "library \<Rightarrow> string \<Rightarrow> filter_matcher option" where
  "new_filter_matcher lib value =
     (if is_regex_filter value then
        (case lib_regex lib (inside_slashes value) of
           None \<Rightarrow> None
         | Some f \<Rightarrow> Some \<lparr>fm_raw_value = value, fm_regex = Some f\<rparr>)
      else Some \<lparr>fm_raw_value = value, fm_regex = None\<rparr>)"

definition claim_value_to_string :: "library \<Rightarrow> json \<Rightarrow> string" where
  "claim_value_to_string lib v = fmt_v (lib_float_text lib) v"

definition matches_scalar :: "library \<Rightarrow> filter_matcher \<Rightarrow> json \<Rightarrow> bool" where
  "matches_scalar lib m v =
     (case fm_regex m of
        Some f \<Rightarrow> f (claim_value_to_string lib v)
      | None \<Rightarrow> claim_value_to_string lib v = fm_raw_value m)"

definition filter_matches :: "library \<Rightarrow> filter_matcher \<Rightarrow> string \<Rightarrow> json \<Rightarrow> filter_error option" where
  "filter_matches lib m claim v =
     (let ok = (case v of JArr items \<Rightarrow> list_ex (matches_scalar lib m) items | _ \<Rightarrow> matches_scalar lib m v)
      in if ok then None else Some (ClaimMismatch claim (fm_raw_value m)))"

fun evaluate_filters_loop ::
    "library \<Rightarrow> string list \<Rightarrow> claims \<Rightarrow> (string \<rightharpoonup> string) \<Rightarrow> filter_error option" where
  "evaluate_filters_loop lib [] claims filters = None"
| "evaluate_filters_loop lib (name # ks) claims filters =
     (case filters name of
        None \<Rightarrow> evaluate_filters_loop lib ks claims filters
      | Some value \<Rightarrow>
          (case claims name of
             None \<Rightarrow> Some (MissingClaim name)
           | Some v \<Rightarrow>
               (case new_filter_matcher lib value of
                  None \<Rightarrow> Some (BadFilter name value)
                | Some m \<Rightarrow>
                    (case filter_matches lib m name v of
                       Some e \<Rightarrow> Some e
                     | None \<Rightarrow> evaluate_filters_loop lib ks claims filters))))"

definition evaluate_filters ::
    "library \<Rightarrow> string list \<Rightarrow> claims \<Rightarrow> (string \<rightharpoonup> string) \<Rightarrow> filter_error option" where
  "evaluate_filters lib ks claims filters = evaluate_filters_loop lib ks claims filters"

section \<open>Mappings\<close>

definition coerce_claim_to_header_value :: "library \<Rightarrow> json \<Rightarrow> string option" where
  "coerce_claim_to_header_value lib v =
     (let ft = lib_float_text lib
      in case v of
           JNull \<Rightarrow> None
         | JStr s \<Rightarrow> Some s
         | JNum m e \<Rightarrow> Some (fmt_v ft v)
         | JArr items \<Rightarrow> Some (join '','' (map (fmt_v ft) items))
         | JObj kvs \<Rightarrow> lib_marshal lib v
         | JBool b \<Rightarrow>
             (case lib_marshal lib v of
                Some text \<Rightarrow>
                  if text \<noteq> ''null'' \<and> (has_prefix text ''{'' \<or> has_prefix text ''['') then Some text
                  else Some (fmt_v ft v)
              | None \<Rightarrow> Some (fmt_v ft v)))"

fun map_claims_loop ::
    "library \<Rightarrow> string list \<Rightarrow> claims \<Rightarrow> (string \<rightharpoonup> string) \<Rightarrow> string \<Rightarrow> (string \<rightharpoonup> string)
     \<Rightarrow> (string \<rightharpoonup> string)" where
  "map_claims_loop lib [] claims mappings prefix headers = headers"
| "map_claims_loop lib (claim # ks) claims mappings prefix headers =
     (case mappings claim of
        None \<Rightarrow> map_claims_loop lib ks claims mappings prefix headers
      | Some suffix \<Rightarrow>
          (case claims claim of
             None \<Rightarrow> map_claims_loop lib ks claims mappings prefix headers
           | Some v \<Rightarrow>
               (case coerce_claim_to_header_value lib v of
                  None \<Rightarrow> map_claims_loop lib ks claims mappings prefix headers
                | Some hv \<Rightarrow> map_claims_loop lib ks claims mappings prefix (headers(prefix @ suffix \<mapsto> hv)))))"

definition map_claims ::
    "library \<Rightarrow> string list \<Rightarrow> claims \<Rightarrow> (string \<rightharpoonup> string) \<Rightarrow> string \<Rightarrow> (string \<rightharpoonup> string)" where
  "map_claims lib ks claims mappings prefix = map_claims_loop lib ks claims mappings prefix Map.empty"

section \<open>What the filters demand\<close>

text \<open>The documented meaning of one filter: text equality or a match, any element of an array.\<close>

definition scalar_spec :: "library \<Rightarrow> string \<Rightarrow> json \<Rightarrow> bool" where
  "scalar_spec lib pat v \<longleftrightarrow>
     (if is_regex_filter pat
      then (\<exists>f. lib_regex lib (inside_slashes pat) = Some f \<and> f (claim_value_to_string lib v))
      else claim_value_to_string lib v = pat)"

definition filter_spec :: "library \<Rightarrow> string \<Rightarrow> json \<Rightarrow> bool" where
  "filter_spec lib pat v \<longleftrightarrow>
     (if is_regex_filter pat then lib_regex lib (inside_slashes pat) \<noteq> None else True)
     \<and> (case v of JArr items \<Rightarrow> (\<exists>i \<in> set items. scalar_spec lib pat i) | _ \<Rightarrow> scalar_spec lib pat v)"

definition filters_hold :: "library \<Rightarrow> claims \<Rightarrow> (string \<rightharpoonup> string) \<Rightarrow> bool" where
  "filters_hold lib claims filters \<longleftrightarrow>
     (\<forall>name pat. filters name = Some pat \<longrightarrow> (\<exists>v. claims name = Some v \<and> filter_spec lib pat v))"

lemma scalar_matcher:
  "new_filter_matcher lib pat = Some m \<Longrightarrow> matches_scalar lib m v = scalar_spec lib pat v"
  by (auto simp: new_filter_matcher_def matches_scalar_def scalar_spec_def split: if_splits option.splits)

lemma matcher_compiles:
  "new_filter_matcher lib pat = None \<longleftrightarrow> is_regex_filter pat \<and> lib_regex lib (inside_slashes pat) = None"
  by (auto simp: new_filter_matcher_def split: option.splits)

lemma one_filter:
  "(\<exists>m. new_filter_matcher lib pat = Some m \<and> filter_matches lib m name v = None) \<longleftrightarrow> filter_spec lib pat v"
proof (cases "new_filter_matcher lib pat")
  case None
  then show ?thesis using matcher_compiles[of lib pat] by (auto simp: filter_spec_def)
next
  case (Some m)
  have "matches_scalar lib m = scalar_spec lib pat" using scalar_matcher[OF Some] by blast
  moreover have "\<not> (is_regex_filter pat \<and> lib_regex lib (inside_slashes pat) = None)"
    using Some matcher_compiles[of lib pat] by simp
  ultimately show ?thesis using Some
    by (auto simp: filter_spec_def filter_matches_def Let_def list_ex_iff split: json.splits)
qed

lemma evaluate_filters_loop_iff:
  "evaluate_filters_loop lib ks claims filters = None \<longleftrightarrow>
     (\<forall>name \<in> set ks. \<forall>pat. filters name = Some pat \<longrightarrow> (\<exists>v. claims name = Some v \<and> filter_spec lib pat v))"
proof (induction ks)
  case (Cons name ks)
  show ?case
  proof (cases "filters name")
    case None
    then show ?thesis using Cons by simp
  next
    case (Some pat)
    show ?thesis
    proof (cases "claims name")
      case None
      then show ?thesis using Some by auto
    next
      case (Some v)
      have "(case new_filter_matcher lib pat of None \<Rightarrow> Some (BadFilter name pat)
             | Some m \<Rightarrow> (case filter_matches lib m name v of Some e \<Rightarrow> Some e
                         | None \<Rightarrow> evaluate_filters_loop lib ks claims filters)) = None
          \<longleftrightarrow> filter_spec lib pat v \<and> evaluate_filters_loop lib ks claims filters = None"
        unfolding one_filter[of lib pat name v, symmetric] by (auto split: option.splits)
      then show ?thesis using \<open>filters name = Some pat\<close> Some Cons by auto
    qed
  qed
qed simp

lemma evaluate_filters_spec:
  "range_order ks filters \<Longrightarrow> evaluate_filters lib ks claims filters = None \<longleftrightarrow> filters_hold lib claims filters"
  unfolding evaluate_filters_def evaluate_filters_loop_iff filters_hold_def range_order_def by blast

text \<open>
  C29. The filters accept a token exactly when every configured claim is present and
  satisfies its filter, in whatever order the runtime visits them: a filter that does not
  compile accepts nothing, an array claim needs one matching element.
\<close>

theorem filters_accept_iff:
  assumes "range_order ks filters"
  shows "evaluate_filters lib ks claims filters = None \<longleftrightarrow>
    (\<forall>name pat. filters name = Some pat \<longrightarrow> (\<exists>v. claims name = Some v \<and> filter_spec lib pat v))"
  using evaluate_filters_spec[OF assms] by (simp add: filters_hold_def)

text \<open>A library whose functions are as small as they can be, for the examples.\<close>

definition demo_library :: library where
  "demo_library =
     \<lparr>lib_json = (\<lambda>_. Inl ''unexpected end of JSON input''), lib_json_first = (\<lambda>_. Inl ''EOF''),
      lib_float_text = (\<lambda>m e. int_string m), lib_marshal = (\<lambda>_. None), lib_b64_error = (\<lambda>_. ''illegal base64 data''),
      lib_regex = (\<lambda>p. Some (\<lambda>s. contains s p)), lib_hash = (\<lambda>_ s. s),
      lib_rsa_pkcs1 = (\<lambda>_ _ _ _. None), lib_rsa_pss = (\<lambda>_ _ _ _. None),
      lib_ecdsa = (\<lambda>_ _ _ _. True), lib_ed25519 = (\<lambda>_ _ _. True),
      lib_sha256 = (\<lambda>_. replicate 32 CHR 0x00), lib_quote = (\<lambda>s. s), lib_format_time = int_string,
      lib_parse_time = parse_int, lib_duration_text = int_string\<rparr>"

theorem filters_accept_iff_witness:
  "evaluate_filters demo_library [''hd''] [''hd'' \<mapsto> JArr [JStr ''a'', JStr ''b'']] [''hd'' \<mapsto> ''b''] = None"
  by (subst filters_accept_iff)
    (auto simp: range_order_def filter_spec_def scalar_spec_def is_regex_filter_def slash_delimited_def
      claim_value_to_string_def)

section \<open>What the mappings produce\<close>

lemma map_claims_loop_keys:
  "map_claims_loop lib ks claims mappings prefix headers h = Some v
   \<Longrightarrow> headers h = Some v \<or> (\<exists>c \<in> set ks. \<exists>suffix j. mappings c = Some suffix \<and> claims c = Some j
        \<and> coerce_claim_to_header_value lib j = Some v \<and> h = prefix @ suffix)"
proof (induction ks arbitrary: headers)
  case (Cons c ks)
  then show ?case
    by (fastforce split: option.splits if_splits)
qed simp

lemma map_claims_loop_other:
  "\<forall>c \<in> set ks. \<forall>suffix. mappings c = Some suffix \<longrightarrow> h \<noteq> prefix @ suffix
   \<Longrightarrow> map_claims_loop lib ks claims mappings prefix headers h = headers h"
  by (induction ks arbitrary: headers) (auto split: option.splits)

lemma map_claims_loop_hit:
  assumes "c \<in> set ks" and "mappings c = Some suffix" and "claims c = Some j"
    and "coerce_claim_to_header_value lib j = Some v"
    and "\<forall>d \<in> set ks. mappings d = Some suffix \<longrightarrow> d = c" and "distinct ks"
  shows "map_claims_loop lib ks claims mappings prefix headers (prefix @ suffix) = Some v"
  using assms
proof (induction ks arbitrary: headers)
  case Nil
  from Nil.prems(1) show ?case by simp
next
  case (Cons d ks)
  show ?case
  proof (cases "d = c")
    case True
    have "e \<noteq> c" if "e \<in> set ks" for e using Cons.prems(6) True that by auto
    then have "\<forall>e \<in> set ks. \<forall>sx. mappings e = Some sx \<longrightarrow> prefix @ suffix \<noteq> prefix @ sx"
      using Cons.prems(5) by (metis list.set_intros(2) same_append_eq)
    from map_claims_loop_other[OF this] show ?thesis using True Cons.prems(2-4) by simp
  next
    case False
    then have "c \<in> set ks" using Cons.prems(1) by simp
    moreover have "\<forall>d \<in> set ks. mappings d = Some suffix \<longrightarrow> d = c" and "distinct ks"
      using Cons.prems(5,6) by (meson list.set_intros(2), simp)
    ultimately have "map_claims_loop lib ks claims mappings prefix hs (prefix @ suffix) = Some v" for hs
      using Cons.IH Cons.prems(2-4) by blast
    then show ?thesis by (simp split: option.splits)
  qed
qed

text \<open>
  C30. The mapped headers are exactly those the configuration asks for: a header is produced
  if and only if some mapping names it by the prefix and its own suffix, letter for letter,
  and its claim is present and has a text; no other header is ever produced, and with
  distinct suffixes the visit order does not matter.
\<close>

theorem mapped_headers_exact:
  assumes "range_order ks mappings" and "inj_on mappings (dom mappings)"
  shows "map_claims lib ks claims mappings prefix h = Some v
     \<longleftrightarrow> (\<exists>c suffix j. mappings c = Some suffix \<and> claims c = Some j
           \<and> coerce_claim_to_header_value lib j = Some v \<and> h = prefix @ suffix)"
proof
  assume "map_claims lib ks claims mappings prefix h = Some v"
  from map_claims_loop_keys[OF this[unfolded map_claims_def]]
  show "\<exists>c suffix j. mappings c = Some suffix \<and> claims c = Some j
      \<and> coerce_claim_to_header_value lib j = Some v \<and> h = prefix @ suffix" by auto
next
  assume "\<exists>c suffix j. mappings c = Some suffix \<and> claims c = Some j
      \<and> coerce_claim_to_header_value lib j = Some v \<and> h = prefix @ suffix"
  then obtain c suffix j where c: "mappings c = Some suffix" "claims c = Some j"
      "coerce_claim_to_header_value lib j = Some v" "h = prefix @ suffix" by blast
  have "c \<in> set ks" and "distinct ks" using assms(1) c(1) by (auto simp: range_order_def)
  moreover have "\<forall>d \<in> set ks. mappings d = Some suffix \<longrightarrow> d = c"
    using inj_onD[OF assms(2), of _ c] c(1) by fastforce
  ultimately show "map_claims lib ks claims mappings prefix h = Some v"
    unfolding map_claims_def c(4) using c(1-3) by (intro map_claims_loop_hit)
qed

theorem mapped_headers_exact_witness:
  "map_claims demo_library [''sub''] [''sub'' \<mapsto> JStr ''u1''] [''sub'' \<mapsto> ''User''] ''X-AUTH-'' (''X-AUTH-'' @ ''User'')
   = Some ''u1''"
proof -
  have "range_order [''sub''] [''sub'' \<mapsto> ''User'']" and "inj_on [''sub'' \<mapsto> ''User''] (dom [''sub'' \<mapsto> ''User''])"
    by (simp_all add: range_order_def)
  from mapped_headers_exact[OF this, of demo_library "[''sub'' \<mapsto> JStr ''u1'']" "''X-AUTH-''" "''X-AUTH-'' @ ''User''" "''u1''"]
  show ?thesis by (simp add: coerce_claim_to_header_value_def)
qed

end
