(* ===== verification/Go_Base64.thy ===== *)
theory Go_Base64
  imports Go_Strings
begin

text \<open>
  Go's \<open>base64.RawURLEncoding\<close>: the URL alphabet without padding. \<open>b64_decode\<close> follows
  \<open>DecodeString\<close>: carriage returns and line feeds in the input are skipped, any other
  character outside the alphabet is an error, a single left-over character is an error,
  and the unused low bits of the last character are not checked.
\<close>

section \<open>The alphabet\<close>

definition b64_char :: "nat \<Rightarrow> char" where
  "b64_char n =
     (if n < 26 then char_of (n + 65)
      else if n < 52 then char_of (n + 71)
      else if n < 62 then char_of (n - 4)
      else if n = 62 then CHR ''-'' else CHR ''_'')"

definition b64_value :: "char \<Rightarrow> nat option" where
  "b64_value c =
     (let n = of_char c :: nat in
      if 65 \<le> n \<and> n \<le> 90 then Some (n - 65)
      else if 97 \<le> n \<and> n \<le> 122 then Some (n - 71)
      else if 48 \<le> n \<and> n \<le> 57 then Some (n + 4)
      else if n = 45 then Some 62
      else if n = 95 then Some 63
      else None)"

lemma b64_value_char: "n < 64 \<Longrightarrow> b64_value (b64_char n) = Some n"
  by (auto simp: b64_value_def b64_char_def Let_def)

lemma b64_value_bound: "b64_value c = Some n \<Longrightarrow> n < 64"
  by (auto simp: b64_value_def Let_def split: if_splits)

lemma b64_char_not_newline: "b64_char n \<noteq> CHR 0x0A" "b64_char n \<noteq> CHR 0x0D"
  unfolding char_eq_nat by (auto simp: b64_char_def)

lemma b64_char_not_dot: "b64_char n \<noteq> CHR ''.''"
  unfolding char_eq_nat by (auto simp: b64_char_def)

section \<open>Encoding and decoding\<close>

fun enc_groups :: "nat list \<Rightarrow> nat list" where
  "enc_groups [] = []"
| "enc_groups [a] = [a div 4, (a mod 4) * 16]"
| "enc_groups [a, b] = [a div 4, (a mod 4) * 16 + b div 16, (b mod 16) * 4]"
| "enc_groups (a # b # c # r) =
     a div 4 # ((a mod 4) * 16 + b div 16) # ((b mod 16) * 4 + c div 64) # c mod 64 # enc_groups r"

fun dec_groups :: "nat list \<Rightarrow> nat list option" where
  "dec_groups [] = Some []"
| "dec_groups [w] = None"
| "dec_groups [w, x] = Some [w * 4 + x div 16]"
| "dec_groups [w, x, y] = Some [w * 4 + x div 16, (x mod 16) * 16 + y div 4]"
| "dec_groups (w # x # y # z # r) =
     map_option (\<lambda>bs. (w * 4 + x div 16) # ((x mod 16) * 16 + y div 4) # ((y mod 4) * 64 + z) # bs)
       (dec_groups r)"

fun sextets :: "string \<Rightarrow> nat list option" where
  "sextets [] = Some []"
| "sextets (c # s) =
     (if c = CHR 0x0A \<or> c = CHR 0x0D then sextets s
      else case b64_value c of None \<Rightarrow> None | Some n \<Rightarrow> map_option (Cons n) (sextets s))"

definition b64_encode :: "string \<Rightarrow> string" where
  "b64_encode s = map b64_char (enc_groups (map of_char s))"

definition b64_decode :: "string \<Rightarrow> string option" where
  "b64_decode s =
     (case sextets s of None \<Rightarrow> None | Some ns \<Rightarrow> map_option (map char_of) (dec_groups ns))"

lemma enc_groups_bound: "\<forall>b \<in> set bs. b < 256 \<Longrightarrow> \<forall>n \<in> set (enc_groups bs). n < 64"
  by (induction bs rule: enc_groups.induct) auto

lemma sextets_chars: "\<forall>n \<in> set ns. n < 64 \<Longrightarrow> sextets (map b64_char ns) = Some ns"
  by (induction ns) (auto simp: b64_char_not_newline b64_value_char)

lemma dec_enc_groups: "\<forall>b \<in> set bs. b < 256 \<Longrightarrow> dec_groups (enc_groups bs) = Some bs"
  by (induction bs rule: enc_groups.induct) auto

lemma b64_roundtrip: "b64_decode (b64_encode s) = Some s"
proof -
  have bytes: "\<forall>b \<in> set (map of_char s). b < (256 :: nat)" by auto
  have "sextets (b64_encode s) = Some (enc_groups (map of_char s))"
    unfolding b64_encode_def by (rule sextets_chars[OF enc_groups_bound[OF bytes]])
  then show ?thesis
    by (simp add: b64_decode_def dec_enc_groups[OF bytes] comp_def)
qed

lemma b64_encode_inj: "b64_encode s = b64_encode t \<Longrightarrow> s = t"
  by (metis b64_roundtrip option.inject)

lemma b64_encode_no_dot: "CHR ''.'' \<notin> set (b64_encode s)"
  unfolding b64_encode_def by (metis b64_char_not_dot ex_map_conv)

lemma length_enc_groups: "length (enc_groups bs) = (4 * length bs + 2) div 3"
  by (induction bs rule: enc_groups.induct) auto

lemma length_b64_encode: "length (b64_encode s) = (4 * length s + 2) div 3"
  by (simp add: b64_encode_def length_enc_groups)

end
