(* ===== verification/Jwks.thy ===== *)
theory Jwks
  imports Jwt_Claims Go_Base64 Config
begin

text \<open>
  The key cache, \<open>internal/auth/jwt/jwks.go\<close>: discovery, the key set, the conversion of a
  JWK to a public key, and the cache with its time to live.

  \<open>web\<close> is the network: what a GET of an address answers. A public key is a value of
  \<open>public_key\<close>, one constructor per Go type the conversion can produce. A lookup and the
  fetch that may follow it happen at the two clock readings \<open>now\<close> and \<open>later\<close>.
\<close>

section \<open>Keys\<close>

record jwk =
  jwk_kty :: string
  jwk_kid :: string
  jwk_use :: string
  jwk_alg :: string
  jwk_crv :: string
  jwk_n :: string
  jwk_e :: string
  jwk_x :: string
  jwk_y :: string

datatype public_key =
    RSAKey nat int
  | ECKey curve nat nat
  | OKPKey string

record cached_key =
  ck_key :: public_key
  ck_expires_at :: time

record key_cache =
  jk_cache :: "string \<rightharpoonup> cached_key"
  jk_ttl :: duration

definition new_key_cache :: "int \<Rightarrow> key_cache" where
  "new_key_cache ttl_minutes =
     \<lparr>jk_cache = Map.empty, jk_ttl = mul64 (if ttl_minutes = 0 then 1440 else ttl_minutes) minute\<rparr>"

definition cache_get :: "time \<Rightarrow> string \<Rightarrow> key_cache \<Rightarrow> public_key option" where
  "cache_get now kid kc =
     (case jk_cache kc kid of
        None \<Rightarrow> None
      | Some cached \<Rightarrow> if time_after now (ck_expires_at cached) then None else Some (ck_key cached))"

definition cache_set :: "time \<Rightarrow> string \<Rightarrow> public_key \<Rightarrow> key_cache \<Rightarrow> key_cache" where
  "cache_set now kid key kc =
     kc\<lparr>jk_cache := (jk_cache kc)(kid \<mapsto> \<lparr>ck_key = key, ck_expires_at = time_add now (jk_ttl kc)\<rparr>)\<rparr>"

section \<open>Fetching\<close>

type_synonym web = "string \<Rightarrow> http_reply"

text \<open>The text of a decoding error of the library, \<open>Inr\<close> the decoded value.\<close>

definition read_body :: "library \<Rightarrow> http_reply \<Rightarrow> (string, json) result" where
  "read_body lib reply =
     (case reply of Reply st body \<Rightarrow> lib_json_first lib body | NoReply e \<Rightarrow> Inl e | ReplyUnread st \<Rightarrow> Inl ''unexpected EOF'')"

definition body_text :: "http_reply \<Rightarrow> string" where
  "body_text reply = (case reply of Reply st body \<Rightarrow> body | _ \<Rightarrow> [])"

definition reply_status :: "http_reply \<Rightarrow> int" where
  "reply_status reply = (case reply of Reply st body \<Rightarrow> st | ReplyUnread st \<Rightarrow> st | NoReply e \<Rightarrow> 0)"

definition discover_jwks_uri :: "library \<Rightarrow> web \<Rightarrow> string \<Rightarrow> (string, string) result" where
  "discover_jwks_uri lib web issuer =
     (let reply = web (issuer @ ''/.well-known/openid-configuration'')
      in case reply of
           NoReply e \<Rightarrow> Inl (''failed to fetch OIDC discovery: '' @ e)
         | _ \<Rightarrow>
             if reply_status reply \<noteq> 200
             then Inl (''OIDC discovery returned status '' @ int_string (reply_status reply) @ '': '' @ body_text reply)
             else (case read_body lib reply of
                     Inl e \<Rightarrow> Inl (''failed to parse OIDC discovery response: '' @ e)
                   | Inr v \<Rightarrow>
                       (case Option.bind (object_members v) (string_field ''jwks_uri'' []) of
                          None \<Rightarrow> Inl ''failed to parse OIDC discovery response: json: type error''
                        | Some uri \<Rightarrow>
                            if uri = [] then Inl ''jwks_uri not found in OIDC discovery response'' else Inr uri)))"

definition json_to_jwk :: "json \<Rightarrow> jwk option" where
  "json_to_jwk v =
     Option.bind (object_members v) (\<lambda>kvs.
     Option.bind (string_field ''kty'' [] kvs) (\<lambda>kty.
     Option.bind (string_field ''kid'' [] kvs) (\<lambda>kid.
     Option.bind (string_field ''use'' [] kvs) (\<lambda>use.
     Option.bind (string_field ''alg'' [] kvs) (\<lambda>alg.
     Option.bind (string_field ''crv'' [] kvs) (\<lambda>crv.
     Option.bind (string_field ''n'' [] kvs) (\<lambda>n.
     Option.bind (string_field ''e'' [] kvs) (\<lambda>e.
     Option.bind (string_field ''x'' [] kvs) (\<lambda>x.
     Option.bind (string_field ''y'' [] kvs) (\<lambda>y.
       Some \<lparr>jwk_kty = kty, jwk_kid = kid, jwk_use = use, jwk_alg = alg, jwk_crv = crv,
             jwk_n = n, jwk_e = e, jwk_x = x, jwk_y = y\<rparr>))))))))))"

fun json_to_jwk_list :: "json list \<Rightarrow> jwk list option" where
  "json_to_jwk_list [] = Some []"
| "json_to_jwk_list (v # vs) =
     Option.bind (json_to_jwk v) (\<lambda>k. map_option (\<lambda>ks. k # ks) (json_to_jwk_list vs))"

fun jwks_keys :: "jwk list \<Rightarrow> (string \<times> json) list \<Rightarrow> jwk list option" where
  "jwks_keys cur [] = Some cur"
| "jwks_keys cur ((k, v) # kvs) =
     (if equal_fold k ''keys'' then
        (case v of
           JArr vs \<Rightarrow> Option.bind (json_to_jwk_list vs) (\<lambda>keys. jwks_keys keys kvs)
         | JNull \<Rightarrow> jwks_keys [] kvs
         | _ \<Rightarrow> None)
      else jwks_keys cur kvs)"

definition fetch_jwks :: "library \<Rightarrow> web \<Rightarrow> string \<Rightarrow> (string, jwk list) result" where
  "fetch_jwks lib web uri =
     (let reply = web uri
      in case reply of
           NoReply e \<Rightarrow> Inl (''failed to fetch JWKS: '' @ e)
         | _ \<Rightarrow>
             if reply_status reply \<noteq> 200
             then Inl (''JWKS endpoint returned status '' @ int_string (reply_status reply) @ '': '' @ body_text reply)
             else (case read_body lib reply of
                     Inl e \<Rightarrow> Inl (''failed to parse JWKS response: '' @ e)
                   | Inr v \<Rightarrow>
                       (case Option.bind (object_members v) (jwks_keys []) of
                          None \<Rightarrow> Inl ''failed to parse JWKS response: json: type error''
                        | Some keys \<Rightarrow> Inr keys)))"

section \<open>Conversion\<close>

definition decode_named :: "library \<Rightarrow> string \<Rightarrow> string \<Rightarrow> (string, string) result" where
  "decode_named lib what s =
     (case b64_decode s of
        None \<Rightarrow> Inl (''failed to decode '' @ what @ '': '' @ lib_b64_error lib s)
      | Some bytes \<Rightarrow> Inr bytes)"

definition jwk_to_rsa :: "library \<Rightarrow> jwk \<Rightarrow> (string, public_key) result" where
  "jwk_to_rsa lib j =
     bind_result (decode_named lib ''N'' (jwk_n j)) (\<lambda>nb.
       if jwk_e j = [] then Inr (RSAKey (set_bytes nb) 65537)
       else bind_result (decode_named lib ''E'' (jwk_e j)) (\<lambda>eb.
              Inr (RSAKey (set_bytes nb) (wrap64 (int (set_bytes eb))))))"

definition curve_of :: "string \<Rightarrow> curve option" where
  "curve_of crv =
     (if crv = ''P-256'' then Some P256 else if crv = ''P-384'' then Some P384
      else if crv = ''P-521'' then Some P521 else None)"

definition jwk_to_ec :: "library \<Rightarrow> jwk \<Rightarrow> (string, public_key) result" where
  "jwk_to_ec lib j =
     bind_result (decode_named lib ''X'' (jwk_x j)) (\<lambda>xb.
     bind_result (decode_named lib ''Y'' (jwk_y j)) (\<lambda>yb.
       case curve_of (jwk_crv j) of
         None \<Rightarrow> Inl (''unsupported EC curve: '' @ jwk_crv j)
       | Some c \<Rightarrow> Inr (ECKey c (set_bytes xb) (set_bytes yb))))"

definition jwk_to_okp :: "library \<Rightarrow> jwk \<Rightarrow> (string, public_key) result" where
  "jwk_to_okp lib j =
     (if jwk_crv j \<noteq> ''Ed25519'' then Inl (''unsupported OKP curve: '' @ jwk_crv j)
      else bind_result (decode_named lib ''X'' (jwk_x j)) (\<lambda>xb.
             if length xb \<noteq> 32
             then Inl (''invalid Ed25519 key length: expected 32, got '' @ int_string (int (length xb)))
             else Inr (OKPKey xb)))"

definition jwk_to_public_key :: "library \<Rightarrow> jwk \<Rightarrow> (string, public_key) result" where
  "jwk_to_public_key lib j =
     (if jwk_kty j = ''RSA'' then jwk_to_rsa lib j
      else if jwk_kty j = ''EC'' then jwk_to_ec lib j
      else if jwk_kty j = ''OKP'' then jwk_to_okp lib j
      else Inl (''unsupported key type: '' @ jwk_kty j))"

section \<open>Looking up a key\<close>

fun find_jwk :: "string \<Rightarrow> jwk list \<Rightarrow> jwk option" where
  "find_jwk kid [] = None"
| "find_jwk kid (j # js) = (if jwk_kid j = kid then Some j else find_jwk kid js)"

definition get_public_key ::
    "library \<Rightarrow> web \<Rightarrow> time \<Rightarrow> time \<Rightarrow> string \<Rightarrow> string \<Rightarrow> key_cache \<Rightarrow> (string, public_key) result \<times> key_cache" where
  "get_public_key lib web now later kid issuer kc =
     (case cache_get now kid kc of
        Some key \<Rightarrow> (Inr key, kc)
      | None \<Rightarrow>
          (case discover_jwks_uri lib web issuer of
             Inl e \<Rightarrow> (Inl (''failed to discover JWKS URI: '' @ e), kc)
           | Inr uri \<Rightarrow>
               (case fetch_jwks lib web uri of
                  Inl e \<Rightarrow> (Inl (''failed to fetch JWKS: '' @ e), kc)
                | Inr keys \<Rightarrow>
                    (case find_jwk kid keys of
                       None \<Rightarrow> (Inl (''key with kid '' @ [CHR 0x27] @ kid @ [CHR 0x27] @ '' not found in JWKS''), kc)
                     | Some j \<Rightarrow>
                         (case jwk_to_public_key lib j of
                            Inl e \<Rightarrow> (Inl (''failed to convert JWK to public key: '' @ e), kc)
                          | Inr key \<Rightarrow> (Inr key, cache_set later kid key kc))))))"

section \<open>Where a key comes from\<close>

text \<open>The issuer publishes a key under a kid: its document and its key set say so.\<close>

definition published :: "library \<Rightarrow> web \<Rightarrow> string \<Rightarrow> string \<Rightarrow> public_key \<Rightarrow> bool" where
  "published lib web issuer kid key \<longleftrightarrow>
     (\<exists>uri keys j. discover_jwks_uri lib web issuer = Inr uri \<and> fetch_jwks lib web uri = Inr keys
        \<and> find_jwk kid keys = Some j \<and> jwk_to_public_key lib j = Inr key)"

lemma find_jwk_kid: "find_jwk kid keys = Some j \<Longrightarrow> jwk_kid j = kid \<and> j \<in> set keys"
  by (induction keys) (auto split: if_splits)

lemma get_public_key_cases:
  assumes "get_public_key lib web now later kid issuer kc = (res, kc')"
  shows "(\<exists>key. cache_get now kid kc = Some key \<and> res = Inr key \<and> kc' = kc)
    \<or> (\<exists>key. cache_get now kid kc = None \<and> published lib web issuer kid key \<and> res = Inr key
          \<and> kc' = cache_set later kid key kc)
    \<or> (\<exists>e. cache_get now kid kc = None \<and> res = Inl e \<and> kc' = kc \<and> (\<forall>key. \<not> published lib web issuer kid key))"
proof (cases "cache_get now kid kc")
  case (Some key)
  then show ?thesis using assms by (simp add: get_public_key_def)
next
  case None
  note miss = None
  show ?thesis
  proof (cases "discover_jwks_uri lib web issuer")
    case (Inl e)
    then show ?thesis using assms miss by (auto simp: get_public_key_def published_def)
  next
    case (Inr uri)
    note uri = Inr
    show ?thesis
    proof (cases "fetch_jwks lib web uri")
      case (Inl e)
      then show ?thesis using assms miss uri by (auto simp: get_public_key_def published_def)
    next
      case (Inr keys)
      note keys = Inr
      show ?thesis
      proof (cases "find_jwk kid keys")
        case None
        then show ?thesis using assms miss uri keys by (auto simp: get_public_key_def published_def)
      next
        case (Some j)
        note j = Some
        show ?thesis
        proof (cases "jwk_to_public_key lib j")
          case (Inl e)
          then show ?thesis using assms miss uri keys j by (auto simp: get_public_key_def published_def)
        next
          case (Inr key)
          then have "published lib web issuer kid key" using uri keys j by (auto simp: published_def)
          then show ?thesis using assms miss uri keys j Inr by (simp add: get_public_key_def) blast
        qed
      qed
    qed
  qed
qed

section \<open>The cache over time\<close>

text \<open>
  C28. The cache decides when the network is asked: within its time to live a key that was
  fetched answers every lookup of its kid, whatever the network would say and without
  changing the cache; from the instant after, the lookup asks the issuer again and answers
  with the key published then, or fails.
\<close>

theorem cached_key_lifetime:
  assumes "published lib web issuer kid key" and "cache_get t0 kid kc = None"
    and "0 \<le> jk_ttl kc" and "get_public_key lib web t0 later kid issuer kc = (res, kc1)"
  shows "res = Inr key
    \<and> (t \<le> later + jk_ttl kc \<longrightarrow> get_public_key lib web' t t' kid issuer kc1 = (Inr key, kc1))
    \<and> (later + jk_ttl kc < t \<longrightarrow>
         (\<forall>key'. fst (get_public_key lib web' t t' kid issuer kc1) = Inr key' \<longleftrightarrow> published lib web' issuer kid key'))"
proof -
  have uniq: "\<And>w k1 k2. published lib w issuer kid k1 \<Longrightarrow> published lib w issuer kid k2 \<Longrightarrow> k1 = k2"
    by (auto simp: published_def)
  from get_public_key_cases[OF assms(4)] assms(1,2)
  have r: "res = Inr key" and kc1: "kc1 = cache_set later kid key kc"
    using uniq by auto
  have hit: "cache_get t kid kc1 = (if later + jk_ttl kc < t then None else Some key)"
    by (simp add: kc1 cache_set_def cache_get_def go_time)
  obtain res' kc2 where q: "get_public_key lib web' t t' kid issuer kc1 = (res', kc2)" by fastforce
  show ?thesis
  proof (intro conjI impI)
    assume "t \<le> later + jk_ttl kc"
    then show "get_public_key lib web' t t' kid issuer kc1 = (Inr key, kc1)"
      using hit by (simp add: get_public_key_def)
  next
    assume "later + jk_ttl kc < t"
    then have "cache_get t kid kc1 = None" using hit by simp
    then show "\<forall>key'. fst (get_public_key lib web' t t' kid issuer kc1) = Inr key' \<longleftrightarrow> published lib web' issuer kid key'"
      using get_public_key_cases[OF q] uniq q by auto
  qed (rule r)
qed

text \<open>A small issuer: one document, one key set with one RSA key.\<close>

definition demo_json :: "string \<Rightarrow> (string, json) result" where
  "demo_json text =
     (if text = ''doc'' then Inr (JObj [(''jwks_uri'', JStr ''u'')])
      else if text = ''set'' then
        Inr (JObj [(''keys'', JArr [JObj [(''kty'', JStr ''RSA''), (''kid'', JStr ''k1''), (''n'', JStr ''AQAB'')]])])
      else Inl ''EOF'')"

definition demo_lib :: library where
  "demo_lib = demo_library\<lparr>lib_json_first := demo_json\<rparr>"

definition demo_web :: web where
  "demo_web addr = (if addr = ''u'' then Reply 200 ''set'' else Reply 200 ''doc'')"

lemma demo_published: "published demo_lib demo_web ''iss'' ''k1'' (RSAKey 65537 65537)"
proof -
  have n: "b64_decode ''AQAB'' = Some [CHR 0x01, CHR 0x00, CHR 0x01]" by code_simp
  let ?j = "\<lparr>jwk_kty = ''RSA'', jwk_kid = ''k1'', jwk_use = [], jwk_alg = [], jwk_crv = [],
      jwk_n = ''AQAB'', jwk_e = [], jwk_x = [], jwk_y = []\<rparr>"
  have k: "jwks_keys [] [(''keys'', JArr [JObj [(''kty'', JStr ''RSA''), (''kid'', JStr ''k1''), (''n'', JStr ''AQAB'')]])]
      = Some [?j]"
    by code_simp
  have u: "string_field ''jwks_uri'' [] [(''jwks_uri'', JStr ''u'')] = Some ''u''" by code_simp
  have discover: "discover_jwks_uri demo_lib demo_web ''iss'' = Inr ''u''"
    by (simp add: discover_jwks_uri_def demo_web_def read_body_def reply_status_def demo_lib_def
        demo_json_def object_members_def u del: string_field.simps)
  have fetch: "fetch_jwks demo_lib demo_web ''u'' = Inr [?j]"
    by (simp add: fetch_jwks_def demo_web_def read_body_def reply_status_def demo_lib_def
        demo_json_def object_members_def k del: jwks_keys.simps)
  have "jwk_to_public_key demo_lib ?j = Inr (RSAKey 65537 65537)"
    by (simp add: jwk_to_public_key_def jwk_to_rsa_def decode_named_def n set_bytes_def)
  moreover have "find_jwk ''k1'' [?j] = Some ?j" by simp
  ultimately show ?thesis using discover fetch unfolding published_def by blast
qed

theorem cached_key_lifetime_witness:
  "\<exists>kc. get_public_key demo_lib demo_web 0 1 ''k1'' ''iss'' (new_key_cache 1) = (Inr (RSAKey 65537 65537), kc)
     \<and> get_public_key demo_lib (\<lambda>_. NoReply ''down'') 5 6 ''k1'' ''iss'' kc = (Inr (RSAKey 65537 65537), kc)"
proof -
  let ?kc = "new_key_cache 1"
  obtain res kc1 where g: "get_public_key demo_lib demo_web 0 1 ''k1'' ''iss'' ?kc = (res, kc1)" by fastforce
  have ttl: "jk_ttl ?kc = minute"
    by (simp add: new_key_cache_def mul64_exact int64_ok_def minute_def)
  have "cache_get 0 ''k1'' ?kc = None" by (simp add: cache_get_def new_key_cache_def)
  from cached_key_lifetime[OF demo_published this _ g, of 5 "\<lambda>_. NoReply ''down''" 6] ttl g
  show ?thesis by (simp add: minute_def)
qed

end
