(* ===== verification/Validator.thy ===== *)
theory Validator
  imports Jwks
begin

text \<open>
  Token validation, \<open>internal/auth/jwt/validator.go\<close>, and the classification of its errors,
  \<open>mapJWTError\<close> of \<open>internal/proxy/proxy.go\<close>. Errors are the message texts, because the
  classification searches them for phrases.

  The validator's state is its configuration and its key cache. The signature primitives
  are arguments (\<open>library\<close>); which primitive is called, with which key, hash and bytes, is
  the code's decision and is modelled.
\<close>

section \<open>State\<close>

record validator =
  vd_config :: jwt_config
  vd_keys :: key_cache

definition new_validator :: "jwt_config \<Rightarrow> validator" where
  "new_validator cfg = \<lparr>vd_config = cfg, vd_keys = new_key_cache (jc_cache_ttl_mins cfg)\<rparr>"

definition is_symmetric_algorithm :: "string \<Rightarrow> bool" where
  "is_symmetric_algorithm alg = has_prefix alg ''HS''"

section \<open>Standard claims\<close>

definition get_int64 :: "json \<Rightarrow> (string, int) result" where
  "get_int64 v =
     (case v of
        JNum m e \<Rightarrow> if num_is_whole m e then Inr (num_to_int64 m e) else Inl ''float64 has fractional part''
      | _ \<Rightarrow> Inl (''cannot convert '' @ type_name v @ '' to int64''))"

definition validate_audience :: "jwt_config \<Rightarrow> json \<Rightarrow> bool" where
  "validate_audience cfg aud =
     (case aud of
        JStr s \<Rightarrow> s = jc_audience cfg
      | JArr items \<Rightarrow> list_ex (\<lambda>a. a = JStr (jc_audience cfg)) items
      | _ \<Rightarrow> False)"

definition check_exp :: "int \<Rightarrow> int \<Rightarrow> claims \<Rightarrow> (string, unit) result" where
  "check_exp now tol claims =
     (case claims ''exp'' of
        None \<Rightarrow> Inr ()
      | Some v \<Rightarrow>
          (case get_int64 v of
             Inl e \<Rightarrow> Inl (''invalid exp claim: '' @ e)
           | Inr t \<Rightarrow> if add64 t tol < now then Inl ''token expired'' else Inr ()))"

definition check_nbf :: "int \<Rightarrow> int \<Rightarrow> claims \<Rightarrow> (string, unit) result" where
  "check_nbf now tol claims =
     (case claims ''nbf'' of
        None \<Rightarrow> Inr ()
      | Some v \<Rightarrow>
          (case get_int64 v of
             Inl e \<Rightarrow> Inl (''invalid nbf claim: '' @ e)
           | Inr t \<Rightarrow> if now < sub64 t tol then Inl ''token not yet valid'' else Inr ()))"

definition check_iss :: "jwt_config \<Rightarrow> claims \<Rightarrow> (string, unit) result" where
  "check_iss cfg claims =
     (case claims ''iss'' of
        None \<Rightarrow> Inl ''iss claim not found''
      | Some v \<Rightarrow>
          (case v of
             JStr s \<Rightarrow> if s \<noteq> jc_issuer cfg
                then Inl (''invalid issuer: expected '' @ jc_issuer cfg @ '', got '' @ s) else Inr ()
           | _ \<Rightarrow> Inl ''iss claim is not a string''))"

definition check_aud :: "jwt_config \<Rightarrow> claims \<Rightarrow> (string, unit) result" where
  "check_aud cfg claims =
     (case claims ''aud'' of
        None \<Rightarrow> Inl ''aud claim not found''
      | Some v \<Rightarrow> if \<not> validate_audience cfg v then Inl ''invalid audience'' else Inr ())"

text \<open>Seconds from Go's zero time (year 1) to the Unix epoch.\<close>

definition unix_seconds :: "time \<Rightarrow> int" where
  "unix_seconds now = now div second - 62135596800"

definition validate_standard_claims :: "time \<Rightarrow> jwt_config \<Rightarrow> claims \<Rightarrow> (string, unit) result" where
  "validate_standard_claims t cfg claims =
     (let now = unix_seconds t; tol = jc_tolerance_secs cfg
      in bind_result (check_exp now tol claims) (\<lambda>_.
         bind_result (check_nbf now tol claims) (\<lambda>_.
         bind_result (check_iss cfg claims) (\<lambda>_. check_aud cfg claims))))"

section \<open>Signatures\<close>

definition verify_rsa :: "library \<Rightarrow> string \<Rightarrow> string \<Rightarrow> public_key \<Rightarrow> hash_alg \<Rightarrow> (string, unit) result" where
  "verify_rsa lib message signature key h =
     (case key of
        RSAKey n e \<Rightarrow>
          (case lib_rsa_pkcs1 lib (n, e) h (lib_hash lib h message) signature of
             Some err \<Rightarrow> Inl err | None \<Rightarrow> Inr ())
      | _ \<Rightarrow> Inl ''public key is not an RSA key'')"

definition verify_pss :: "library \<Rightarrow> string \<Rightarrow> string \<Rightarrow> public_key \<Rightarrow> hash_alg \<Rightarrow> (string, unit) result" where
  "verify_pss lib message signature key h =
     (case key of
        RSAKey n e \<Rightarrow>
          (case lib_rsa_pss lib (n, e) h (lib_hash lib h message) signature of
             Some err \<Rightarrow> Inl err | None \<Rightarrow> Inr ())
      | _ \<Rightarrow> Inl ''public key is not an RSA key'')"

definition verify_ecdsa_signature :: "library \<Rightarrow> curve \<times> nat \<times> nat \<Rightarrow> string \<Rightarrow> string \<Rightarrow> (string, unit) result" where
  "verify_ecdsa_signature lib key digest sig =
     (if length sig mod 2 \<noteq> 0 then Inl ''invalid ECDSA signature length''
      else let size = length sig div 2
           in if \<not> lib_ecdsa lib key digest (set_bytes (take size sig)) (set_bytes (drop size sig))
              then Inl ''invalid token signature'' else Inr ())"

definition verify_ecdsa :: "library \<Rightarrow> string \<Rightarrow> string \<Rightarrow> public_key \<Rightarrow> hash_alg \<Rightarrow> (string, unit) result" where
  "verify_ecdsa lib message signature key h =
     (case key of
        ECKey c x y \<Rightarrow> verify_ecdsa_signature lib (c, x, y) (lib_hash lib h message) signature
      | _ \<Rightarrow> Inl ''public key is not an ECDSA key'')"

definition verify_eddsa :: "library \<Rightarrow> string \<Rightarrow> string \<Rightarrow> public_key \<Rightarrow> (string, unit) result" where
  "verify_eddsa lib message signature key =
     (case key of
        OKPKey k \<Rightarrow> if \<not> lib_ed25519 lib k message signature then Inl ''invalid token signature'' else Inr ()
      | _ \<Rightarrow> Inl ''public key is not an Ed25519 key'')"

definition verify_signature ::
    "library \<Rightarrow> string \<Rightarrow> string \<Rightarrow> string \<Rightarrow> string \<Rightarrow> public_key \<Rightarrow> (string, unit) result" where
  "verify_signature lib alg header_str payload_str signature_str key =
     (case b64_decode signature_str of
        None \<Rightarrow> Inl (''failed to decode signature: '' @ lib_b64_error lib signature_str)
      | Some sig \<Rightarrow>
          (let message = header_str @ ''.'' @ payload_str
           in if alg = ''RS256'' then verify_rsa lib message sig key SHA256
              else if alg = ''RS384'' then verify_rsa lib message sig key SHA384
              else if alg = ''RS512'' then verify_rsa lib message sig key SHA512
              else if alg = ''PS256'' then verify_pss lib message sig key SHA256
              else if alg = ''PS384'' then verify_pss lib message sig key SHA384
              else if alg = ''PS512'' then verify_pss lib message sig key SHA512
              else if alg = ''ES256'' then verify_ecdsa lib message sig key SHA256
              else if alg = ''ES384'' then verify_ecdsa lib message sig key SHA384
              else if alg = ''ES512'' then verify_ecdsa lib message sig key SHA512
              else if alg = ''EdDSA'' then verify_eddsa lib message sig key
              else Inl (''unsupported algorithm: '' @ alg)))"

section \<open>Validation\<close>

text \<open>The part of \<open>ValidateToken\<close> that does not need a key.\<close>

record parsed_token =
  pt_alg :: string
  pt_kid :: string
  pt_claims :: claims

definition parse_header :: "library \<Rightarrow> string \<Rightarrow> (string, string \<times> string) result" where
  "parse_header lib header_str =
     (case b64_decode header_str of
        None \<Rightarrow> Inl (''failed to decode header: '' @ lib_b64_error lib header_str)
      | Some bytes \<Rightarrow>
          (case lib_json lib bytes of
             Inl e \<Rightarrow> Inl (''failed to parse header: '' @ e)
           | Inr v \<Rightarrow>
               (case object_members v of
                  None \<Rightarrow> Inl ''failed to parse header: json: type error''
                | Some kvs \<Rightarrow>
                    (case (string_field ''alg'' [] kvs, string_field ''kid'' [] kvs, string_field ''typ'' [] kvs) of
                       (Some alg, Some kid, Some typ) \<Rightarrow> Inr (alg, kid)
                     | _ \<Rightarrow> Inl ''failed to parse header: json: type error''))))"

definition parse_payload :: "library \<Rightarrow> string \<Rightarrow> (string, claims) result" where
  "parse_payload lib payload_str =
     (case b64_decode payload_str of
        None \<Rightarrow> Inl (''failed to decode payload: '' @ lib_b64_error lib payload_str)
      | Some bytes \<Rightarrow>
          (case lib_json lib bytes of
             Inl e \<Rightarrow> Inl (''failed to parse payload: '' @ e)
           | Inr v \<Rightarrow>
               (case json_to_map v of
                  None \<Rightarrow> Inl ''failed to parse payload: json: type error''
                | Some claims \<Rightarrow> Inr claims)))"

definition check_token :: "library \<Rightarrow> time \<Rightarrow> jwt_config \<Rightarrow> string \<Rightarrow> string \<Rightarrow> (string, parsed_token) result" where
  "check_token lib now cfg header_str payload_str =
     (case parse_header lib header_str of
        Inl e \<Rightarrow> Inl e
      | Inr (alg, kid) \<Rightarrow>
          if is_symmetric_algorithm alg then Inl (''symmetric algorithms not allowed, got '' @ alg)
          else if kid = [] then Inl ''kid not found in token header''
          else bind_result (parse_payload lib payload_str) (\<lambda>claims.
               bind_result (validate_standard_claims now cfg claims) (\<lambda>_.
                 Inr \<lparr>pt_alg = alg, pt_kid = kid, pt_claims = claims\<rparr>)))"

definition validate_token ::
    "library \<Rightarrow> web \<times> time \<times> time \<Rightarrow> string \<Rightarrow> validator \<Rightarrow> (string, claims) result \<times> validator" where
  "validate_token lib net token v =
     (case net of (web, now, later) \<Rightarrow>
       (case split_on CHR ''.'' token of
          [header_str, payload_str, signature_str] \<Rightarrow>
            (case check_token lib now (vd_config v) header_str payload_str of
               Inl e \<Rightarrow> (Inl e, v)
             | Inr t \<Rightarrow>
                 (case get_public_key lib web now later (pt_kid t) (jc_issuer (vd_config v)) (vd_keys v) of
                    (Inl e, kc) \<Rightarrow> (Inl (''failed to get public key: '' @ e), v\<lparr>vd_keys := kc\<rparr>)
                  | (Inr key, kc) \<Rightarrow>
                      (case verify_signature lib (pt_alg t) header_str payload_str signature_str key of
                         Inl e \<Rightarrow> (Inl e, v\<lparr>vd_keys := kc\<rparr>)
                       | Inr _ \<Rightarrow> (Inr (pt_claims t), v\<lparr>vd_keys := kc\<rparr>))))
        | parts \<Rightarrow> (Inl (''invalid token format: expected 3 parts, got '' @ int_string (int (length parts))), v)))"

section \<open>Classification of errors\<close>

definition map_jwt_error :: "string \<Rightarrow> int \<times> string" where
  "map_jwt_error msg =
     (if contains msg ''token expired'' then (401, ''token expired'')
      else if contains msg ''not yet valid'' then (401, ''token not yet valid'')
      else if contains msg ''invalid token signature'' then (401, ''invalid token signature'')
      else if contains msg ''invalid issuer'' \<or> contains msg ''invalid audience''
           \<or> contains msg ''iss claim'' \<or> contains msg ''aud claim'' then (401, ''invalid token claims'')
      else if contains msg ''kid not found'' \<or> contains msg ''invalid token format''
           \<or> contains msg ''failed to decode'' \<or> contains msg ''failed to parse'' then (401, ''invalid token format'')
      else if contains msg ''failed to get public key'' \<or> contains msg ''jwks'' \<or> contains msg ''oidc''
        then (502, ''unable to validate token'')
      else (401, ''invalid token''))"

section \<open>What acceptance means\<close>

text \<open>
  The specification of a valid signature: the algorithm is one of the ten asymmetric ones,
  the key has its type, and its primitive accepts the signed bytes.
\<close>

definition rsa_algs :: "(string \<times> hash_alg) list" where
  "rsa_algs = [(''RS256'', SHA256), (''RS384'', SHA384), (''RS512'', SHA512)]"

definition pss_algs :: "(string \<times> hash_alg) list" where
  "pss_algs = [(''PS256'', SHA256), (''PS384'', SHA384), (''PS512'', SHA512)]"

definition ec_algs :: "(string \<times> hash_alg) list" where
  "ec_algs = [(''ES256'', SHA256), (''ES384'', SHA384), (''ES512'', SHA512)]"

definition signature_valid :: "library \<Rightarrow> string \<Rightarrow> string \<Rightarrow> string \<Rightarrow> public_key \<Rightarrow> bool" where
  "signature_valid lib alg message sig key \<longleftrightarrow>
     (\<exists>n e h. key = RSAKey n e \<and> map_of rsa_algs alg = Some h
        \<and> lib_rsa_pkcs1 lib (n, e) h (lib_hash lib h message) sig = None)
   \<or> (\<exists>n e h. key = RSAKey n e \<and> map_of pss_algs alg = Some h
        \<and> lib_rsa_pss lib (n, e) h (lib_hash lib h message) sig = None)
   \<or> (\<exists>c x y h. key = ECKey c x y \<and> map_of ec_algs alg = Some h \<and> even (length sig)
        \<and> lib_ecdsa lib (c, x, y) (lib_hash lib h message)
             (set_bytes (take (length sig div 2) sig)) (set_bytes (drop (length sig div 2) sig)))
   \<or> (\<exists>k. key = OKPKey k \<and> alg = ''EdDSA'' \<and> lib_ed25519 lib k message sig)"

lemma verify_rsa_ok: "verify_rsa lib m sig key h = Inr () \<longleftrightarrow>
    (\<exists>n e. key = RSAKey n e \<and> lib_rsa_pkcs1 lib (n, e) h (lib_hash lib h m) sig = None)"
  by (auto simp: verify_rsa_def split: public_key.splits option.splits)

lemma verify_pss_ok: "verify_pss lib m sig key h = Inr () \<longleftrightarrow>
    (\<exists>n e. key = RSAKey n e \<and> lib_rsa_pss lib (n, e) h (lib_hash lib h m) sig = None)"
  by (auto simp: verify_pss_def split: public_key.splits option.splits)

lemma verify_ecdsa_ok: "verify_ecdsa lib m sig key h = Inr () \<longleftrightarrow>
    (\<exists>c x y. key = ECKey c x y \<and> even (length sig)
       \<and> lib_ecdsa lib (c, x, y) (lib_hash lib h m)
            (set_bytes (take (length sig div 2) sig)) (set_bytes (drop (length sig div 2) sig)))"
  by (auto simp: verify_ecdsa_def verify_ecdsa_signature_def Let_def even_iff_mod_2_eq_zero
      split: public_key.splits)

lemma verify_eddsa_ok: "verify_eddsa lib m sig key = Inr () \<longleftrightarrow> (\<exists>k. key = OKPKey k \<and> lib_ed25519 lib k m sig)"
  by (auto simp: verify_eddsa_def split: public_key.splits)

lemmas verify_ok = verify_rsa_ok verify_pss_ok verify_ecdsa_ok verify_eddsa_ok

lemma verify_signature_ok:
  "verify_signature lib alg h p s key = Inr () \<longleftrightarrow>
     (\<exists>sig. b64_decode s = Some sig \<and> signature_valid lib alg (h @ ''.'' @ p) sig key)"
proof (cases "b64_decode s")
  case None
  then show ?thesis by (simp add: verify_signature_def)
next
  case (Some sig)
  show ?thesis
    unfolding verify_signature_def signature_valid_def Some Let_def rsa_algs_def pss_algs_def ec_algs_def
    by (simp add: verify_ok)
qed

end
