(* ===== verification/Validator_Claims.thy ===== *)
theory Validator_Claims
  imports Validator
begin

text \<open>
  What it takes for a token to be accepted, as a specification on the token's parts, and the
  interface \<open>TokenValidator\<close> (\<open>internal/admin/auth.go\<close>) as a locale, with the validator as
  its interpretation.
\<close>

section \<open>Standard claims\<close>

definition claim_int :: "claims \<Rightarrow> string \<Rightarrow> int \<Rightarrow> bool" where
  "claim_int claims name t \<longleftrightarrow> (\<exists>v. claims name = Some v \<and> get_int64 v = Inr t)"

text \<open>Present times are whole numbers within their limits; issuer and audience are the configured ones.\<close>

definition standard_claims_ok :: "int \<Rightarrow> jwt_config \<Rightarrow> claims \<Rightarrow> bool" where
  "standard_claims_ok now cfg claims \<longleftrightarrow>
     (claims ''exp'' = None \<or> (\<exists>t. claim_int claims ''exp'' t \<and> now \<le> add64 t (jc_tolerance_secs cfg)))
   \<and> (claims ''nbf'' = None \<or> (\<exists>t. claim_int claims ''nbf'' t \<and> sub64 t (jc_tolerance_secs cfg) \<le> now))
   \<and> claims ''iss'' = Some (JStr (jc_issuer cfg))
   \<and> (claims ''aud'' = Some (JStr (jc_audience cfg))
      \<or> (\<exists>items. claims ''aud'' = Some (JArr items) \<and> JStr (jc_audience cfg) \<in> set items))"

lemma check_exp_ok: "check_exp now tol claims = Inr () \<longleftrightarrow>
    claims ''exp'' = None \<or> (\<exists>t. claim_int claims ''exp'' t \<and> now \<le> add64 t tol)"
  by (auto simp: check_exp_def claim_int_def split: option.splits sum.splits)

lemma check_nbf_ok: "check_nbf now tol claims = Inr () \<longleftrightarrow>
    claims ''nbf'' = None \<or> (\<exists>t. claim_int claims ''nbf'' t \<and> sub64 t tol \<le> now)"
  by (auto simp: check_nbf_def claim_int_def split: option.splits sum.splits)

lemma check_iss_ok: "check_iss cfg claims = Inr () \<longleftrightarrow> claims ''iss'' = Some (JStr (jc_issuer cfg))"
  by (auto simp: check_iss_def split: option.splits json.splits)

lemma check_aud_ok: "check_aud cfg claims = Inr () \<longleftrightarrow>
    claims ''aud'' = Some (JStr (jc_audience cfg))
      \<or> (\<exists>items. claims ''aud'' = Some (JArr items) \<and> JStr (jc_audience cfg) \<in> set items)"
  by (auto simp: check_aud_def validate_audience_def list_ex_iff split: option.splits json.splits)

lemma unit_bind: "bind_result r (\<lambda>_. q) = Inr () \<longleftrightarrow> r = Inr () \<and> q = Inr ()" for r :: "(string, unit) result"
  by (cases r) auto

lemma standard_claims_iff:
  "validate_standard_claims t cfg claims = Inr () \<longleftrightarrow> standard_claims_ok (unix_seconds t) cfg claims"
  by (simp add: validate_standard_claims_def Let_def unit_bind standard_claims_ok_def
      check_exp_ok check_nbf_ok check_iss_ok check_aud_ok)

text \<open>
  For an expiry within the range of a clock and a tolerance that does not overflow, a
  token with the right issuer and audience is rejected as expired from exactly one second
  past its expiry plus the tolerance on, and not before.
\<close>

theorem expiry_boundary:
  assumes "claims ''exp'' = Some (JNum m 0)" and "claims ''nbf'' = None"
    and "claims ''iss'' = Some (JStr (jc_issuer cfg))" and "claims ''aud'' = Some (JStr (jc_audience cfg))"
    and "int64_ok m" and "int64_ok (m + jc_tolerance_secs cfg)"
  shows "validate_standard_claims t cfg claims
    = (if unix_seconds t \<le> m + jc_tolerance_secs cfg then Inr () else Inl ''token expired'')"
  using assms
  by (simp add: validate_standard_claims_def Let_def check_exp_def check_nbf_def check_iss_def check_aud_def
      get_int64_def num_is_whole_def num_to_int64_def validate_audience_def add64_exact)

definition demo_cfg :: jwt_config where
  "demo_cfg = \<lparr>jc_enabled = True, jc_issuer = ''iss'', jc_audience = ''aud'', jc_tolerance_secs = 30,
     jc_cache_ttl_mins = 1, jc_filters = Map.empty, jc_mappings = Map.empty, jc_allowed_emails = []\<rparr>"

definition demo_claims :: claims where
  "demo_claims = [''iss'' \<mapsto> JStr ''iss'', ''aud'' \<mapsto> JStr ''aud'', ''exp'' \<mapsto> JNum 100 0]"

theorem expiry_boundary_witness:
  "validate_standard_claims ((62135596800 + 130) * second) demo_cfg demo_claims = Inr ()
   \<and> validate_standard_claims ((62135596800 + 131) * second) demo_cfg demo_claims = Inl ''token expired''"
proof -
  from expiry_boundary[of demo_claims 100 demo_cfg "(62135596800 + 130) * second"]
    expiry_boundary[of demo_claims 100 demo_cfg "(62135596800 + 131) * second"]
  show ?thesis by (simp add: demo_claims_def demo_cfg_def int64_ok_def unix_seconds_def second_def)
qed

text \<open>
  A token without an expiry never expires: nothing about its acceptance by the claim
  checks depends on the clock.
\<close>

theorem missing_expiry_never_expires:
  assumes "claims ''exp'' = None" and "claims ''nbf'' = None"
  shows "validate_standard_claims t cfg claims = validate_standard_claims t' cfg claims"
  using assms by (simp add: validate_standard_claims_def Let_def check_exp_def check_nbf_def)

theorem missing_expiry_never_expires_witness:
  "validate_standard_claims 0 demo_cfg [''iss'' \<mapsto> JStr ''iss''] = validate_standard_claims (10 ^ 30) demo_cfg [''iss'' \<mapsto> JStr ''iss'']"
  by (rule missing_expiry_never_expires) simp_all

section \<open>Acceptance\<close>

text \<open>The key for a kid: cached and alive, or published by the issuer now.\<close>

definition key_available :: "library \<Rightarrow> web \<Rightarrow> time \<Rightarrow> validator \<Rightarrow> string \<Rightarrow> public_key \<Rightarrow> bool" where
  "key_available lib web now v kid key \<longleftrightarrow>
     cache_get now kid (vd_keys v) = Some key
   \<or> cache_get now kid (vd_keys v) = None \<and> published lib web (jc_issuer (vd_config v)) kid key"

definition token_accepted ::
    "library \<Rightarrow> web \<times> time \<times> time \<Rightarrow> validator \<Rightarrow> string \<Rightarrow> claims \<Rightarrow> bool" where
  "token_accepted lib net v token claims \<longleftrightarrow>
     (case net of (web, now, later) \<Rightarrow>
       \<exists>h p s alg kid sig key.
         split_on CHR ''.'' token = [h, p, s]
       \<and> parse_header lib h = Inr (alg, kid) \<and> \<not> has_prefix alg ''HS'' \<and> kid \<noteq> []
       \<and> parse_payload lib p = Inr claims
       \<and> standard_claims_ok (unix_seconds now) (vd_config v) claims
       \<and> key_available lib web now v kid key
       \<and> b64_decode s = Some sig \<and> signature_valid lib alg (h @ ''.'' @ p) sig key)"

lemma check_token_iff:
  "check_token lib now cfg h p = Inr t \<longleftrightarrow>
     parse_header lib h = Inr (pt_alg t, pt_kid t) \<and> \<not> has_prefix (pt_alg t) ''HS'' \<and> pt_kid t \<noteq> []
     \<and> parse_payload lib p = Inr (pt_claims t) \<and> standard_claims_ok (unix_seconds now) cfg (pt_claims t)"
  by (auto simp: check_token_def is_symmetric_algorithm_def bind_result_Inr_iff
      standard_claims_iff[symmetric] split: sum.splits)

lemma get_public_key_iff:
  "fst (get_public_key lib web now later kid (jc_issuer (vd_config v)) (vd_keys v)) = Inr key
   \<longleftrightarrow> key_available lib web now v kid key"
proof -
  obtain res kc where q: "get_public_key lib web now later kid (jc_issuer (vd_config v)) (vd_keys v) = (res, kc)"
    by fastforce
  have uniq: "\<And>k1 k2. published lib web (jc_issuer (vd_config v)) kid k1
      \<Longrightarrow> published lib web (jc_issuer (vd_config v)) kid k2 \<Longrightarrow> k1 = k2"
    by (auto simp: published_def)
  show ?thesis using get_public_key_cases[OF q] uniq q by (auto simp: key_available_def)
qed

lemma validate_token_three:
  assumes "split_on CHR ''.'' token = [h, p, s]"
  shows "fst (validate_token lib (web, now, later) token v) = Inr claims \<longleftrightarrow>
    (\<exists>t key. check_token lib now (vd_config v) h p = Inr t \<and> pt_claims t = claims
       \<and> key_available lib web now v (pt_kid t) key
       \<and> verify_signature lib (pt_alg t) h p s key = Inr ())"
proof (cases "check_token lib now (vd_config v) h p")
  case (Inl e)
  then show ?thesis using assms by (simp add: validate_token_def)
next
  case (Inr t)
  obtain res kc where q: "get_public_key lib web now later (pt_kid t) (jc_issuer (vd_config v)) (vd_keys v) = (res, kc)"
    by fastforce
  have avail: "key_available lib web now v (pt_kid t) key \<longleftrightarrow> res = Inr key" for key
    using get_public_key_iff[of lib web now later "pt_kid t" v key] q by simp
  show ?thesis
  proof (cases res)
    case (Inl e)
    then show ?thesis using assms Inr q avail by (simp add: validate_token_def)
  next
    case (Inr key)
    then show ?thesis using assms \<open>check_token lib now (vd_config v) h p = Inr t\<close> q avail
      by (cases "verify_signature lib (pt_alg t) h p s key") (auto simp: validate_token_def)
  qed
qed

lemma parsed_ex: "(\<exists>t. Q t \<and> pt_claims t = c) \<longleftrightarrow> (\<exists>alg kid. Q \<lparr>pt_alg = alg, pt_kid = kid, pt_claims = c\<rparr>)"
proof
  assume "\<exists>t. Q t \<and> pt_claims t = c"
  then obtain t where t: "Q t" "pt_claims t = c" by blast
  then have "t = \<lparr>pt_alg = pt_alg t, pt_kid = pt_kid t, pt_claims = c\<rparr>" by simp
  then show "\<exists>alg kid. Q \<lparr>pt_alg = alg, pt_kid = kid, pt_claims = c\<rparr>" using t(1) by metis
qed fastforce

lemma validate_token_iff:
  "fst (validate_token lib net token v) = Inr claims \<longleftrightarrow> token_accepted lib net v token claims"
proof -
  obtain web now later where net: "net = (web, now, later)" by (cases net)
  show ?thesis
  proof (cases "\<exists>h p s. split_on CHR ''.'' token = [h, p, s]")
    case True
    then obtain h p s where t: "split_on CHR ''.'' token = [h, p, s]" by blast
    have "fst (validate_token lib net token v) = Inr claims \<longleftrightarrow>
      (\<exists>alg kid key. check_token lib now (vd_config v) h p = Inr \<lparr>pt_alg = alg, pt_kid = kid, pt_claims = claims\<rparr>
         \<and> key_available lib web now v kid key \<and> verify_signature lib alg h p s key = Inr ())"
      unfolding net validate_token_three[OF t]
      using parsed_ex[of "\<lambda>t. \<exists>key. check_token lib now (vd_config v) h p = Inr t
          \<and> key_available lib web now v (pt_kid t) key \<and> verify_signature lib (pt_alg t) h p s key = Inr ()" claims]
      by (simp only: parsed_token.select_convs) blast
    then show ?thesis
      unfolding check_token_iff verify_signature_ok token_accepted_def net by (auto simp: t)
  next
    case False
    have "fst (validate_token lib net token v) \<noteq> Inr claims"
      using False by (auto simp: validate_token_def net split: list.splits)
    then show ?thesis using False by (auto simp: token_accepted_def net)
  qed
qed

text \<open>
  C7. A token is accepted, with exactly its payload's claims, if and only if it has three
  parts, its header names a kid and no symmetric algorithm, its claims pass the standard
  checks, and a key that is cached and alive or that the issuer publishes verifies the
  signature over header and payload with the named algorithm.
\<close>

theorem token_accepted_iff:
  "fst (validate_token lib (web, now, later) token v) = Inr claims \<longleftrightarrow>
    (\<exists>h p s alg kid sig key.
       split_on CHR ''.'' token = [h, p, s]
     \<and> parse_header lib h = Inr (alg, kid) \<and> \<not> has_prefix alg ''HS'' \<and> kid \<noteq> []
     \<and> parse_payload lib p = Inr claims
     \<and> standard_claims_ok (unix_seconds now) (vd_config v) claims
     \<and> key_available lib web now v kid key
     \<and> b64_decode s = Some sig \<and> signature_valid lib alg (h @ ''.'' @ p) sig key)"
  by (simp add: validate_token_iff token_accepted_def)

text \<open>The type of key each algorithm is for.\<close>

definition key_fits_alg :: "string \<Rightarrow> public_key \<Rightarrow> bool" where
  "key_fits_alg alg key =
     (case key of
        RSAKey n e \<Rightarrow> alg \<in> {''RS256'', ''RS384'', ''RS512'', ''PS256'', ''PS384'', ''PS512''}
      | ECKey c x y \<Rightarrow> alg \<in> {''ES256'', ''ES384'', ''ES512''}
      | OKPKey k \<Rightarrow> alg = ''EdDSA'')"

lemma signature_fits: "signature_valid lib alg m sig key \<Longrightarrow> key_fits_alg alg key"
  unfolding signature_valid_def rsa_algs_def pss_algs_def ec_algs_def key_fits_alg_def
  by (elim disjE exE conjE; simp split: if_splits)

text \<open>
  C8. No algorithm confusion: an accepted token names one of the ten asymmetric algorithms,
  and the key that verified it is of that algorithm's type; in particular neither \<open>none\<close> nor
  a symmetric algorithm is ever accepted, and no RSA, EC or Ed25519 key verifies a signature
  of another kind.
\<close>

theorem no_algorithm_confusion:
  assumes "fst (validate_token lib (web, now, later) token v) = Inr claims"
  shows "\<exists>h p s alg kid key. split_on CHR ''.'' token = [h, p, s] \<and> parse_header lib h = Inr (alg, kid)
    \<and> key_available lib web now v kid key \<and> key_fits_alg alg key
    \<and> alg \<notin> {''none'', ''HS256'', ''HS384'', ''HS512''}"
proof -
  from assms have "token_accepted lib (web, now, later) v token claims" by (simp add: validate_token_iff)
  then obtain h p s alg kid sig key where a: "split_on CHR ''.'' token = [h, p, s]"
      "parse_header lib h = Inr (alg, kid)" "key_available lib web now v kid key"
      "signature_valid lib alg (h @ ''.'' @ p) sig key"
    by (auto simp: token_accepted_def)
  have fits: "key_fits_alg alg key" using signature_fits[OF a(4)] .
  then have "alg \<notin> {''none'', ''HS256'', ''HS384'', ''HS512''}"
    by (auto simp: key_fits_alg_def split: public_key.splits)
  then show ?thesis using a fits by blast
qed

section \<open>A token that is accepted\<close>

text \<open>The library of the examples reads two texts; every signature primitive says yes.\<close>

definition token_json :: "string \<Rightarrow> (string, json) result" where
  "token_json text =
     (if text = ''H'' then Inr (JObj [(''alg'', JStr ''RS256''), (''kid'', JStr ''k1'')])
      else if text = ''P'' then Inr (JObj [(''iss'', JStr ''iss''), (''aud'', JStr ''aud''), (''email'', JStr ''A@x'')])
      else Inl ''invalid'')"

definition token_lib :: library where
  "token_lib = demo_lib\<lparr>lib_json := token_json\<rparr>"

definition demo_token :: string where
  "demo_token = ''SA.UA.AA''"

definition warm_validator :: validator where
  "warm_validator = \<lparr>vd_config = demo_cfg,
     vd_keys = cache_set 0 ''k1'' (RSAKey 65537 65537) (new_key_cache 1)\<rparr>"

lemma demo_header: "parse_header token_lib ''SA'' = Inr (''RS256'', ''k1'')"
proof -
  have dec: "b64_decode ''SA'' = Some ''H''" by code_simp
  have flds: "string_field ''alg'' [] [(''alg'', JStr ''RS256''), (''kid'', JStr ''k1'')] = Some ''RS256''"
    "string_field ''kid'' [] [(''alg'', JStr ''RS256''), (''kid'', JStr ''k1'')] = Some ''k1''"
    "string_field ''typ'' [] [(''alg'', JStr ''RS256''), (''kid'', JStr ''k1'')] = Some ''''"
    by code_simp+
  show ?thesis
    by (simp add: parse_header_def dec token_lib_def token_json_def object_members_def flds del: string_field.simps)
qed

lemma demo_split: "split_on CHR ''.'' demo_token = [''SA'', ''UA'', ''AA'']"
  unfolding demo_token_def by code_simp

lemma demo_token_accepted:
  "token_accepted token_lib (web, 5, later) warm_validator demo_token
     (members [(''iss'', JStr ''iss''), (''aud'', JStr ''aud''), (''email'', JStr ''A@x'')])"
proof -
  have dec: "b64_decode ''SA'' = Some ''H''" "b64_decode ''UA'' = Some ''P''" "b64_decode ''AA'' = Some [CHR 0x00]"
    by code_simp+
  have payload: "parse_payload token_lib ''UA''
      = Inr (members [(''iss'', JStr ''iss''), (''aud'', JStr ''aud''), (''email'', JStr ''A@x'')])"
    by (simp add: parse_payload_def dec token_lib_def token_json_def json_to_map_def)
  have std: "standard_claims_ok n demo_cfg (members [(''iss'', JStr ''iss''), (''aud'', JStr ''aud''), (''email'', JStr ''A@x'')])" for n
    by (simp add: standard_claims_ok_def members_def demo_cfg_def)
  have key: "key_available token_lib web 5 warm_validator ''k1'' (RSAKey 65537 65537)"
    by (simp add: key_available_def warm_validator_def cache_get_def cache_set_def new_key_cache_def go_time
        mul64_exact int64_ok_def minute_def)
  have sig: "signature_valid token_lib ''RS256'' m sg (RSAKey 65537 65537)" for m sg
    by (simp add: signature_valid_def rsa_algs_def token_lib_def demo_lib_def demo_library_def)
  show ?thesis
    unfolding token_accepted_def
    using demo_split demo_header payload std key dec sig by (simp add: warm_validator_def) blast
qed

theorem no_algorithm_confusion_witness:
  "\<exists>key. key_available token_lib (\<lambda>_. NoReply []) 5 warm_validator ''k1'' key \<and> key_fits_alg ''RS256'' key"
proof -
  have "fst (validate_token token_lib (\<lambda>_. NoReply [], 5, 5) demo_token warm_validator)
      = Inr (members [(''iss'', JStr ''iss''), (''aud'', JStr ''aud''), (''email'', JStr ''A@x'')])"
    using demo_token_accepted by (simp add: validate_token_iff)
  from no_algorithm_confusion[OF this] obtain h p s alg kid key where
    a: "split_on CHR ''.'' demo_token = [h, p, s]" "parse_header token_lib h = Inr (alg, kid)"
       "key_available token_lib (\<lambda>_. NoReply []) 5 warm_validator kid key" "key_fits_alg alg key" by blast
  then have "h = ''SA''" using demo_split by simp
  then show ?thesis using a demo_header by auto
qed

section \<open>Classified errors\<close>

text \<open>
  A token whose RSA signature does not verify is answered with the generic text, not
  with the text for invalid signatures: the library's own error carries none of the phrases
  the classification looks for.
\<close>

theorem rsa_signature_failure_is_generic:
  assumes "b64_decode s = Some sig"
    and "lib_rsa_pkcs1 lib (n, e) SHA256 (lib_hash lib SHA256 (h @ ''.'' @ p)) sig = Some ''crypto/rsa: verification error''"
  shows "\<exists>msg. verify_signature lib ''RS256'' h p s (RSAKey n e) = Inl msg \<and> map_jwt_error msg = (401, ''invalid token'')"
  using assms by (simp add: verify_signature_def verify_rsa_def map_jwt_error_def)

theorem rsa_signature_failure_is_generic_witness:
  "\<exists>msg. verify_signature (demo_library\<lparr>lib_rsa_pkcs1 := \<lambda>_ _ _ _. Some ''crypto/rsa: verification error''\<rparr>)
      ''RS256'' ''SA'' ''UA'' ''AA'' (RSAKey 5 3) = Inl msg \<and> map_jwt_error msg = (401, ''invalid token'')"
proof (rule rsa_signature_failure_is_generic)
  show "b64_decode ''AA'' = Some [CHR 0x00]" by code_simp
qed simp

section \<open>The interface\<close>

text \<open>
  \<open>TokenValidator\<close>: what the admin middleware calls, and the one thing it relies on, that
  the claims it is given are those of a token the validator accepts. \<open>'e\<close> is the
  environment of the call (the network and the clock).
\<close>

locale token_validator =
  fixes validate :: "'e \<Rightarrow> string \<Rightarrow> 's \<Rightarrow> (string, claims) result \<times> 's"
    and accepts :: "'e \<Rightarrow> 's \<Rightarrow> string \<Rightarrow> claims \<Rightarrow> bool"
  assumes accepts_iff: "fst (validate net token s) = Inr claims \<longleftrightarrow> accepts net s token claims"
begin

lemma accepts_unique: "accepts net s token c \<Longrightarrow> accepts net s token d \<Longrightarrow> c = d"
  by (simp add: accepts_iff[symmetric])

lemma rejects: "(\<forall>claims. \<not> accepts net s token claims) \<longleftrightarrow> (\<exists>e. fst (validate net token s) = Inl e)"
  by (metis accepts_iff old.sum.exhaust Inl_Inr_False)

end

interpretation jwt: token_validator "validate_token lib" "token_accepted lib" for lib
  by unfold_locales (rule validate_token_iff)

end
