(* ===== verification/Admin.thy ===== *)
theory Admin
  imports Rules Limiter Validator_Claims
begin

text \<open>
  The admin API: the middleware that authenticates it (\<open>internal/admin/auth.go\<close>) and the
  control and status handlers (\<open>internal/admin/handler.go\<close>, \<open>internal/admin/types.go\<close>).

  A handler takes the request and the state and returns the response and the state. The
  control handler is written over the operations of a rule store (\<open>set\<close>, \<open>remove\<close>,
  \<open>clear\<close>), as the code is over the interface \<open>store.RuleStore\<close>; the middleware over a
  token validator, as the code is over \<open>TokenValidator\<close>. The rate limiters are a map from
  names to limiters. \<open>body\<close> is the request body as \<open>json.Decoder.Decode\<close> reads it into a
  \<open>ControlRequest\<close>, \<open>None\<close> when that fails; \<open>ExpiresAt\<close> and the counter of a rule are not
  JSON fields, so a decoded rule has their zero values (\<open>decoded_rule\<close>).
\<close>

section \<open>Types\<close>

record control_request =
  cq_command :: string
  cq_rule :: "rule option"
  cq_rule_id :: string

definition decoded_rule :: "rule \<Rightarrow> bool" where
  "decoded_rule r \<longleftrightarrow> r_expires_at r = 0 \<and> r_current_rpm r = 0"

type_synonym limiters = "string \<rightharpoonup> limiter"

type_synonym 'w handler = "request \<Rightarrow> 'w \<Rightarrow> response \<times> 'w"

definition json_response :: "int \<Rightarrow> json \<Rightarrow> response" where
  "json_response status v =
     \<lparr>rs_status = status, rs_headers = header_set Map.empty ''Content-Type'' ''application/json'',
      rs_body = Some v\<rparr>"

definition admin_error :: "int \<Rightarrow> string \<Rightarrow> string \<Rightarrow> response" where
  "admin_error status err msg = json_response status (JObj [(''error'', JStr err), (''message'', JStr msg)])"

section \<open>Authentication\<close>

fun is_email_allowed :: "string \<Rightarrow> string list \<Rightarrow> bool" where
  "is_email_allowed email [] = False"
| "is_email_allowed email (a # as) =
     (if email = [] then False
      else if to_lower a = to_lower email then True else is_email_allowed email as)"

definition claim_string :: "claims \<Rightarrow> string \<Rightarrow> string" where
  "claim_string claims k = (case claims k of Some (JStr s) \<Rightarrow> s | _ \<Rightarrow> [])"

definition admin_unauthorized :: response where
  "admin_unauthorized = admin_error 401 ''unauthorized'' ''Invalid or missing identity token''"

definition admin_auth_middleware ::
    "('e \<Rightarrow> string \<Rightarrow> 'v \<Rightarrow> (string, claims) result \<times> 'v) \<Rightarrow> library \<Rightarrow> string list \<Rightarrow> 'e
     \<Rightarrow> string list \<Rightarrow> (string \<rightharpoonup> string) \<Rightarrow> 'w handler \<Rightarrow> ('v \<times> 'w) handler" where
  "admin_auth_middleware vt lib ks net allowed_emails filters nxt r = (\<lambda>(v, w).
     (let auth_header = header_get (rq_headers r) ''Authorization''
      in if \<not> has_prefix auth_header ''Bearer '' then (admin_unauthorized, v, w)
         else let token = trim_prefix auth_header ''Bearer ''
              in if token = [] then (admin_unauthorized, v, w)
                 else (case vt net token v of
                         (Inl e, v') \<Rightarrow> (admin_unauthorized, v', w)
                       | (Inr claims, v') \<Rightarrow>
                           if dom filters \<noteq> {} \<and> evaluate_filters lib ks claims filters \<noteq> None
                           then (admin_unauthorized, v', w)
                           else if allowed_emails \<noteq> []
                                   \<and> \<not> is_email_allowed (claim_string claims ''email'') allowed_emails
                           then (admin_unauthorized, v', w)
                           else (case nxt r w of (resp, w') \<Rightarrow> (resp, v', w')))))"

section \<open>The control handler\<close>

definition validate_rule :: "rule \<Rightarrow> string option" where
  "validate_rule r =
     (if r_id r = [] then Some ''ruleId is required''
      else if r_target_host r = [] then Some ''targetHost is required''
      else if r_action r \<notin> {''throttle'', ''block'', ''allow''} then
        Some ''action must be one of: throttle, block, allow''
      else if r_action r = ''throttle'' \<and> r_max_rpm r \<le> 0 then
        Some ''maxRPM must be > 0 when action is throttle''
      else if r_duration_seconds r \<le> 0 then Some ''durationSeconds must be > 0''
      else None)"

definition wire_limiter :: "rule \<Rightarrow> limiter \<Rightarrow> limiter" where
  "wire_limiter r l =
     (let l1 = set_requests_per_min (r_max_rpm r) l;
          l2 = (if 0 < r_throttle_delay_ms r
                then set_throttle_delay (mul64 (r_throttle_delay_ms r) millisecond) l1 else l1);
          l3 = (if 0 < r_max_delay_slots r then set_max_delay_slots (r_max_delay_slots r) l2 else l2)
      in enable l3)"

definition handle_set_rule ::
    "(time \<Rightarrow> rule \<Rightarrow> 's \<Rightarrow> (string, rule \<times> 's) result) \<Rightarrow> library \<Rightarrow> time
     \<Rightarrow> rule option \<Rightarrow> 's \<times> limiters \<Rightarrow> response \<times> ('s \<times> limiters)" where
  "handle_set_rule st lib now rule = (\<lambda>(s, ls).
     (case rule of
        None \<Rightarrow> (admin_error 400 ''bad_request'' ''rule is required for set-rule'', s, ls)
      | Some r \<Rightarrow>
          (case validate_rule r of
             Some e \<Rightarrow> (admin_error 400 ''bad_request'' e, s, ls)
           | None \<Rightarrow>
               (case st now r s of
                  Inl e \<Rightarrow> (admin_error 500 ''internal_error'' e, s, ls)
                | Inr (r', s') \<Rightarrow>
                    (let ls' = (if r_action r' = ''throttle'' \<and> r_limiter r' \<noteq> [] then
                                  (case ls (r_limiter r') of
                                     None \<Rightarrow> ls | Some l \<Rightarrow> ls(r_limiter r' \<mapsto> wire_limiter r' l))
                                else ls)
                     in (json_response 200
                           (JObj [(''ruleId'', JStr (r_id r')), (''status'', JStr ''active''),
                                  (''expiresAt'', JStr (lib_format_time lib (r_expires_at r')))]),
                         s', ls'))))))"

definition remove_response :: "nat \<Rightarrow> response" where
  "remove_response n =
     json_response 200 (JObj [(''status'', JStr ''ok''), (''rulesRemoved'', JNum (int n) 0)])"

text \<open>Neither store's \<open>RemoveRule\<close> ever returns an error, so the branch for one is not there.\<close>

definition handle_remove_rule ::
    "(string \<Rightarrow> 's \<Rightarrow> bool \<times> 's) \<Rightarrow> string \<Rightarrow> 's \<times> limiters \<Rightarrow> response \<times> ('s \<times> limiters)" where
  "handle_remove_rule rm rid = (\<lambda>(s, ls).
     (if rid = [] then (admin_error 400 ''bad_request'' ''ruleId is required for remove-rule'', s, ls)
      else case rm rid s of
             (found, s') \<Rightarrow>
               if \<not> found then (admin_error 404 ''not_found'' ''rule not found'', s', ls)
               else (remove_response 1, s', ls)))"

definition handle_remove_all ::
    "('s \<Rightarrow> nat \<times> 's) \<Rightarrow> 's \<times> limiters \<Rightarrow> response \<times> ('s \<times> limiters)" where
  "handle_remove_all cl = (\<lambda>(s, ls). (case cl s of (n, s') \<Rightarrow> (remove_response n, s', ls)))"

definition control_handler ::
    "(time \<Rightarrow> rule \<Rightarrow> 's \<Rightarrow> (string, rule \<times> 's) result) \<Rightarrow> (string \<Rightarrow> 's \<Rightarrow> bool \<times> 's) \<Rightarrow> ('s \<Rightarrow> nat \<times> 's)
     \<Rightarrow> library \<Rightarrow> time \<Rightarrow> control_request option \<Rightarrow> 's \<times> limiters \<Rightarrow> response \<times> ('s \<times> limiters)" where
  "control_handler st rm cl lib now body w =
     (case body of
        None \<Rightarrow> (admin_error 400 ''bad_request'' ''invalid JSON'', w)
      | Some q \<Rightarrow>
          if cq_command q = ''set-rule'' then handle_set_rule st lib now (cq_rule q) w
          else if cq_command q = ''remove-rule'' then handle_remove_rule rm (cq_rule_id q) w
          else if cq_command q = ''remove-all'' then handle_remove_all cl w
          else (admin_error 400 ''bad_request'' (''unknown command: '' @ lib_quote lib (cq_command q)), w))"

section \<open>The status handler\<close>

definition rule_status_json :: "library \<Rightarrow> rule_status \<Rightarrow> json" where
  "rule_status_json lib r =
     JObj [(''ruleId'', JStr (rst_id r)), (''targetHost'', JStr (rst_target_host r)),
           (''action'', JStr (rst_action r)), (''maxRPM'', JNum (rst_max_rpm r) 0),
           (''currentRPM'', JNum (rst_current_rpm r) 0), (''status'', JStr (rst_status r)),
           (''expiresAt'', JStr (lib_format_time lib (rst_expires_at r)))]"

definition limiter_status_json :: "library \<Rightarrow> limiter_status \<Rightarrow> json" where
  "limiter_status_json lib l =
     JObj ([(''name'', JStr (ls_name l)), (''enabled'', JBool (ls_enabled l)),
            (''requestsPerMin'', JNum (ls_requests_per_min l) 0),
            (''activeEntries'', JNum (int (ls_active_entries l)) 0)]
           @ (case ls_throttle_delay l of None \<Rightarrow> [] | Some d \<Rightarrow> [(''throttleDelay'', JStr (lib_duration_text lib d))])
           @ (if ls_max_delay_slots l = 0 then [] else [(''maxDelaySlots'', JNum (ls_max_delay_slots l) 0)]))"

text \<open>
  \<open>names\<close> enumerates the limiters, which the encoder renders in the order of their names;
  \<open>statuses\<close> is the store's \<open>GetStatus\<close>.
\<close>

definition status_handler :: "library \<Rightarrow> string list \<Rightarrow> rule_status list \<Rightarrow> limiters \<Rightarrow> response" where
  "status_handler lib names statuses ls =
     json_response 200
       (JObj [(''rules'', JArr (map (rule_status_json lib) statuses)),
              (''rateLimiters'', JObj (map (\<lambda>n. (n, limiter_status_json lib (get_status (the (ls n))))) (sort names)))])"

end
