(* ===== verification/Admin_Claims.thy ===== *)
theory Admin_Claims
  imports Admin Firestore
begin

text \<open>
  Who reaches the admin handlers, and what the control handler does to a rule store that
  keeps the interface: for the in-memory store and the Firestore store alike, through the
  interpretations of \<open>rule_store\<close>.
\<close>

section \<open>Who is let through\<close>

text \<open>The bearer token of a request, as the admin middleware takes it.\<close>

definition admin_token :: "request \<Rightarrow> string option" where
  "admin_token r =
     (let h = header_get (rq_headers r) ''Authorization''
      in if has_prefix h ''Bearer '' \<and> h \<noteq> ''Bearer '' then Some (drop 7 h) else None)"

definition admin_allowed :: "library \<Rightarrow> string list \<Rightarrow> (string \<rightharpoonup> string) \<Rightarrow> claims \<Rightarrow> bool" where
  "admin_allowed lib emails filters claims \<longleftrightarrow>
     filters_hold lib claims filters
     \<and> (emails = [] \<or> (\<exists>e. claims ''email'' = Some (JStr e) \<and> e \<noteq> [] \<and> to_lower e \<in> to_lower ` set emails))"

lemma is_email_allowed_iff: "is_email_allowed e emails \<longleftrightarrow> e \<noteq> [] \<and> to_lower e \<in> to_lower ` set emails"
  by (induction emails) auto

lemma claim_string_allowed:
  "is_email_allowed (claim_string claims ''email'') emails \<longleftrightarrow>
     (\<exists>e. claims ''email'' = Some (JStr e) \<and> e \<noteq> [] \<and> to_lower e \<in> to_lower ` set emails)"
  by (auto simp: is_email_allowed_iff claim_string_def split: option.splits json.splits)

lemma filters_hold_empty: "dom filters = {} \<Longrightarrow> filters_hold lib claims filters"
  by (auto simp: filters_hold_def dom_def)

lemma trim_bearer: "has_prefix h ''Bearer '' \<Longrightarrow> (trim_prefix h ''Bearer '' = [] \<longleftrightarrow> h = ''Bearer '') \<and> trim_prefix h ''Bearer '' = drop 7 h"
  by (auto simp: trim_prefix_def has_prefix_iff)

context token_validator
begin

lemma admin_pass:
  assumes "range_order ks filters" and "admin_token r = Some token" and "accepts net v token claims"
    and "admin_allowed lib emails filters claims"
  shows "admin_auth_middleware validate lib ks net emails filters nxt r (v, w)
    = (case nxt r w of (resp, w') \<Rightarrow> (resp, snd (validate net token v), w'))"
proof -
  obtain v' where v': "validate net token v = (Inr claims, v')"
    using accepts_iff[of net token v claims] assms(3) by (cases "validate net token v") auto
  have h: "has_prefix (header_get (rq_headers r) ''Authorization'') ''Bearer ''"
    "header_get (rq_headers r) ''Authorization'' \<noteq> ''Bearer ''"
    "token = drop 7 (header_get (rq_headers r) ''Authorization'')"
    using assms(2) by (auto simp: admin_token_def Let_def split: if_splits)
  have "evaluate_filters lib ks claims filters = None" and
    "emails \<noteq> [] \<longrightarrow> is_email_allowed (claim_string claims ''email'') emails"
    using assms(4) by (auto simp: admin_allowed_def evaluate_filters_spec[OF assms(1)] claim_string_allowed)
  then show ?thesis
    using h v' trim_bearer[OF h(1)] by (auto simp: admin_auth_middleware_def Let_def)
qed

lemma admin_stop:
  assumes "range_order ks filters"
    and "\<not> (\<exists>token claims. admin_token r = Some token \<and> accepts net v token claims
              \<and> admin_allowed lib emails filters claims)"
  shows "\<exists>v'. admin_auth_middleware validate lib ks net emails filters nxt r (v, w) = (admin_unauthorized, v', w)"
proof (cases "admin_token r")
  case None
  then show ?thesis
    using trim_bearer[of "header_get (rq_headers r) ''Authorization''"]
    by (auto simp: admin_token_def admin_auth_middleware_def Let_def split: if_splits)
next
  case (Some token)
  then have h: "has_prefix (header_get (rq_headers r) ''Authorization'') ''Bearer ''"
    "header_get (rq_headers r) ''Authorization'' \<noteq> ''Bearer ''"
    "token = drop 7 (header_get (rq_headers r) ''Authorization'')"
    by (auto simp: admin_token_def Let_def split: if_splits)
  note t = trim_bearer[OF h(1)]
  obtain res v' where v': "validate net token v = (res, v')" by fastforce
  show ?thesis
  proof (cases res)
    case (Inl e)
    then show ?thesis using h t v' by (simp add: admin_auth_middleware_def Let_def)
  next
    case (Inr claims)
    then have "accepts net v token claims" using accepts_iff[of net token v claims] v' by simp
    then have "\<not> admin_allowed lib emails filters claims" using assms(2) Some by blast
    then have "evaluate_filters lib ks claims filters \<noteq> None
        \<or> emails \<noteq> [] \<and> \<not> is_email_allowed (claim_string claims ''email'') emails"
      by (auto simp: admin_allowed_def evaluate_filters_spec[OF assms(1)] claim_string_allowed)
    moreover have "evaluate_filters lib ks claims filters \<noteq> None \<Longrightarrow> dom filters \<noteq> {}"
      using evaluate_filters_spec[OF assms(1), of lib claims] filters_hold_empty[of filters lib claims] by metis
    ultimately show ?thesis using h t v' Inr by (auto simp: admin_auth_middleware_def Let_def)
  qed
qed

end

text \<open>
  C19. The admin API is reached with a valid identity only. A request passes to the handler
  exactly when it carries a bearer token the validator accepts whose claims satisfy every
  filter and, when an email list is configured, name a listed email; otherwise it is
  answered 401 and the rules and limiters are untouched.
\<close>

theorem admin_requires_identity:
  assumes "range_order ks filters"
  shows "if (\<exists>token claims. admin_token r = Some token \<and> token_accepted lib net v token claims
              \<and> admin_allowed lib emails filters claims)
    then \<exists>v'. admin_auth_middleware (validate_token lib) lib ks net emails filters nxt r (v, w)
           = (fst (nxt r w), v', snd (nxt r w))
    else \<exists>v'. admin_auth_middleware (validate_token lib) lib ks net emails filters nxt r (v, w)
           = (admin_unauthorized, v', w)"
proof (cases "\<exists>token claims. admin_token r = Some token \<and> token_accepted lib net v token claims
              \<and> admin_allowed lib emails filters claims")
  case True
  then obtain token claims where t: "admin_token r = Some token" "token_accepted lib net v token claims"
      "admin_allowed lib emails filters claims" by blast
  show ?thesis unfolding if_P[OF True]
    using jwt.admin_pass[OF assms t, of nxt w] by (auto simp: case_prod_beta)
next
  case False
  then show ?thesis unfolding if_not_P[OF False] by (rule jwt.admin_stop[OF assms])
qed

theorem admin_requires_identity_witness:
  "\<exists>v'. admin_auth_middleware (validate_token token_lib) token_lib [] ((\<lambda>_. NoReply []), 5, 5) [''a@X''] Map.empty
      (\<lambda>r w. (remove_response 1, Suc w))
      ((plain_request ''h'' ''/admin/control'')\<lparr>rq_headers := [''Authorization'' \<mapsto> [''Bearer SA.UA.AA'']]\<rparr>)
      (warm_validator, 7) = (remove_response 1, v', 8)"
proof -
  let ?r = "(plain_request ''h'' ''/admin/control'')\<lparr>rq_headers := [''Authorization'' \<mapsto> [''Bearer SA.UA.AA'']]\<rparr>"
  let ?c = "members [(''iss'', JStr ''iss''), (''aud'', JStr ''aud''), (''email'', JStr ''A@x'')]"
  have ck: "canonical_key ''Authorization'' = ''Authorization''" by code_simp
  have tok: "admin_token ?r = Some demo_token"
    by (simp add: admin_token_def header_get_def ck demo_token_def)
  have "to_lower ''A@x'' = ''a@x''" "to_lower ''a@X'' = ''a@x''" by code_simp+
  then have "admin_allowed token_lib [''a@X''] Map.empty ?c"
    by (simp add: admin_allowed_def filters_hold_def members_def)
  then have ex: "\<exists>token claims. admin_token ?r = Some token
      \<and> token_accepted token_lib (\<lambda>_. NoReply [], 5, 5) warm_validator token claims
      \<and> admin_allowed token_lib [''a@X''] Map.empty claims"
    using tok demo_token_accepted by blast
  have "range_order [] (Map.empty :: string \<rightharpoonup> string)" by (simp add: range_order_def)
  from admin_requires_identity[OF this, of ?r token_lib "(\<lambda>_. NoReply [], 5, 5)" warm_validator "[''a@X'']"
      "\<lambda>r w. (remove_response 1, Suc w)" 7] ex
  show ?thesis by simp
qed

section \<open>What the control handler does\<close>

definition rule_valid :: "rule \<Rightarrow> bool" where
  "rule_valid r \<longleftrightarrow>
     r_id r \<noteq> [] \<and> r_target_host r \<noteq> [] \<and> r_action r \<in> {''throttle'', ''block'', ''allow''}
     \<and> (r_action r = ''throttle'' \<longrightarrow> 0 < r_max_rpm r) \<and> 0 < r_duration_seconds r"

lemma validate_rule_None: "validate_rule r = None \<longleftrightarrow> rule_valid r"
  by (auto simp: validate_rule_def rule_valid_def)

lemma stored_valid [simp]: "rule_valid (stored_rule now r) = rule_valid r"
  by (simp add: rule_valid_def stored_rule_def reset_rpm_def)

definition rules_valid :: "rules \<Rightarrow> bool" where
  "rules_valid rs \<longleftrightarrow> (\<forall>k r. rs k = Some r \<longrightarrow> rule_valid r \<and> r_id r = k)"

definition wired :: "rule \<Rightarrow> limiters \<Rightarrow> limiters" where
  "wired r ls =
     (if r_action r = ''throttle'' \<and> r_limiter r \<noteq> []
      then (\<lambda>n. if n = r_limiter r then map_option (wire_limiter r) (ls n) else ls n) else ls)"

lemma stored_fields [simp]:
  "r_action (stored_rule now r) = r_action r" "r_limiter (stored_rule now r) = r_limiter r"
  "r_max_rpm (stored_rule now r) = r_max_rpm r" "r_throttle_delay_ms (stored_rule now r) = r_throttle_delay_ms r"
  "r_max_delay_slots (stored_rule now r) = r_max_delay_slots r"
  by (simp_all add: stored_rule_def reset_rpm_def)

lemma wire_stored [simp]: "wire_limiter (stored_rule now r) = wire_limiter r"
  by (rule ext) (simp only: wire_limiter_def stored_fields)

lemma wired_stored [simp]: "wired (stored_rule now r) = wired r"
  by (rule ext) (simp add: wired_def cong: if_cong)

lemma valid_insert: "rules_valid rs \<Longrightarrow> rule_valid r \<Longrightarrow> rules_valid (rs(r_id r \<mapsto> stored_rule now r))"
  by (auto simp: rules_valid_def)

lemma wired_match:
  "(if r_action r = ''throttle'' \<and> r_limiter r \<noteq> []
    then (case ls (r_limiter r) of None \<Rightarrow> ls | Some l \<Rightarrow> ls(r_limiter r \<mapsto> wire_limiter r l)) else ls) = wired r ls"
  by (auto simp: wired_def fun_eq_iff split: option.splits)

context rule_store
begin

lemma set_rule_accepted:
  assumes "rule_valid r"
  shows "\<exists>resp s'. handle_set_rule set lib now (Some r) (s, ls) = (resp, s', wired r ls)
    \<and> rs_status resp = 200 \<and> rules_of s' = (rules_of s)(r_id r \<mapsto> stored_rule now r)"
proof -
  have "r_id r \<noteq> []" using assms by (simp add: rule_valid_def)
  from set_stores[OF this, of now s] obtain s' where
    s': "set now r s = Inr (stored_rule now r, s')" "rules_of s' = (rules_of s)(r_id r \<mapsto> stored_rule now r)"
    by blast
  have "validate_rule r = None" using assms by (simp add: validate_rule_None)
  then show ?thesis using s'
    by (simp add: handle_set_rule_def Let_def json_response_def wired_match[of "stored_rule now r", simplified])
qed

lemma set_rule_rejected:
  assumes "\<not> rule_valid r"
  shows "\<exists>e. handle_set_rule set lib now (Some r) (s, ls) = (admin_error 400 ''bad_request'' e, s, ls)"
  using assms validate_rule_None[of r] by (cases "validate_rule r") (auto simp: handle_set_rule_def)

lemma control_keeps_valid:
  assumes "rules_valid (rules_of s)"
  shows "rules_valid (rules_of (fst (snd (control_handler set remove clear lib now body (s, ls)))))"
proof (cases body)
  case None
  then show ?thesis using assms by (simp add: control_handler_def)
next
  case (Some q)
  show ?thesis
  proof (cases "cq_command q = ''set-rule''")
    case True
    show ?thesis
    proof (cases "cq_rule q")
      case None
      then show ?thesis using Some True assms by (simp add: control_handler_def handle_set_rule_def)
    next
      case (Some r)
      show ?thesis
      proof (cases "rule_valid r")
        case valid: True
        from set_rule_accepted[OF this, of lib now s ls] show ?thesis
          using \<open>body = Some q\<close> True Some valid_insert[OF assms valid]
          by (auto simp: control_handler_def simp del: fun_upd_apply)
      next
        case False
        from set_rule_rejected[OF this, of lib now s ls] show ?thesis
          using \<open>body = Some q\<close> True Some assms by (auto simp: control_handler_def)
      qed
    qed
  next
    case False
    then show ?thesis
      using Some assms remove_rules[of "cq_rule_id q" s] clear_rules[of s]
      by (auto simp: control_handler_def handle_remove_rule_def handle_remove_all_def rules_valid_def
          split: prod.splits if_splits)
  qed
qed

lemma control_after_remove:
  assumes "cq_command q = ''remove-rule''" and "cq_rule_id q \<noteq> []"
  shows "\<exists>resp s'. control_handler set remove clear lib now (Some q) (s, ls) = (resp, s', ls)
    \<and> rules_of s' = (rules_of s)(cq_rule_id q := None)
    \<and> rs_status resp = (if rules_of s (cq_rule_id q) = None then 404 else 200)"
proof -
  obtain found s' where r: "remove (cq_rule_id q) s = (found, s')" by fastforce
  then show ?thesis
    using assms remove_found[of "cq_rule_id q" s] remove_rules[of "cq_rule_id q" s]
    by (auto simp: control_handler_def handle_remove_rule_def remove_response_def json_response_def admin_error_def)
qed

end

text \<open>A sequence of control requests, each with the clock reading it is served at.\<close>

definition apply_controls ::
    "('s \<times> limiters \<Rightarrow> time \<times> control_request option \<Rightarrow> 's \<times> limiters) \<Rightarrow> (time \<times> control_request option) list
     \<Rightarrow> 's \<times> limiters \<Rightarrow> 's \<times> limiters" where
  "apply_controls step reqs w = foldl step w reqs"

definition mem_control :: "library \<Rightarrow> mem_store \<times> limiters \<Rightarrow> time \<times> control_request option \<Rightarrow> mem_store \<times> limiters" where
  "mem_control lib w q = snd (control_handler set_rule remove_rule remove_all lib (fst q) (snd q) w)"

definition fs_control :: "library \<Rightarrow> fs_store \<times> limiters \<Rightarrow> time \<times> control_request option \<Rightarrow> fs_store \<times> limiters" where
  "fs_control lib w q = snd (control_handler fs_set_rule fs_remove_rule fs_remove_all lib (fst q) (snd q) w)"

text \<open>
  Only valid rules enter a store: whatever sequence of control requests an administrator
  sends, to the in-memory store or the Firestore store, every stored rule has an id (its
  key), a host, a known action, a positive limit if it throttles and a positive duration.
\<close>

theorem stored_rules_valid:
  "rules_valid (ms_rules (fst (apply_controls (mem_control lib) reqs (new_memory_rule_store, ls))))
   \<and> (\<not> rules_valid (fs_rules f) \<or> rules_valid (fs_rules (fst (apply_controls (fs_control lib) reqs (f, ls)))))"
proof -
  have m: "rules_valid (ms_rules (fst w)) \<Longrightarrow> rules_valid (ms_rules (fst (apply_controls (mem_control lib) reqs w)))" for w
  proof (induction reqs arbitrary: w)
    case (Cons q reqs)
    obtain s ls where w: "w = (s, ls)" by (cases w)
    then have "rules_valid (ms_rules (fst (mem_control lib w q)))"
      using Cons.prems mem.control_keeps_valid[of s lib "fst q" "snd q" ls] by (simp add: mem_control_def)
    then show ?case using Cons.IH by (simp add: apply_controls_def)
  qed (simp add: apply_controls_def)
  have f: "rules_valid (fs_rules (fst w)) \<Longrightarrow> rules_valid (fs_rules (fst (apply_controls (fs_control lib) reqs w)))" for w
  proof (induction reqs arbitrary: w)
    case (Cons q reqs)
    obtain s ls where w: "w = (s, ls)" by (cases w)
    then have "rules_valid (fs_rules (fst (fs_control lib w q)))"
      using Cons.prems fsr.control_keeps_valid[of s lib "fst q" "snd q" ls] by (simp add: fs_control_def)
    then show ?case using Cons.IH by (simp add: apply_controls_def)
  qed (simp add: apply_controls_def)
  have "rules_valid (ms_rules new_memory_rule_store)"
    by (simp add: new_memory_rule_store_def rules_valid_def)
  then show ?thesis using m[of "(new_memory_rule_store, ls)"] f[of "(f, ls)"] by simp
qed

theorem stored_rules_valid_witness:
  "rules_valid (fs_rules (fst (apply_controls (fs_control demo_library)
     [(5, Some \<lparr>cq_command = ''remove-all'', cq_rule = None, cq_rule_id = []\<rparr>)]
     (\<lparr>fs_collection = ''proxy-rules'', fs_rules = Map.empty, fs_pending = [], fs_stopped = False,
       fs_listening = True, fs_cleaning = True, fs_resetting = True\<rparr>, Map.empty))))"
proof -
  have "rules_valid (fs_rules \<lparr>fs_collection = ''proxy-rules'', fs_rules = Map.empty, fs_pending = [], fs_stopped = False,
       fs_listening = True, fs_cleaning = True, fs_resetting = True\<rparr>)" by (simp add: rules_valid_def)
  then show ?thesis using stored_rules_valid by blast
qed


text \<open>
  A throttle rule that names a limiter switches it on with the rule's limit, and it
  stays so: removing the rule, or all rules, gives the limiter none of its old settings
  back.
\<close>

theorem limiter_not_restored:
  assumes "rule_valid r" and "r_action r = ''throttle''" and "r_limiter r \<noteq> []" and "ls (r_limiter r) = Some l"
  shows "\<exists>l'. snd (apply_controls (mem_control lib)
      [(now, Some \<lparr>cq_command = ''set-rule'', cq_rule = Some r, cq_rule_id = []\<rparr>),
       (now', Some \<lparr>cq_command = ''remove-rule'', cq_rule = None, cq_rule_id = r_id r\<rparr>),
       (now', Some \<lparr>cq_command = ''remove-all'', cq_rule = None, cq_rule_id = []\<rparr>)] (s, ls)) (r_limiter r) = Some l'
    \<and> rl_enabled l' \<and> rl_requests_per_min l' = r_max_rpm r"
proof -
  have rid: "r_id r \<noteq> []" using assms(1) by (simp add: rule_valid_def)
  from mem.set_rule_accepted[OF assms(1), of lib now s ls] obtain resp s' where
    s': "handle_set_rule set_rule lib now (Some r) (s, ls) = (resp, s', wired r ls)" by blast
  have "\<exists>resp2 s2. control_handler set_rule remove_rule remove_all lib now'
      (Some \<lparr>cq_command = ''remove-rule'', cq_rule = None, cq_rule_id = r_id r\<rparr>) (s', wired r ls) = (resp2, s2, wired r ls)"
    using mem.control_after_remove[of "\<lparr>cq_command = ''remove-rule'', cq_rule = None, cq_rule_id = r_id r\<rparr>" lib now' s' "wired r ls"]
      rid by fastforce
  then obtain resp2 s2 where s2: "control_handler set_rule remove_rule remove_all lib now'
      (Some \<lparr>cq_command = ''remove-rule'', cq_rule = None, cq_rule_id = r_id r\<rparr>) (s', wired r ls) = (resp2, s2, wired r ls)" by blast
  have "rl_enabled (wire_limiter r l) \<and> rl_requests_per_min (wire_limiter r l) = r_max_rpm r"
    by (auto simp: wire_limiter_def Let_def enable_def set_requests_per_min_def set_throttle_delay_def
        set_max_delay_slots_def new_sem_def)
  then show ?thesis
    using s' s2 assms(2-4)
    by (auto simp: apply_controls_def mem_control_def control_handler_def handle_remove_all_def wired_def
        split: prod.splits)
qed

definition throttle_rule :: rule where
  "throttle_rule = \<lparr>r_id = ''t'', r_target_host = ''h'', r_action = ''throttle'', r_max_rpm = 2,
     r_path_pattern = None, r_rate_by_key = False, r_limiter = ''ip'', r_throttle_delay_ms = 0,
     r_max_delay_slots = 0, r_duration_seconds = 60, r_expires_at = 0, r_current_rpm = 0\<rparr>"

definition idle_limiter :: limiter where
  "idle_limiter = new_rate_limiter \<lparr>lc_name = ''ip'', lc_enabled = False, lc_requests_per_min = 60,
     lc_ban_duration = 5 * minute, lc_throttle_delay = 0, lc_max_delay_slots = 0\<rparr> 0"

theorem limiter_not_restored_witness:
  "\<exists>l'. snd (apply_controls (mem_control demo_library)
      [(5, Some \<lparr>cq_command = ''set-rule'', cq_rule = Some throttle_rule, cq_rule_id = []\<rparr>),
       (6, Some \<lparr>cq_command = ''remove-rule'', cq_rule = None, cq_rule_id = r_id throttle_rule\<rparr>),
       (6, Some \<lparr>cq_command = ''remove-all'', cq_rule = None, cq_rule_id = []\<rparr>)]
      (new_memory_rule_store, [''ip'' \<mapsto> idle_limiter])) (r_limiter throttle_rule) = Some l'
    \<and> rl_enabled l' \<and> rl_requests_per_min l' = r_max_rpm throttle_rule"
  by (rule limiter_not_restored) (simp_all add: throttle_rule_def rule_valid_def)

end
