(* ===== verification/Interleaving.thy ===== *)
theory Interleaving
  imports Admin_Claims Limiter_Claims Rules_Claims
begin

text \<open>
  Control requests that run at the same time. Each goroutine of the admin API takes the lock of
  the store and the lock of a limiter one operation at a time, so requests interleave between
  these operations: \<open>control_actions\<close> lists the operations of a request in their order, and an
  execution of two requests runs an element of \<open>shuffles\<close> of their lists. The handler of the
  theory \<open>Admin\<close> is the execution in which nothing comes between (\<open>actions_implement_handler\<close>).
\<close>

section \<open>The operations of a control request\<close>

datatype admin_action =
    Stores time rule
  | Removes string
  | Clears
  | SetsRpm string int
  | SetsDelay string duration
  | SetsSlots string int
  | Enables string

definition on_limiter :: "string \<Rightarrow> (limiter \<Rightarrow> limiter) \<Rightarrow> limiters \<Rightarrow> limiters" where
  "on_limiter n f ls = (\<lambda>m. if m = n then map_option f (ls m) else ls m)"

fun act :: "admin_action \<Rightarrow> mem_store \<times> limiters \<Rightarrow> mem_store \<times> limiters" where
  "act (Stores now r) (s, ls) = (case set_rule now r s of Inl e \<Rightarrow> (s, ls) | Inr (r', s') \<Rightarrow> (s', ls))"
| "act (Removes rid) (s, ls) = (snd (remove_rule rid s), ls)"
| "act Clears (s, ls) = (snd (remove_all s), ls)"
| "act (SetsRpm n rpm) (s, ls) = (s, on_limiter n (set_requests_per_min rpm) ls)"
| "act (SetsDelay n d) (s, ls) = (s, on_limiter n (set_throttle_delay d) ls)"
| "act (SetsSlots n k) (s, ls) = (s, on_limiter n (set_max_delay_slots k) ls)"
| "act (Enables n) (s, ls) = (s, on_limiter n enable ls)"

definition wire_actions :: "rule \<Rightarrow> admin_action list" where
  "wire_actions r =
     (if r_action r = ''throttle'' \<and> r_limiter r \<noteq> [] then
        [SetsRpm (r_limiter r) (r_max_rpm r)]
        @ (if 0 < r_throttle_delay_ms r then [SetsDelay (r_limiter r) (mul64 (r_throttle_delay_ms r) millisecond)] else [])
        @ (if 0 < r_max_delay_slots r then [SetsSlots (r_limiter r) (r_max_delay_slots r)] else [])
        @ [Enables (r_limiter r)]
      else [])"

definition set_rule_actions :: "time \<Rightarrow> rule option \<Rightarrow> admin_action list" where
  "set_rule_actions now rule =
     (case rule of
        None \<Rightarrow> []
      | Some r \<Rightarrow> if validate_rule r \<noteq> None then [] else Stores now r # wire_actions r)"

definition control_actions :: "time \<Rightarrow> control_request option \<Rightarrow> admin_action list" where
  "control_actions now body =
     (case body of
        None \<Rightarrow> []
      | Some q \<Rightarrow>
          if cq_command q = ''set-rule'' then set_rule_actions now (cq_rule q)
          else if cq_command q = ''remove-rule'' then (if cq_rule_id q = [] then [] else [Removes (cq_rule_id q)])
          else if cq_command q = ''remove-all'' then [Clears] else [])"

section \<open>A request on its own\<close>

lemma on_limiter_comp: "on_limiter n f (on_limiter n g ls) = on_limiter n (f \<circ> g) ls"
  by (auto simp: on_limiter_def option.map_comp)

lemma fold_wire_actions: "fold act (wire_actions r) (s, ls) = (s, wired r ls)"
proof (cases "r_action r = ''throttle'' \<and> r_limiter r \<noteq> []")
  case True
  have "on_limiter n (wire_limiter r) ls
    = on_limiter n (\<lambda>l. let l1 = set_requests_per_min (r_max_rpm r) l;
          l2 = (if 0 < r_throttle_delay_ms r then set_throttle_delay (mul64 (r_throttle_delay_ms r) millisecond) l1 else l1);
          l3 = (if 0 < r_max_delay_slots r then set_max_delay_slots (r_max_delay_slots r) l2 else l2)
      in enable l3) ls" for n
    by (simp add: wire_limiter_def[abs_def])
  moreover have "wired r ls = on_limiter (r_limiter r) (wire_limiter r) ls"
    using True by (simp add: wired_def on_limiter_def)
  ultimately show ?thesis
    using True by (auto simp: wire_actions_def on_limiter_comp comp_def Let_def)
next
  case False
  then show ?thesis by (auto simp: wire_actions_def wired_def)
qed

lemma stores_act:
  assumes "validate_rule r = None"
  shows "act (Stores now r) (s, ls) = (s\<lparr>ms_rules := (ms_rules s)(r_id r \<mapsto> stored_rule now r)\<rparr>, ls)"
  using assms validate_rule_None[of r] by (simp add: set_rule_def rule_valid_def Let_def)

lemma actions_implement_handler:
  "fold act (control_actions now body) (s, ls) = snd (control_handler set_rule remove_rule remove_all lib now body (s, ls))"
proof -
  have set: "fold act (set_rule_actions now rule) (s, ls) = snd (handle_set_rule set_rule lib now rule (s, ls))" for rule
  proof (cases rule)
    case (Some r)
    show ?thesis
    proof (cases "validate_rule r")
      case None
      then have "fold act (set_rule_actions now rule) (s, ls)
          = (s\<lparr>ms_rules := (ms_rules s)(r_id r \<mapsto> stored_rule now r)\<rparr>, wired r ls)"
        by (simp add: Some set_rule_actions_def stores_act fold_wire_actions del: act.simps)
      moreover have "set_rule now r s = Inr (stored_rule now r, s\<lparr>ms_rules := (ms_rules s)(r_id r \<mapsto> stored_rule now r)\<rparr>)"
        using None validate_rule_None[of r] by (simp add: set_rule_def rule_valid_def Let_def)
      ultimately show ?thesis
        using None Some wired_match[of "stored_rule now r" ls] by (simp add: handle_set_rule_def Let_def)
    qed (simp add: Some set_rule_actions_def handle_set_rule_def)
  qed (simp add: set_rule_actions_def handle_set_rule_def)
  show ?thesis
    by (cases body)
       (simp_all add: control_actions_def control_handler_def set handle_remove_rule_def handle_remove_all_def
         remove_rule_def case_prod_beta)
qed


section \<open>Independent requests\<close>

lemma fold_shuffle:
  assumes "zs \<in> shuffles xs ys" and "\<And>x y s. x \<in> set xs \<Longrightarrow> y \<in> set ys \<Longrightarrow> f x (f y s) = f y (f x s)"
  shows "fold f zs s = fold f (xs @ ys) s"
  using assms
proof (induction zs arbitrary: xs ys s)
  case Nil
  then show ?case by simp
next
  case (Cons z zs)
  have swap: "fold f xs (f y s) = f y (fold f xs s)" if "\<And>x s. x \<in> set xs \<Longrightarrow> f x (f y s) = f y (f x s)" for xs y s
    using that by (induction xs arbitrary: s) auto
  from Cons.prems(1) consider
      xs' where "xs = z # xs'" "zs \<in> shuffles xs' ys"
    | ys' where "ys = z # ys'" "zs \<in> shuffles xs ys'"
    by (cases xs; cases ys) (auto simp: Cons_in_shuffles_iff)
  then show ?case
  proof cases
    case 1
    have "fold f zs (f z s) = fold f (xs' @ ys) (f z s)" using 1 Cons.prems(2) by (intro Cons.IH) auto
    then show ?thesis by (simp add: 1)
  next
    case 2
    have "fold f zs (f z s) = fold f (xs @ ys') (f z s)" using 2 Cons.prems(2) by (intro Cons.IH) auto
    also have "fold f xs (f z s) = f z (fold f xs s)" by (rule swap) (use 2 Cons.prems(2) in auto)
    then have "fold f (xs @ ys') (f z s) = fold f ys' (f z (fold f xs s))" by simp
    finally show ?thesis by (simp add: 2)
  qed
qed

fun rules_of_action :: "admin_action \<Rightarrow> string set" where
  "rules_of_action (Stores now r) = {r_id r}"
| "rules_of_action (Removes rid) = {rid}"
| "rules_of_action Clears = UNIV"
| "rules_of_action a = {}"

fun limiter_of_action :: "admin_action \<Rightarrow> string set" where
  "limiter_of_action (SetsRpm n rpm) = {n}"
| "limiter_of_action (SetsDelay n d) = {n}"
| "limiter_of_action (SetsSlots n k) = {n}"
| "limiter_of_action (Enables n) = {n}"
| "limiter_of_action a = {}"

definition apart :: "admin_action \<Rightarrow> admin_action \<Rightarrow> bool" where
  "apart a b \<longleftrightarrow> rules_of_action a \<inter> rules_of_action b = {} \<and> limiter_of_action a \<inter> limiter_of_action b = {}"

lemma on_limiter_commute: "n \<noteq> m \<Longrightarrow> on_limiter n f (on_limiter m g ls) = on_limiter m g (on_limiter n f ls)"
  by (auto simp: on_limiter_def)

lemma apart_commute: "apart a b \<Longrightarrow> act a (act b st) = act b (act a st)"
  by (cases a; cases b; cases st)
     (auto simp: apart_def set_rule_def remove_rule_def remove_all_def Let_def on_limiter_commute fun_upd_twist)

text \<open>
  C21. Control requests that concern different rules and different limiters do not disturb
  each other: in whatever order the operations of two such requests interleave, store and
  limiters end as if the handlers had run one after the other.
\<close>

theorem independent_requests_interleave:
  assumes "zs \<in> shuffles (control_actions now qa) (control_actions now' qb)"
    and "\<forall>a \<in> set (control_actions now qa). \<forall>b \<in> set (control_actions now' qb). apart a b"
  shows "fold act zs st
    = snd (control_handler set_rule remove_rule remove_all lib now' qb
        (snd (control_handler set_rule remove_rule remove_all lib now qa st)))"
proof -
  have "fold act zs st = fold act (control_actions now qa @ control_actions now' qb) st"
    by (rule fold_shuffle[OF assms(1)]) (use assms(2) apart_commute in blast)
  moreover have "fold act (control_actions t q) st = snd (control_handler set_rule remove_rule remove_all lib t q st)" for t q st
    by (cases st) (simp only: actions_implement_handler)
  ultimately show ?thesis by simp
qed

definition race_rule :: "string \<Rightarrow> string \<Rightarrow> int \<Rightarrow> rule" where
  "race_rule k name rpm = (demo_rule k ''throttle'')\<lparr>r_limiter := name, r_max_rpm := rpm\<rparr>"

definition race_request :: "string \<Rightarrow> string \<Rightarrow> int \<Rightarrow> control_request option" where
  "race_request k name rpm = Some \<lparr>cq_command = ''set-rule'', cq_rule = Some (race_rule k name rpm), cq_rule_id = []\<rparr>"

lemma race_actions:
  "0 < rpm \<Longrightarrow> k \<noteq> [] \<Longrightarrow> name \<noteq> [] \<Longrightarrow> control_actions now (race_request k name rpm)
   = [Stores now (race_rule k name rpm), SetsRpm name rpm, Enables name]"
  by (simp add: control_actions_def race_request_def set_rule_actions_def wire_actions_def validate_rule_def race_rule_def demo_rule_def)

theorem independent_requests_interleave_witness:
  "fold act [Stores 1 (race_rule ''a'' ''ip'' 5), Stores 2 (race_rule ''b'' ''jwt'' 9), SetsRpm ''jwt'' 9, SetsRpm ''ip'' 5,
       Enables ''ip'', Enables ''jwt'']
       (new_memory_rule_store, [''ip'' \<mapsto> demo_limiter, ''jwt'' \<mapsto> demo_limiter])
   = snd (control_handler set_rule remove_rule remove_all demo_library 2 (race_request ''b'' ''jwt'' 9)
       (snd (control_handler set_rule remove_rule remove_all demo_library 1 (race_request ''a'' ''ip'' 5)
            (new_memory_rule_store, [''ip'' \<mapsto> demo_limiter, ''jwt'' \<mapsto> demo_limiter]))))"
  by (rule independent_requests_interleave)
     (simp_all add: race_actions apart_def Cons_in_shuffles_iff race_rule_def demo_rule_def)

section \<open>Requests that race\<close>

lemma append_in_shuffles: "ys @ xs \<in> shuffles xs ys"
  by (induction ys) (auto simp: Cons_in_shuffles_iff)

lemma wire_limiter_rpm: "rl_requests_per_min (wire_limiter r l) = r_max_rpm r"
  by (simp add: wire_limiter_def Let_def enable_def set_max_delay_slots_def set_throttle_delay_def set_requests_per_min_def
      new_sem_def)

text \<open>
  C22. Two accepted set-rule requests for one rule and one limiter race: run one after the
  other they leave the limiter with the limit of the rule the store
  holds, the later one; but there is an interleaving after which the store holds the second rule and the
  limiter enforces the limit of the first, and both requests were answered with success.
\<close>

theorem set_rule_requests_race:
  assumes "rule_valid r1" and "rule_valid r2" and "r_action r1 = ''throttle''" and "r_action r2 = ''throttle''"
    and "r_id r2 = r_id r1" and "r_limiter r1 = n" and "r_limiter r2 = n" and "n \<noteq> []" and "ls n = Some l"
  shows "(\<forall>s' ls'. fold act (set_rule_actions t (Some r1) @ set_rule_actions t' (Some r2)) (s, ls) = (s', ls')
        \<longrightarrow> ms_rules s' (r_id r1) = Some (stored_rule t' r2) \<and> map_option rl_requests_per_min (ls' n) = Some (r_max_rpm r2))
    \<and> (\<exists>zs s' ls'. zs \<in> shuffles (set_rule_actions t (Some r1)) (set_rule_actions t' (Some r2))
        \<and> fold act zs (s, ls) = (s', ls')
        \<and> ms_rules s' (r_id r1) = Some (stored_rule t' r2) \<and> map_option rl_requests_per_min (ls' n) = Some (r_max_rpm r1))"
proof (intro conjI allI impI)
  have acts: "set_rule_actions t (Some r1) = Stores t r1 # wire_actions r1"
    "set_rule_actions t' (Some r2) = Stores t' r2 # wire_actions r2"
    using assms(1,2) by (simp_all add: set_rule_actions_def validate_rule_None)
  have ok: "validate_rule r1 = None" "validate_rule r2 = None" using assms(1,2) by (simp_all add: validate_rule_None)
  note run = stores_act[OF ok(1)] stores_act[OF ok(2)] fold_wire_actions
  have wired: "map_option rl_requests_per_min (wired r2 (wired r1 ls) n) = Some (r_max_rpm r2)"
    "map_option rl_requests_per_min (wired r1 (wired r2 ls) n) = Some (r_max_rpm r1)"
    using assms(3,4,6-9) by (simp_all add: wired_def wire_limiter_rpm)
  show "ms_rules s' (r_id r1) = Some (stored_rule t' r2)" "map_option rl_requests_per_min (ls' n) = Some (r_max_rpm r2)"
    if "fold act (set_rule_actions t (Some r1) @ set_rule_actions t' (Some r2)) (s, ls) = (s', ls')" for s' ls'
    using that wired(1) assms(5) by (auto simp: acts run simp del: act.simps)
  let ?zs = "Stores t r1 # (Stores t' r2 # wire_actions r2) @ wire_actions r1"
  have "?zs \<in> shuffles (set_rule_actions t (Some r1)) (set_rule_actions t' (Some r2))"
    unfolding acts by (rule Cons_in_shuffles_leftI) (rule append_in_shuffles)
  moreover have "fold act ?zs (s, ls)
      = (s\<lparr>ms_rules := (ms_rules s)(r_id r1 \<mapsto> stored_rule t' r2)\<rparr>, wired r1 (wired r2 ls))"
    using assms(5) by (simp add: run del: act.simps)
  ultimately show "\<exists>zs s' ls'. zs \<in> shuffles (set_rule_actions t (Some r1)) (set_rule_actions t' (Some r2))
        \<and> fold act zs (s, ls) = (s', ls')
        \<and> ms_rules s' (r_id r1) = Some (stored_rule t' r2) \<and> map_option rl_requests_per_min (ls' n) = Some (r_max_rpm r1)"
    using wired(2) by (metis (no_types, lifting) fun_upd_same mem_store.select_convs(1) mem_store.simps(6) mem_store.surjective mem_store.update_convs(1))
qed

theorem set_rule_requests_race_witness:
  "\<exists>zs s' ls'. zs \<in> shuffles (set_rule_actions 1 (Some (race_rule ''a'' ''ip'' 5))) (set_rule_actions 2 (Some (race_rule ''a'' ''ip'' 9)))
     \<and> fold act zs (new_memory_rule_store, [''ip'' \<mapsto> demo_limiter]) = (s', ls')
     \<and> map_option r_max_rpm (ms_rules s' ''a'') = Some 9 \<and> map_option rl_requests_per_min (ls' ''ip'') = Some 5"
proof -
  have v: "rule_valid (race_rule ''a'' ''ip'' rpm)" "r_action (race_rule ''a'' ''ip'' rpm) = ''throttle''"
    "r_id (race_rule ''a'' ''ip'' rpm) = ''a''" "r_limiter (race_rule ''a'' ''ip'' rpm) = ''ip''"
    "r_max_rpm (race_rule ''a'' ''ip'' rpm) = rpm" if "0 < rpm" for rpm
    using that by (simp_all add: race_rule_def demo_rule_def rule_valid_def)
  obtain zs s' ls' where zs: "zs \<in> shuffles (set_rule_actions 1 (Some (race_rule ''a'' ''ip'' 5))) (set_rule_actions 2 (Some (race_rule ''a'' ''ip'' 9)))"
    "fold act zs (new_memory_rule_store, [''ip'' \<mapsto> demo_limiter]) = (s', ls')"
    "ms_rules s' ''a'' = Some (stored_rule 2 (race_rule ''a'' ''ip'' 9))" "map_option rl_requests_per_min (ls' ''ip'') = Some 5"
    using set_rule_requests_race[of "race_rule ''a'' ''ip'' 5" "race_rule ''a'' ''ip'' 9" "''ip''" "[''ip'' \<mapsto> demo_limiter]" demo_limiter 1
        2 new_memory_rule_store] by (auto simp: v)
  then show ?thesis using v(5)[of 9] by (intro exI[of _ zs] exI[of _ s'] exI[of _ ls']) simp
qed

end
