(* ===== verification/Loader.thy ===== *)
theory Loader
  imports Rules Limiter Config Firestore
begin

text \<open>
  The startup loader, \<open>internal/startup/rule_loader.go\<close>: rules persisted in the environment
  variable \<open>PROXY_THROTTLE_RULES\<close> are put into the rule store before traffic is served, and
  a throttle rule that names a limiter reconfigures it.

  Written over a rule store's \<open>set\<close>, as the code is over \<open>store.RuleStore\<close>. \<open>unmarshal\<close> is
  \<open>json.Unmarshal\<close> into a list of \<open>PersistedRule\<close>, \<open>parse_time\<close> is \<open>time.Parse\<close> with the
  RFC 3339 layout. \<open>now\<close> is the loader's clock reading, \<open>later\<close> the store's.
\<close>

record persisted_rule =
  pr_rule_id :: string
  pr_target_host :: string
  pr_action :: string
  pr_max_rpm :: int
  pr_path_pattern :: "string option"
  pr_rate_by_key :: bool
  pr_limiter :: string
  pr_expires_at :: string

definition env_throttle_rules :: string where
  "env_throttle_rules = ''PROXY_THROTTLE_RULES''"

text \<open>
  \<open>int(d.Seconds())\<close>: whole seconds, except that the \<open>float64\<close> sum of \<open>s\<close> seconds and the
  fraction reaches \<open>s + 1\<close> when what is missing is at most half a unit in the last place of
  \<open>s\<close>, as in \<open>retry_after_seconds\<close>. That needs \<open>s \<ge> 2^24\<close>.
\<close>

definition whole_seconds :: "duration \<Rightarrow> int" where
  "whole_seconds d =
     (let s = d div second; ns = d mod second
      in if 0 < s \<and> ns \<noteq> 0 \<and> (second - ns) * 2 ^ 53 \<le> second * 2 ^ log2_floor (nat s) then s + 1 else s)"

definition rule_of_persisted :: "persisted_rule \<Rightarrow> int \<Rightarrow> rule" where
  "rule_of_persisted pr remaining =
     \<lparr>r_id = pr_rule_id pr, r_target_host = pr_target_host pr, r_action = pr_action pr,
      r_max_rpm = pr_max_rpm pr, r_path_pattern = pr_path_pattern pr, r_rate_by_key = pr_rate_by_key pr,
      r_limiter = pr_limiter pr, r_throttle_delay_ms = 0, r_max_delay_slots = 0,
      r_duration_seconds = remaining, r_expires_at = 0, r_current_rpm = 0\<rparr>"

definition load_rule ::
    "(time \<Rightarrow> rule \<Rightarrow> 's \<Rightarrow> (string, rule \<times> 's) result) \<Rightarrow> (string \<Rightarrow> time option) \<Rightarrow> time \<Rightarrow> time
     \<Rightarrow> persisted_rule \<Rightarrow> 's \<times> (string \<rightharpoonup> limiter) \<Rightarrow> 's \<times> (string \<rightharpoonup> limiter)" where
  "load_rule st parse_time now later pr = (\<lambda>(s, ls).
     (case parse_time (pr_expires_at pr) of
        None \<Rightarrow> (s, ls)
      | Some expires_at \<Rightarrow>
          if \<not> time_after expires_at now then (s, ls)
          else let remaining = whole_seconds (time_sub expires_at now)
               in if remaining \<le> 0 then (s, ls)
                  else (case st later (rule_of_persisted pr remaining) s of
                          Inl e \<Rightarrow> (s, ls)
                        | Inr (r', s') \<Rightarrow>
                            (s', if pr_limiter pr \<noteq> [] \<and> pr_action pr = ''throttle''
                                 then (case ls (pr_limiter pr) of
                                         None \<Rightarrow> ls
                                       | Some l \<Rightarrow> ls(pr_limiter pr \<mapsto> enable (set_requests_per_min (pr_max_rpm pr) l)))
                                 else ls))))"

definition load_persisted ::
    "(time \<Rightarrow> rule \<Rightarrow> 's \<Rightarrow> (string, rule \<times> 's) result) \<Rightarrow> (string \<Rightarrow> (string, persisted_rule list) result)
     \<Rightarrow> (string \<Rightarrow> time option) \<Rightarrow> env \<Rightarrow> time \<Rightarrow> time \<Rightarrow> 's \<times> (string \<rightharpoonup> limiter)
     \<Rightarrow> (string, unit) result \<times> 's \<times> (string \<rightharpoonup> limiter)" where
  "load_persisted st unmarshal parse_time env now later w =
     (let raw = getenv env env_throttle_rules
      in if raw = [] then (Inr (), w)
         else (case unmarshal raw of
                 Inl e \<Rightarrow> (Inl (''PROXY_THROTTLE_RULES: invalid JSON: '' @ e), w)
               | Inr persisted \<Rightarrow> (Inr (), fold (load_rule st parse_time now later) persisted w)))"

section \<open>What loading does\<close>

lemma whole_seconds_exact:
  assumes "0 \<le> d" and "d < 2 ^ 24 * second"
  shows "whole_seconds d = d div second"
proof -
  define s where "s = d div second"
  define ns where "ns = d mod second"
  have ns: "0 \<le> ns" "ns < second" by (simp_all add: ns_def)
  have "\<not> (second - ns) * 2 ^ 53 \<le> second * 2 ^ log2_floor (nat s)" if "0 < s"
  proof -
    have "d = s * second + ns" by (simp add: s_def ns_def)
    then have "s < 2 ^ 24" using assms(2) ns by (simp add: second_def)
    then have "nat s < 2 ^ 24" by simp
    with that have "log2_floor (nat s) \<le> 23" using log2_floor_small[of "nat s" 24] by simp
    then have "(2 :: int) ^ log2_floor (nat s) \<le> 2 ^ 23" by (rule power_increasing) simp
    then have "second * 2 ^ log2_floor (nat s) \<le> second * 2 ^ 23" by (simp add: second_def)
    moreover have "second * 2 ^ 23 < (second - ns) * 2 ^ 53" using ns by (simp add: second_def)
    ultimately show ?thesis by linarith
  qed
  then show ?thesis unfolding whole_seconds_def Let_def s_def[symmetric] ns_def[symmetric] by auto
qed

text \<open>A persisted rule that is put into the store, and the whole seconds it has left.\<close>

definition loads :: "(string \<Rightarrow> time option) \<Rightarrow> time \<Rightarrow> persisted_rule \<Rightarrow> int option" where
  "loads parse_time now pr =
     (case parse_time (pr_expires_at pr) of
        None \<Rightarrow> None
      | Some t \<Rightarrow> if pr_rule_id pr \<noteq> [] \<and> now < t \<and> 0 < whole_seconds (time_sub t now)
                  then Some (whole_seconds (time_sub t now)) else None)"

fun load_spec :: "(string \<Rightarrow> time option) \<Rightarrow> time \<Rightarrow> time \<Rightarrow> persisted_rule list \<Rightarrow> rules \<Rightarrow> rules" where
  "load_spec parse_time now later [] rs = rs"
| "load_spec parse_time now later (pr # prs) rs =
     load_spec parse_time now later prs
       (case loads parse_time now pr of
          None \<Rightarrow> rs
        | Some n \<Rightarrow> rs(pr_rule_id pr \<mapsto> stored_rule later (rule_of_persisted pr n)))"

context rule_store
begin

lemma load_rule_rules:
  "rules_of (fst (load_rule set parse_time now later pr (s, ls)))
   = (case loads parse_time now pr of
        None \<Rightarrow> rules_of s | Some n \<Rightarrow> (rules_of s)(pr_rule_id pr \<mapsto> stored_rule later (rule_of_persisted pr n)))"
proof (cases "parse_time (pr_expires_at pr)")
  case None
  then show ?thesis by (simp add: load_rule_def loads_def)
next
  case (Some t)
  let ?n = "whole_seconds (time_sub t now)"
  have rid: "r_id (rule_of_persisted pr ?n) = pr_rule_id pr" by (simp add: rule_of_persisted_def)
  show ?thesis
  proof (cases "now < t \<and> 0 < ?n")
    case False
    then show ?thesis using Some by (auto simp: load_rule_def loads_def go_time Let_def)
  next
    case live: True
    show ?thesis
    proof (cases "pr_rule_id pr = []")
      case True
      then have "set later (rule_of_persisted pr ?n) s = Inl ''ruleId is required''"
        using set_error rid by simp
      then show ?thesis using Some live True by (simp add: load_rule_def loads_def go_time)
    next
      case False
      then obtain s' where "set later (rule_of_persisted pr ?n) s = Inr (stored_rule later (rule_of_persisted pr ?n), s')"
        and "rules_of s' = (rules_of s)(pr_rule_id pr \<mapsto> stored_rule later (rule_of_persisted pr ?n))"
        using set_stores[of "rule_of_persisted pr ?n" later s] rid by auto
      then show ?thesis using Some live False by (simp add: load_rule_def loads_def go_time)
    qed
  qed
qed

lemma load_rules_spec:
  "rules_of (fst (fold (load_rule set parse_time now later) prs w)) = load_spec parse_time now later prs (rules_of (fst w))"
proof (induction prs arbitrary: w)
  case (Cons pr prs)
  obtain s ls where w: "w = (s, ls)" by (cases w)
  have "rules_of (fst (load_rule set parse_time now later pr w)) = (case loads parse_time now pr of
        None \<Rightarrow> rules_of s | Some n \<Rightarrow> (rules_of s)(pr_rule_id pr \<mapsto> stored_rule later (rule_of_persisted pr n)))"
    unfolding w by (rule load_rule_rules)
  then show ?case using Cons by (simp add: w)
qed simp

end

lemma load_spec_Some:
  "load_spec parse_time now later prs rs k = Some r \<Longrightarrow>
     rs k = Some r \<or> (\<exists>pr \<in> set prs. \<exists>n. loads parse_time now pr = Some n \<and> k = pr_rule_id pr
        \<and> r = stored_rule later (rule_of_persisted pr n))"
proof (induction prs arbitrary: rs)
  case (Cons pr prs)
  then have "load_spec parse_time now later prs
      (case loads parse_time now pr of None \<Rightarrow> rs
       | Some n \<Rightarrow> rs(pr_rule_id pr \<mapsto> stored_rule later (rule_of_persisted pr n))) k = Some r" by simp
  from Cons.IH[OF this] show ?case by (auto split: option.splits if_splits)
qed simp

lemma load_spec_last:
  assumes "loads parse_time now pr = Some n" and "\<forall>q \<in> set prs. pr_rule_id q \<noteq> pr_rule_id pr"
  shows "load_spec parse_time now later (pr # prs) rs (pr_rule_id pr) = Some (stored_rule later (rule_of_persisted pr n))"
proof -
  have "load_spec parse_time now later prs rs' (pr_rule_id pr) = rs' (pr_rule_id pr)" for rs'
    using assms(2) by (induction prs arbitrary: rs') (auto split: option.splits)
  then show ?thesis using assms(1) by simp
qed

lemma loads_deadline:
  assumes "loads parse_time now pr = Some n" and "parse_time (pr_expires_at pr) = Some t"
    and "t - now < 2 ^ 24 * second"
  shows "t - second < now + n * second \<and> now + n * second \<le> t \<and> 0 < n"
proof -
  have "now < t" and n: "n = whole_seconds (time_sub t now)" "0 < n"
    using assms(1,2) by (auto simp: loads_def split: if_splits)
  have "time_sub t now = t - now"
    using \<open>now < t\<close> assms(3) by (intro time_sub_exact) (simp add: int64_ok_def second_def)
  then have q: "n = (t - now) div second"
    using whole_seconds_exact[of "t - now"] \<open>now < t\<close> assms(3) n by simp
  have "t - now = (t - now) div second * second + (t - now) mod second" by simp
  moreover have "0 \<le> (t - now) mod second" "(t - now) mod second < second" by simp_all
  ultimately have "t - now < n * second + second" and "n * second \<le> t - now" unfolding q by linarith+
  then show ?thesis using n by linarith
qed

text \<open>
  Loading keeps deadlines: with the store's clock at the loader's, a rule the loader
  puts into the in-memory store expires at most one second before the persisted instant and
  never after it (for rules with less than 194 days left), and rules that have expired, have
  less than a second left or no id are not loaded at all.
\<close>

theorem loaded_rules_keep_deadline:
  assumes "load_persisted set_rule unmarshal parse_time env now now (new_memory_rule_store, ls) = (res, s, ls')"
    and "unmarshal (getenv env env_throttle_rules) = Inr prs"
    and "\<forall>pr \<in> set prs. \<forall>t. parse_time (pr_expires_at pr) = Some t \<longrightarrow> t - now < 2 ^ 24 * second"
    and "ms_rules s k = Some r"
  shows "\<exists>pr t. pr \<in> set prs \<and> k = pr_rule_id pr \<and> k \<noteq> [] \<and> parse_time (pr_expires_at pr) = Some t
    \<and> t - second < r_expires_at r \<and> r_expires_at r \<le> t \<and> now + second \<le> r_expires_at r"
proof -
  have "getenv env env_throttle_rules \<noteq> []"
    using assms(1,4) by (auto simp: load_persisted_def new_memory_rule_store_def)
  then have "s = fst (fold (load_rule set_rule parse_time now now) prs (new_memory_rule_store, ls))"
    using assms(1,2) by (auto simp: load_persisted_def)
  then have "ms_rules s = load_spec parse_time now now prs Map.empty"
    using mem.load_rules_spec[of parse_time now now prs "(new_memory_rule_store, ls)"]
    by (simp add: new_memory_rule_store_def)
  then obtain pr n where pr: "pr \<in> set prs" "loads parse_time now pr = Some n" "k = pr_rule_id pr"
      "r = stored_rule now (rule_of_persisted pr n)"
    using load_spec_Some[of parse_time now now prs Map.empty k r] assms(4) by auto
  then obtain t where t: "parse_time (pr_expires_at pr) = Some t" and k: "k \<noteq> []"
    by (auto simp: loads_def split: option.splits if_splits)
  have bound: "t - now < 2 ^ 24 * second" using assms(3) pr(1) t by blast
  note d = loads_deadline[OF pr(2) t bound]
  then have "int64_ok (n * second)" using bound by (simp add: int64_ok_def second_def)
  then have "r_expires_at r = now + n * second"
    by (simp add: pr(4) stored_rule_def reset_rpm_def rule_of_persisted_def go_time mul64_exact)
  moreover have "now + second \<le> now + n * second" using d by (simp add: second_def)
  ultimately show ?thesis using pr t k d by auto
qed

definition demo_persisted :: persisted_rule where
  "demo_persisted = \<lparr>pr_rule_id = ''a'', pr_target_host = ''h'', pr_action = ''throttle'', pr_max_rpm = 0,
     pr_path_pattern = None, pr_rate_by_key = False, pr_limiter = ''ip'', pr_expires_at = ''T''\<rparr>"

lemma demo_loads: "loads (\<lambda>_. Some (5 * second)) 0 demo_persisted = Some 5"
  using whole_seconds_exact[of "5 * second"] time_sub_exact[of "5 * second" 0]
  by (simp add: loads_def demo_persisted_def second_def int64_ok_def)

theorem loaded_rules_keep_deadline_witness:
  "\<exists>s ls r. load_persisted set_rule (\<lambda>_. Inr [demo_persisted]) (\<lambda>_. Some (5 * second))
      [(env_throttle_rules, ''[..]'')] 0 0 (new_memory_rule_store, Map.empty) = (Inr (), s, ls)
     \<and> ms_rules s ''a'' = Some r \<and> 4 * second < r_expires_at r"
proof -
  let ?env = "[(env_throttle_rules, ''[..]'')]" and ?u = "\<lambda>_. Inr [demo_persisted] :: (string, persisted_rule list) result"
  let ?pt = "\<lambda>_. Some (5 * second)"
  obtain res s ls where l: "load_persisted set_rule ?u ?pt ?env 0 0 (new_memory_rule_store, Map.empty) = (res, s, ls)"
    by (metis prod_cases3)
  have res: "res = Inr ()" using l by (auto simp: load_persisted_def getenv_def)
  have "s = fst (fold (load_rule set_rule ?pt 0 0) [demo_persisted] (new_memory_rule_store, Map.empty))"
    using l by (auto simp: load_persisted_def getenv_def)
  then have "ms_rules s = load_spec ?pt 0 0 [demo_persisted] Map.empty"
    using mem.load_rules_spec[of ?pt 0 0 "[demo_persisted]" "(new_memory_rule_store, Map.empty)"]
    by (simp add: new_memory_rule_store_def)
  moreover have "pr_rule_id demo_persisted = ''a''" by (simp add: demo_persisted_def)
  ultimately obtain r where r: "ms_rules s ''a'' = Some r" using demo_loads by simp
  from loaded_rules_keep_deadline[OF l, of "[demo_persisted]" "''a''" r] r
  have "4 * second < r_expires_at r" by (simp add: second_def)
  then show ?thesis using l res r by blast
qed

text \<open>
  The loader validates nothing: a persisted throttle rule with no limit that names a
  limiter switches that limiter's enforcement off, so that it lets every request of every
  key pass from then on, although it is reported as enabled.
\<close>

theorem loaded_rule_can_disable_limiter:
  assumes "loads parse_time now pr = Some n" and "pr_action pr = ''throttle''" and "pr_max_rpm pr \<le> 0"
    and "pr_limiter pr \<noteq> []" and "ls (pr_limiter pr) = Some l"
  shows "\<exists>l'. snd (load_rule set_rule parse_time now later pr (s, ls)) (pr_limiter pr) = Some l'
    \<and> rl_enabled l' \<and> allow t key l' = (True, 0, l')"
proof -
  obtain e where e: "parse_time (pr_expires_at pr) = Some e" "now < e" "0 < whole_seconds (time_sub e now)"
      "pr_rule_id pr \<noteq> []"
    using assms(1) by (auto simp: loads_def split: option.splits if_splits)
  have "\<exists>r' s'. set_rule later (rule_of_persisted pr (whole_seconds (time_sub e now))) s = Inr (r', s')"
    using e(4) by (simp add: set_rule_def rule_of_persisted_def Let_def)
  then show ?thesis using e assms(2-5)
    by (auto simp: load_rule_def go_time Let_def allow_def enable_def set_requests_per_min_def)
qed

theorem loaded_rule_can_disable_limiter_witness:
  "\<exists>l'. snd (load_rule set_rule (\<lambda>_. Some (5 * second)) 0 0 demo_persisted
        (new_memory_rule_store, [''ip'' \<mapsto> new_rate_limiter \<lparr>lc_name = ''ip'', lc_enabled = True,
           lc_requests_per_min = 60, lc_ban_duration = 5 * minute, lc_throttle_delay = 0, lc_max_delay_slots = 0\<rparr> 0]))
      (pr_limiter demo_persisted) = Some l' \<and> rl_enabled l' \<and> allow 7 ''10.0.0.1'' l' = (True, 0, l')"
  by (rule loaded_rule_can_disable_limiter[OF demo_loads]) (simp_all add: demo_persisted_def)

end
