(* ===== verification/Middleware.thy ===== *)
theory Middleware
  imports Admin Matcher Go_Path
begin

text \<open>
  The middleware of the request pipeline, \<open>internal/proxy/middleware.go\<close> and
  \<open>internal/proxy/dynamic_rule.go\<close>.

  A handler takes a request and the state of the process, \<open>world\<close>, and returns the response
  and the state. A middleware maps handlers to handlers, as in the code. What a request
  meets from outside while it is served is the record \<open>request_env\<close>: the clock (one reading
  per request, and a second one for a key that is fetched), the network, the iteration
  orders of the maps the code ranges over, and the upstream server.

  The rate limiters are held by name in \<open>w_limiters\<close>; an absent name is a nil limiter. The
  rule store is a field of the world, reached through the \<open>decide\<close> operation that
  \<open>DynamicRuleCheck\<close> is built with. \<open>w_sent\<close> lists the requests sent upstream and
  \<open>w_access\<close> the access log, both newest first.
\<close>

section \<open>State and environment\<close>

record access_entry =
  ae_method :: string
  ae_path :: string
  ae_status :: int
  ae_auth_result :: string

record 's world =
  w_store :: 's
  w_limiters :: limiters
  w_jwt :: validator
  w_sent :: "request list"
  w_access :: "access_entry list"

datatype upstream_reply = Answered response | BodyTooLarge | Unreachable string

record request_env =
  ev_now :: time
  ev_later :: time
  ev_web :: web
  ev_rule_order :: "string list"
  ev_filter_order :: "string list"
  ev_mapping_order :: "string list"
  ev_payload_order :: "string list"
  ev_header_order :: "(string \<rightharpoonup> string) \<Rightarrow> string list"
  ev_upstream :: "request \<Rightarrow> upstream_reply"

type_synonym 's middleware = "'s world handler \<Rightarrow> 's world handler"

section \<open>Path filter\<close>

definition is_regex_pattern :: "string \<Rightarrow> bool" where
  "is_regex_pattern p = slash_delimited p"

definition path_matches :: "library \<Rightarrow> string \<Rightarrow> string \<Rightarrow> bool" where
  "path_matches lib req_path pattern =
     (if pattern = [] then False
      else if is_regex_pattern pattern then
        (case lib_regex lib (inside_slashes pattern) of None \<Rightarrow> False | Some f \<Rightarrow> f req_path)
      else if has_suffix pattern ''/*'' \<and> has_prefix req_path (butlast pattern) then True
      else path_match pattern req_path)"

fun match_any_pattern :: "library \<Rightarrow> string \<Rightarrow> string list \<Rightarrow> bool" where
  "match_any_pattern lib req_path [] = False"
| "match_any_pattern lib req_path (p # ps) =
     (if path_matches lib req_path p then True else match_any_pattern lib req_path ps)"

definition should_authenticate :: "library \<Rightarrow> string \<Rightarrow> string list \<Rightarrow> string list \<Rightarrow> bool" where
  "should_authenticate lib req_path include exclude =
     (if match_any_pattern lib req_path exclude then False
      else if include = [] then True
      else match_any_pattern lib req_path include)"

definition path_filter :: "library \<Rightarrow> string list \<Rightarrow> string list \<Rightarrow> 's middleware" where
  "path_filter lib include exclude nxt r w =
     nxt (r\<lparr>rq_auth_required := Some (should_authenticate lib (rq_path r) include exclude)\<rparr>) w"

definition auth_required :: "request \<Rightarrow> bool" where
  "auth_required r = (case rq_auth_required r of None \<Rightarrow> True | Some b \<Rightarrow> b)"

section \<open>Request logger\<close>

definition auth_result :: "int \<Rightarrow> bool \<Rightarrow> string" where
  "auth_result status requires =
     (if status = 401 then ''denied''
      else if status = 429 then ''rate_limited''
      else if \<not> requires then ''bypassed'' else ''authorized'')"

definition request_logger :: "library \<Rightarrow> string list \<Rightarrow> string list \<Rightarrow> 's middleware" where
  "request_logger lib include exclude nxt r w =
     (case nxt r w of (resp, w') \<Rightarrow>
       (resp, w'\<lparr>w_access :=
          \<lparr>ae_method = rq_method r, ae_path = rq_path r, ae_status = rs_status resp,
           ae_auth_result = auth_result (rs_status resp) (should_authenticate lib (rq_path r) include exclude)\<rparr>
          # w_access w'\<rparr>))"

section \<open>Header sanitizer\<close>

definition strip_headers_with_prefix :: "header \<Rightarrow> string \<Rightarrow> header" where
  "strip_headers_with_prefix h prefix =
     (if prefix = [] then h
      else (\<lambda>k. if \<exists>j \<in> dom h. has_prefix (to_upper j) (to_upper prefix) \<and> canonical_key j = k then None else h k))"

definition header_sanitizer :: "string \<Rightarrow> 's middleware" where
  "header_sanitizer prefix nxt r w =
     nxt (r\<lparr>rq_headers := strip_headers_with_prefix (rq_headers r) prefix\<rparr>) w"

section \<open>Responses of the proxy\<close>

text \<open>\<open>writeJSON\<close>; its fallback for a payload that does not encode is not reached by what the proxy writes.\<close>

definition write_json :: "int \<Rightarrow> json option \<Rightarrow> response" where
  "write_json status payload =
     (let headers = header_set Map.empty ''Content-Type'' ''application/json''
      in case payload of
           None \<Rightarrow> \<lparr>rs_status = status, rs_headers = headers, rs_body = None\<rparr>
         | Some v \<Rightarrow> \<lparr>rs_status = status, rs_headers = headers, rs_body = Some v\<rparr>)"

text \<open>The proxy and the admin handlers write JSON alike.\<close>

lemma write_json_Some [simp]: "write_json status (Some v) = json_response status v"
  by (simp add: write_json_def json_response_def Let_def)

definition error_response :: "int \<Rightarrow> string \<Rightarrow> string \<Rightarrow> response" where
  "error_response status err msg = write_json status (Some (JObj [(''error'', JStr err), (''message'', JStr msg)]))"

definition rate_limit_response :: "int \<Rightarrow> response" where
  "rate_limit_response retry_after =
     (let resp = write_json 429
            (Some (JObj ([(''error'', JStr ''rate_limited''), (''message'', JStr ''too many requests'')]
                   @ (if retry_after = 0 then [] else [(''retry_after'', JNum retry_after 0)]))))
      in if 0 < retry_after
         then resp\<lparr>rs_headers := header_set (rs_headers resp) ''Retry-After'' (int_string retry_after)\<rparr>
         else resp)"

section \<open>Body limiter\<close>

definition too_large_response :: response where
  "too_large_response = error_response 413 ''request_too_large'' ''request body exceeds size limit''"

definition body_limiter :: "int \<Rightarrow> 's middleware" where
  "body_limiter max_bytes nxt r w =
     (if 0 < max_bytes \<and> rq_has_body r then
        if max_bytes < rq_content_length r then (too_large_response, w)
        else nxt (r\<lparr>rq_body_limit := Some max_bytes\<rparr>) w
      else nxt r w)"

section \<open>Dynamic rules\<close>

definition dynamic_rule_check ::
    "(string list \<Rightarrow> time \<Rightarrow> string \<Rightarrow> string \<Rightarrow> 's \<Rightarrow> bool \<times> 's) option \<Rightarrow> request_env \<Rightarrow> 's middleware" where
  "dynamic_rule_check checker ev nxt r w =
     (case checker of
        None \<Rightarrow> nxt r w
      | Some dc \<Rightarrow>
          (case dc (ev_rule_order ev) (ev_now ev) (rq_host r) (rq_path r) (w_store w) of
             (ok, s') \<Rightarrow>
               if \<not> ok then (rate_limit_response 60, w\<lparr>w_store := s'\<rparr>)
               else nxt r (w\<lparr>w_store := s'\<rparr>)))"

section \<open>Rate limits\<close>

definition put_limiter :: "string \<Rightarrow> limiter \<Rightarrow> 's world \<Rightarrow> 's world" where
  "put_limiter name l w = w\<lparr>w_limiters := (w_limiters w)(name \<mapsto> l)\<rparr>"

text \<open>The slot is held while the goroutine sleeps, and given back before the handler returns.\<close>

definition handle_rate_limited :: "string \<Rightarrow> int \<Rightarrow> limiter \<Rightarrow> 's world \<Rightarrow> response \<times> 's world" where
  "handle_rate_limited name retry_after l w =
     (case try_acquire_delay_slot l of
        (True, sem, l1) \<Rightarrow>
          (rate_limit_response retry_after,
           put_limiter name (case release_delay_slot sem l1 of None \<Rightarrow> l1 | Some l2 \<Rightarrow> l2) w)
      | (False, sem, l1) \<Rightarrow> (rate_limit_response retry_after, put_limiter name l1 w))"

text \<open>The shared tail of the three limiters: ask the limiter for the key, go on or reject.\<close>

definition limit_key :: "string \<Rightarrow> limiter \<Rightarrow> string \<Rightarrow> request_env \<Rightarrow> 's middleware" where
  "limit_key name l key ev nxt r w =
     (case allow (ev_now ev) key l of (ok, retry_after, l') \<Rightarrow>
        if \<not> ok then handle_rate_limited name retry_after l' w
        else nxt r (put_limiter name l' w))"

definition ip_rate_limit :: "string \<Rightarrow> bool \<Rightarrow> request_env \<Rightarrow> 's middleware" where
  "ip_rate_limit name skip_if_jwt ev nxt r w =
     (case w_limiters w name of
        None \<Rightarrow> nxt r w
      | Some l \<Rightarrow>
          if skip_if_jwt \<and> rq_jwt_identified r = Some True then nxt r w
          else limit_key name l (client_ip r) ev nxt r w)"

definition extract_api_key :: "request \<Rightarrow> string \<Rightarrow> string" where
  "extract_api_key r key_header =
     (if key_header \<noteq> [] \<and> header_get (rq_headers r) key_header \<noteq> []
      then header_get (rq_headers r) key_header
      else case rq_query_key r of [] \<Rightarrow> [] | v # vs \<Rightarrow> v)"

definition hash_identity :: "library \<Rightarrow> string \<Rightarrow> string" where
  "hash_identity lib raw = b64_encode (take 12 (lib_sha256 lib raw))"

definition api_key_bucket :: "library \<Rightarrow> string \<Rightarrow> bool \<Rightarrow> request \<Rightarrow> string" where
  "api_key_bucket lib key_header include_ip r =
     (let key = extract_api_key r key_header;
          k = (if key = [] then client_ip r else ''k:'' @ hash_identity lib key)
      in if include_ip then client_ip r @ '':'' @ k else k)"

definition api_key_rate_limit ::
    "library \<Rightarrow> string \<Rightarrow> compiled_rule list option \<Rightarrow> string \<Rightarrow> bool \<Rightarrow> request_env \<Rightarrow> 's middleware" where
  "api_key_rate_limit lib name matcher key_header include_ip ev nxt r w =
     (case (w_limiters w name, matcher) of
        (Some l, Some m) \<Rightarrow>
          if \<not> matches m r then nxt r w
          else limit_key name l (api_key_bucket lib key_header include_ip r) ev nxt r w
      | _ \<Rightarrow> nxt r w)"

definition extract_bearer_sub :: "library \<Rightarrow> string \<Rightarrow> string" where
  "extract_bearer_sub lib auth_header =
     (if \<not> has_prefix auth_header ''Bearer '' then []
      else case split_n 3 CHR ''.'' (trim_prefix auth_header ''Bearer '') of
        [h, p, s] \<Rightarrow>
          (case b64_decode p of
             None \<Rightarrow> []
           | Some payload \<Rightarrow>
               (case lib_json lib payload of
                  Inl e \<Rightarrow> []
                | Inr v \<Rightarrow>
                    (case json_to_map v of None \<Rightarrow> [] | Some claims \<Rightarrow> claim_string claims ''sub'')))
      | _ \<Rightarrow> [])"

definition jwt_bucket :: "bool \<Rightarrow> request \<Rightarrow> string \<Rightarrow> string" where
  "jwt_bucket include_ip r sub = (if include_ip then client_ip r @ '':'' @ ''s:'' @ sub else ''s:'' @ sub)"

definition jwt_rate_limit :: "library \<Rightarrow> string \<Rightarrow> bool \<Rightarrow> request_env \<Rightarrow> 's middleware" where
  "jwt_rate_limit lib name include_ip ev nxt r w =
     (case w_limiters w name of
        None \<Rightarrow> nxt r w
      | Some l \<Rightarrow>
          let sub = extract_bearer_sub lib (header_get (rq_headers r) ''Authorization'')
          in if sub = [] then nxt r w
             else limit_key name l (jwt_bucket include_ip r sub) ev nxt (r\<lparr>rq_jwt_identified := Some True\<rparr>) w)"

section \<open>Composition\<close>

definition apply_middleware :: "'s world handler \<Rightarrow> 's middleware list \<Rightarrow> 's world handler" where
  "apply_middleware handler mws = foldr (\<lambda>mw wrapped. mw wrapped) mws handler"

section \<open>The contract of a gate\<close>

text \<open>
  Every middleware but the logger is a gate: it looks at the request and the state, and
  either answers itself or hands a request and a state to the next handler. \<open>gate\<close> is the
  contract the rest of the pipeline relies on. A gate sends nothing upstream, leaves the
  token validator and the log alone, rejects with 413 or 429 only, and lets a request pass
  with its method, path, host, address and body unchanged and no header added.
\<close>

definition same_line :: "request \<Rightarrow> request \<Rightarrow> bool" where
  "same_line r r' \<longleftrightarrow>
     rq_method r' = rq_method r \<and> rq_host r' = rq_host r \<and> rq_path r' = rq_path r
   \<and> rq_remote_addr r' = rq_remote_addr r \<and> rq_headers r' \<subseteq>\<^sub>m rq_headers r \<and> rq_has_body r' = rq_has_body r
   \<and> rq_raw_query r' = rq_raw_query r"

definition same_outside :: "'s world \<Rightarrow> 's world \<Rightarrow> bool" where
  "same_outside w w' \<longleftrightarrow> w_jwt w' = w_jwt w \<and> w_sent w' = w_sent w \<and> w_access w' = w_access w"

lemma same_line_refl [simp]: "same_line r r"
  by (simp add: same_line_def)

lemma same_line_trans: "same_line a b \<Longrightarrow> same_line b c \<Longrightarrow> same_line a c"
  by (auto simp: same_line_def intro: map_le_trans)

lemma same_outside_refl [simp]: "same_outside w w"
  by (simp add: same_outside_def)

lemma same_outside_trans: "same_outside a b \<Longrightarrow> same_outside b c \<Longrightarrow> same_outside a c"
  by (simp add: same_outside_def)

lemma same_outside_put [simp]: "same_outside w (put_limiter n l w)" "same_outside w (w\<lparr>w_store := s\<rparr>)"
  by (simp_all add: same_outside_def put_limiter_def)

definition is_gate :: "'s middleware \<Rightarrow> bool" where
  "is_gate mw \<longleftrightarrow> (\<forall>nxt r w.
     (\<exists>resp w'. mw nxt r w = (resp, w') \<and> rs_status resp \<in> {413, 429} \<and> same_outside w w')
   \<or> (\<exists>r' w'. mw nxt r w = nxt r' w' \<and> same_line r r' \<and> same_outside w w'))"

locale gate =
  fixes mw :: "'s middleware"
    and check :: "request \<Rightarrow> 's world \<Rightarrow> response \<times> 's world + request \<times> 's world"
  assumes mw_check: "mw nxt r w = (case check r w of Inl out \<Rightarrow> out | Inr (r', w') \<Rightarrow> nxt r' w')"
    and reject_ok: "check r w = Inl (resp, w') \<Longrightarrow> rs_status resp \<in> {413, 429} \<and> same_outside w w'"
    and pass_ok: "check r w = Inr (r', w') \<Longrightarrow> same_line r r' \<and> same_outside w w'"
begin

lemma pass_or_reject:
  "(\<exists>resp w'. mw nxt r w = (resp, w') \<and> rs_status resp \<in> {413, 429} \<and> same_outside w w')
   \<or> (\<exists>r' w'. mw nxt r w = nxt r' w' \<and> same_line r r' \<and> same_outside w w')"
proof (cases "check r w")
  case (Inl out)
  obtain resp w' where out: "out = (resp, w')" by fastforce
  then have "mw nxt r w = (resp, w')" using Inl by (simp add: mw_check)
  moreover have "rs_status resp \<in> {413, 429} \<and> same_outside w w'" using Inl reject_ok by (simp add: out)
  ultimately show ?thesis by blast
next
  case (Inr p)
  obtain r' w' where p: "p = (r', w')" by fastforce
  then have "mw nxt r w = nxt r' w'" using Inr by (simp add: mw_check)
  moreover have "same_line r r' \<and> same_outside w w'" using Inr pass_ok by (simp add: p)
  ultimately show ?thesis by blast
qed

lemma is_gate: "is_gate mw"
  unfolding is_gate_def using pass_or_reject by blast

end

text \<open>A list of gates in front of a handler: one of them rejects, or the handler is reached.\<close>

lemma gates_compose:
  assumes "\<forall>mw \<in> set mws. is_gate mw"
  shows "(\<exists>resp w'. apply_middleware nxt mws r w = (resp, w') \<and> rs_status resp \<in> {413, 429} \<and> same_outside w w')
   \<or> (\<exists>r' w'. apply_middleware nxt mws r w = nxt r' w' \<and> same_line r r' \<and> same_outside w w')"
  using assms
proof (induction mws arbitrary: r w)
  case Nil
  have "apply_middleware nxt [] r w = nxt r w" by (simp add: apply_middleware_def)
  then show ?case by (intro disjI2 exI[of _ r] exI[of _ w]) simp
next
  case (Cons mw mws)
  have step: "apply_middleware nxt (mw # mws) r w = mw (apply_middleware nxt mws) r w"
    by (simp add: apply_middleware_def)
  have "is_gate mw" using Cons.prems by simp
  then consider
      resp w' where "mw (apply_middleware nxt mws) r w = (resp, w')" "rs_status resp \<in> {413, 429}" "same_outside w w'"
    | r' w' where "mw (apply_middleware nxt mws) r w = apply_middleware nxt mws r' w'" "same_line r r'" "same_outside w w'"
    unfolding is_gate_def by blast
  then show ?case
  proof cases
    case 1
    then show ?thesis unfolding step by blast
  next
    case 2
    have "\<forall>mw \<in> set mws. is_gate mw" using Cons.prems by simp
    from Cons.IH[OF this, of r' w'] show ?thesis
    proof (elim disjE exE conjE)
      fix resp w2
      assume "apply_middleware nxt mws r' w' = (resp, w2)" and "rs_status resp \<in> {413, 429}" and "same_outside w' w2"
      then show ?thesis unfolding step 2(1) using same_outside_trans[OF 2(3)] by blast
    next
      fix r2 w2
      assume "apply_middleware nxt mws r' w' = nxt r2 w2" and "same_line r' r2" and "same_outside w' w2"
      then show ?thesis unfolding step 2(1) using same_outside_trans[OF 2(3)] same_line_trans[OF 2(2)] by blast
    qed
  qed
qed

end
