(* ===== verification/Gates.thy ===== *)
theory Gates
  imports Middleware
begin

text \<open>
  Each middleware as a gate: its decision function, and the interpretation of the contract
  \<open>gate\<close> on it. Then what the single gates guarantee.
\<close>

section \<open>Interpretations\<close>

definition body_check :: "int \<Rightarrow> request \<Rightarrow> 's world \<Rightarrow> response \<times> 's world + request \<times> 's world" where
  "body_check max_bytes r w =
     (if 0 < max_bytes \<and> rq_has_body r then
        if max_bytes < rq_content_length r then Inl (too_large_response, w)
        else Inr (r\<lparr>rq_body_limit := Some max_bytes\<rparr>, w)
      else Inr (r, w))"

interpretation body: gate "body_limiter max_bytes" "body_check max_bytes" for max_bytes
  by unfold_locales
    (auto simp: body_limiter_def body_check_def same_line_def too_large_response_def error_response_def
      json_response_def split: if_splits)

lemma strip_headers_at: "strip_headers_with_prefix h prefix k \<in> {None, h k}"
  by (simp add: strip_headers_with_prefix_def)

lemma strip_headers_le: "strip_headers_with_prefix h prefix \<subseteq>\<^sub>m h"
  unfolding map_le_def using strip_headers_at[of h prefix] by (metis domIff insert_iff singletonD)

interpretation sanitizer: gate "header_sanitizer prefix"
    "\<lambda>r w. Inr (r\<lparr>rq_headers := strip_headers_with_prefix (rq_headers r) prefix\<rparr>, w)" for prefix
  by unfold_locales (auto simp: header_sanitizer_def same_line_def strip_headers_le)

interpretation paths: gate "path_filter lib inc exc"
    "\<lambda>r w. Inr (r\<lparr>rq_auth_required := Some (should_authenticate lib (rq_path r) inc exc)\<rparr>, w)"
  for lib inc exc
  by unfold_locales (auto simp: path_filter_def same_line_def)

definition rule_check_decision ::
    "(string list \<Rightarrow> time \<Rightarrow> string \<Rightarrow> string \<Rightarrow> 's \<Rightarrow> bool \<times> 's) option \<Rightarrow> request_env
     \<Rightarrow> request \<Rightarrow> 's world \<Rightarrow> response \<times> 's world + request \<times> 's world" where
  "rule_check_decision checker ev r w =
     (case checker of
        None \<Rightarrow> Inr (r, w)
      | Some dc \<Rightarrow>
          (case dc (ev_rule_order ev) (ev_now ev) (rq_host r) (rq_path r) (w_store w) of
             (ok, s') \<Rightarrow>
               if \<not> ok then Inl (rate_limit_response 60, w\<lparr>w_store := s'\<rparr>)
               else Inr (r, w\<lparr>w_store := s'\<rparr>)))"

lemma rate_limit_response_status [simp]: "rs_status (rate_limit_response n) = 429"
  by (simp add: rate_limit_response_def json_response_def Let_def)

interpretation dynamic: gate "dynamic_rule_check checker ev" "rule_check_decision checker ev" for checker ev
  by unfold_locales
    (auto simp: dynamic_rule_check_def rule_check_decision_def split: option.splits prod.splits if_splits)

lemma handle_rate_limited_ok:
  "handle_rate_limited name n l w = (resp, w') \<Longrightarrow> resp = rate_limit_response n \<and> same_outside w w'"
  by (auto simp: handle_rate_limited_def split: prod.splits bool.splits)

definition limit_check ::
    "string \<Rightarrow> limiter \<Rightarrow> string \<Rightarrow> request_env \<Rightarrow> request \<Rightarrow> 's world \<Rightarrow> response \<times> 's world + request \<times> 's world" where
  "limit_check name l key ev r w =
     (case allow (ev_now ev) key l of (ok, retry_after, l') \<Rightarrow>
        if \<not> ok then Inl (handle_rate_limited name retry_after l' w) else Inr (r, put_limiter name l' w))"

lemma limit_key_check:
  "limit_key name l key ev nxt r w = (case limit_check name l key ev r w of Inl out \<Rightarrow> out | Inr (r', w') \<Rightarrow> nxt r' w')"
  by (simp add: limit_key_def limit_check_def split: prod.splits)

lemma limit_check_reject:
  "limit_check name l key ev r w = Inl (resp, w') \<Longrightarrow> rs_status resp \<in> {413, 429} \<and> same_outside w w'"
  by (auto simp: limit_check_def split: prod.splits if_splits dest: handle_rate_limited_ok)

lemma limit_check_pass: "limit_check name l key ev r w = Inr (r', w') \<Longrightarrow> r' = r \<and> same_outside w w'"
  by (auto simp: limit_check_def split: prod.splits if_splits)

definition ip_check :: "string \<Rightarrow> bool \<Rightarrow> request_env \<Rightarrow> request \<Rightarrow> 's world \<Rightarrow> response \<times> 's world + request \<times> 's world" where
  "ip_check name skip ev r w =
     (case w_limiters w name of
        None \<Rightarrow> Inr (r, w)
      | Some l \<Rightarrow> if skip \<and> rq_jwt_identified r = Some True then Inr (r, w)
                  else limit_check name l (client_ip r) ev r w)"

interpretation ip: gate "ip_rate_limit name skip ev" "ip_check name skip ev" for name skip ev
proof unfold_locales
  fix nxt r and w :: "'s world"
  show "ip_rate_limit name skip ev nxt r w = (case ip_check name skip ev r w of Inl out \<Rightarrow> out | Inr (r', w') \<Rightarrow> nxt r' w')"
    by (cases "w_limiters w name") (auto simp: ip_rate_limit_def ip_check_def limit_key_check)
next
  fix r resp and w w' :: "'s world" assume "ip_check name skip ev r w = Inl (resp, w')"
  then show "rs_status resp \<in> {413, 429} \<and> same_outside w w'"
    by (auto simp: ip_check_def split: option.splits if_splits dest: limit_check_reject)
next
  fix r r' and w w' :: "'s world" assume "ip_check name skip ev r w = Inr (r', w')"
  then show "same_line r r' \<and> same_outside w w'"
    by (auto simp: ip_check_def split: option.splits if_splits dest: limit_check_pass)
qed

definition api_key_check ::
    "library \<Rightarrow> string \<Rightarrow> compiled_rule list option \<Rightarrow> string \<Rightarrow> bool \<Rightarrow> request_env
     \<Rightarrow> request \<Rightarrow> 's world \<Rightarrow> response \<times> 's world + request \<times> 's world" where
  "api_key_check lib name matcher key_header include_ip ev r w =
     (case (w_limiters w name, matcher) of
        (Some l, Some m) \<Rightarrow> if \<not> matches m r then Inr (r, w)
          else limit_check name l (api_key_bucket lib key_header include_ip r) ev r w
      | _ \<Rightarrow> Inr (r, w))"

interpretation api_key: gate "api_key_rate_limit lib name matcher key_header include_ip ev"
    "api_key_check lib name matcher key_header include_ip ev" for lib name matcher key_header include_ip ev
proof unfold_locales
  fix nxt r and w :: "'s world"
  show "api_key_rate_limit lib name matcher key_header include_ip ev nxt r w
    = (case api_key_check lib name matcher key_header include_ip ev r w of Inl out \<Rightarrow> out | Inr (r', w') \<Rightarrow> nxt r' w')"
    by (simp add: api_key_rate_limit_def api_key_check_def limit_key_check split: option.splits)
next
  fix r resp and w w' :: "'s world"
  assume "api_key_check lib name matcher key_header include_ip ev r w = Inl (resp, w')"
  then show "rs_status resp \<in> {413, 429} \<and> same_outside w w'"
    by (auto simp: api_key_check_def split: option.splits if_splits dest: limit_check_reject)
next
  fix r r' and w w' :: "'s world"
  assume "api_key_check lib name matcher key_header include_ip ev r w = Inr (r', w')"
  then show "same_line r r' \<and> same_outside w w'"
    by (auto simp: api_key_check_def split: option.splits if_splits dest: limit_check_pass)
qed

definition jwt_check ::
    "library \<Rightarrow> string \<Rightarrow> bool \<Rightarrow> request_env \<Rightarrow> request \<Rightarrow> 's world \<Rightarrow> response \<times> 's world + request \<times> 's world" where
  "jwt_check lib name include_ip ev r w =
     (case w_limiters w name of
        None \<Rightarrow> Inr (r, w)
      | Some l \<Rightarrow>
          let sub = extract_bearer_sub lib (header_get (rq_headers r) ''Authorization'')
          in if sub = [] then Inr (r, w)
             else limit_check name l (jwt_bucket include_ip r sub) ev (r\<lparr>rq_jwt_identified := Some True\<rparr>) w)"

interpretation jwt_limit: gate "jwt_rate_limit lib name include_ip ev" "jwt_check lib name include_ip ev"
  for lib name include_ip ev
proof unfold_locales
  fix nxt r and w :: "'s world"
  show "jwt_rate_limit lib name include_ip ev nxt r w
    = (case jwt_check lib name include_ip ev r w of Inl out \<Rightarrow> out | Inr (r', w') \<Rightarrow> nxt r' w')"
    by (simp add: jwt_rate_limit_def jwt_check_def limit_key_check Let_def split: option.splits)
next
  fix r resp and w w' :: "'s world" assume "jwt_check lib name include_ip ev r w = Inl (resp, w')"
  then show "rs_status resp \<in> {413, 429} \<and> same_outside w w'"
    by (auto simp: jwt_check_def Let_def split: option.splits if_splits dest: limit_check_reject)
next
  fix r r' and w w' :: "'s world" assume "jwt_check lib name include_ip ev r w = Inr (r', w')"
  then show "same_line r r' \<and> same_outside w w'"
    by (auto simp: jwt_check_def Let_def same_line_def split: option.splits if_splits dest: limit_check_pass)
qed

lemmas all_gates = body.is_gate sanitizer.is_gate paths.is_gate dynamic.is_gate ip.is_gate api_key.is_gate
  jwt_limit.is_gate

section \<open>Which requests need authentication\<close>

lemma match_any_iff: "match_any_pattern lib p ps \<longleftrightarrow> (\<exists>q \<in> set ps. path_matches lib p q)"
  by (induction ps) auto

text \<open>
  A request skips authentication exactly when its path matches an exclude pattern, or
  when there are include patterns and it matches none: an exclude pattern wins over every
  include pattern.
\<close>

theorem authentication_decision:
  "should_authenticate lib path include exclude \<longleftrightarrow>
     \<not> (\<exists>e \<in> set exclude. path_matches lib path e)
     \<and> (include = [] \<or> (\<exists>i \<in> set include. path_matches lib path i))"
  by (simp add: should_authenticate_def match_any_iff)

theorem authentication_decision_witness:
  "\<not> should_authenticate demo_library ''/open'' [''/*''] [''/open'']"
proof -
  have "plain_pattern ''/open''" by (simp add: plain_pattern_def backslash_def)
  then have "path_match ''/open'' ''/open''" by (simp add: path_match_literal)
  then have "path_matches demo_library ''/open'' ''/open''"
    by (simp add: path_matches_def is_regex_pattern_def slash_delimited_def has_suffix_def)
  then show ?thesis using authentication_decision[of demo_library "''/open''" "[''/*'']" "[''/open'']"] by simp
qed

section \<open>The sanitizer\<close>

lemma strip_headers_dom:
  assumes "canonical_header h" and "prefix \<noteq> []"
  shows "dom (strip_headers_with_prefix h prefix) = {k \<in> dom h. \<not> has_prefix (to_upper k) (to_upper prefix)}"
proof (rule set_eqI)
  fix k
  have "k \<in> dom (strip_headers_with_prefix h prefix) \<longleftrightarrow>
      k \<in> dom h \<and> \<not> (\<exists>j \<in> dom h. has_prefix (to_upper j) (to_upper prefix) \<and> canonical_key j = k)"
    using assms(2) by (simp add: strip_headers_with_prefix_def domIff)
  also have "\<dots> \<longleftrightarrow> k \<in> dom h \<and> \<not> has_prefix (to_upper k) (to_upper prefix)"
    using assms(1) unfolding canonical_header_def by metis
  finally show "k \<in> dom (strip_headers_with_prefix h prefix) \<longleftrightarrow>
      k \<in> {k \<in> dom h. \<not> has_prefix (to_upper k) (to_upper prefix)}" by simp
qed

lemma strip_headers_exact:
  assumes "canonical_header h" and "prefix \<noteq> []"
  shows "strip_headers_with_prefix h prefix = (\<lambda>k. if has_prefix (to_upper k) (to_upper prefix) then None else h k)"
proof
  fix k
  have "strip_headers_with_prefix h prefix k \<in> {None, h k}" by (rule strip_headers_at)
  moreover have "k \<in> dom (strip_headers_with_prefix h prefix) \<longleftrightarrow> k \<in> dom h \<and> \<not> has_prefix (to_upper k) (to_upper prefix)"
    using strip_headers_dom[OF assms] by simp
  ultimately show "strip_headers_with_prefix h prefix k
      = (if has_prefix (to_upper k) (to_upper prefix) then None else h k)"
    by (cases "h k") auto
qed

text \<open>
  The sanitizer removes the headers with the configured prefix, in any case, and only
  those: for a request read from the network the handler behind it sees exactly the other
  headers, with their values.
\<close>

theorem sanitizer_exact:
  assumes "canonical_header (rq_headers r)" and "prefix \<noteq> []"
  shows "\<exists>r'. header_sanitizer prefix nxt r w = nxt r' w
    \<and> rq_headers r' = (\<lambda>k. if has_prefix (to_upper k) (to_upper prefix) then None else rq_headers r k)"
  using strip_headers_exact[OF assms] by (auto simp: header_sanitizer_def)

definition count_headers :: "unit world handler" where
  "count_headers r w = (remove_response (card (dom (rq_headers r))), w)"

definition empty_world :: "unit world" where
  "empty_world = \<lparr>w_store = (), w_limiters = Map.empty, w_jwt = warm_validator, w_sent = [], w_access = []\<rparr>"

theorem sanitizer_exact_witness:
  "header_sanitizer ''X-AUTH-'' count_headers
      ((plain_request ''h'' ''/'')\<lparr>rq_headers := [''X-Auth-User'' \<mapsto> [''root'']]\<rparr>) empty_world
   = (remove_response 0, empty_world)"
proof -
  let ?r = "(plain_request ''h'' ''/'')\<lparr>rq_headers := [''X-Auth-User'' \<mapsto> [''root'']]\<rparr>"
  have "canonical_key ''X-Auth-User'' = ''X-Auth-User''" by code_simp
  then have can: "canonical_header (rq_headers ?r)" by (simp add: canonical_header_def)
  have pre: "has_prefix (to_upper ''X-Auth-User'') (to_upper ''X-AUTH-'')" by code_simp
  have ne: "''X-AUTH-'' \<noteq> ''''" by simp
  have none: "(\<lambda>k. if has_prefix (to_upper k) (to_upper ''X-AUTH-'') then None else rq_headers ?r k) = Map.empty"
    using pre by auto
  from sanitizer_exact[OF can ne, of count_headers empty_world] show ?thesis
    unfolding none by (auto simp: count_headers_def)
qed

section \<open>Bodies\<close>

text \<open>
  With a positive limit, a request whose declared length is over the limit is answered
  413 and goes no further; any other request with a body goes on with a reader that stops
  at the limit, so an undeclared length is bounded too; a request without a body is left as
  it is.
\<close>

theorem body_limit_enforced:
  assumes "0 < max_bytes"
  shows "body_limiter max_bytes nxt r w =
    (if \<not> rq_has_body r then nxt r w
     else if max_bytes < rq_content_length r then (too_large_response, w)
     else nxt (r\<lparr>rq_body_limit := Some max_bytes\<rparr>) w)"
  using assms by (simp add: body_limiter_def)

theorem body_limit_enforced_witness:
  "body_limiter 10 count_headers
     ((plain_request ''h'' ''/'')\<lparr>rq_has_body := True, rq_content_length := 11\<rparr>) empty_world
   = (too_large_response, empty_world)"
  by (subst body_limit_enforced) (simp_all add: plain_request_def)

section \<open>Identities and the limits that apply to them\<close>

text \<open>
  C39. The per-IP limit can be left behind by anyone: when the JWT limiter is not enforcing
  and the skip option is on, as both are by default, a request with an unverified token
  that names any subject passes both limiters, whatever the state of the IP limiter, a ban
  included.
\<close>

theorem forged_token_skips_ip_limit:
  assumes "extract_bearer_sub lib (header_get (rq_headers r) ''Authorization'') \<noteq> []"
    and "w_limiters w ''jwt'' = Some l" and "\<not> rl_enabled l"
  shows "\<exists>r'. apply_middleware nxt [jwt_rate_limit lib ''jwt'' include_ip ev, ip_rate_limit ''ip'' True ev] r w = nxt r' w
    \<and> rq_headers r' = rq_headers r"
proof -
  have "(w_limiters w)(''jwt'' \<mapsto> l) = w_limiters w" using assms(2) by (rule map_upd_triv)
  then have "put_limiter ''jwt'' l w = w" by (simp add: put_limiter_def)
  then show ?thesis
    using assms by (cases "w_limiters w ''ip''")
      (auto simp: apply_middleware_def jwt_rate_limit_def ip_rate_limit_def limit_key_def allow_def Let_def
        intro: exI[of _ "r\<lparr>rq_jwt_identified := Some True\<rparr>"])
qed

text \<open>An unsigned token: three parts, of which only the payload is read.\<close>

definition forged_lib :: library where
  "forged_lib = demo_library\<lparr>lib_json := \<lambda>_. Inr (JObj [(''sub'', JStr ''x'')])\<rparr>"

definition forged_world :: "unit world" where
  "forged_world = \<lparr>w_store = (), w_limiters = [''jwt'' \<mapsto> new_rate_limiter \<lparr>lc_name = ''jwt'', lc_enabled = False,
       lc_requests_per_min = 60, lc_ban_duration = 5 * minute, lc_throttle_delay = 0, lc_max_delay_slots = 0\<rparr> 0],
     w_jwt = warm_validator, w_sent = [], w_access = []\<rparr>"

definition demo_env :: request_env where
  "demo_env = \<lparr>ev_now = 5, ev_later = 5, ev_web = (\<lambda>_. NoReply ''down''), ev_rule_order = [], ev_filter_order = [],
     ev_mapping_order = [], ev_payload_order = [], ev_header_order = (\<lambda>_. []),
     ev_upstream = (\<lambda>_. Unreachable ''refused'')\<rparr>"

theorem forged_token_skips_ip_limit_witness:
  "\<exists>r'. apply_middleware count_headers [jwt_rate_limit forged_lib ''jwt'' False demo_env, ip_rate_limit ''ip'' True demo_env]
      ((plain_request ''h'' ''/'')\<lparr>rq_headers := [''Authorization'' \<mapsto> [''Bearer a..b'']]\<rparr>) forged_world = count_headers r' forged_world"
proof -
  let ?r = "(plain_request ''h'' ''/'')\<lparr>rq_headers := [''Authorization'' \<mapsto> [''Bearer a..b'']]\<rparr>"
  have ck: "canonical_key ''Authorization'' = ''Authorization''" by code_simp
  have parts: "split_n 3 CHR ''.'' ''a..b'' = [''a'', '''', ''b'']" by code_simp
  have tp: "trim_prefix ''Bearer a..b'' ''Bearer '' = ''a..b''" by code_simp
  have "b64_decode '''' = Some ''''" by code_simp
  then have "extract_bearer_sub forged_lib (header_get (rq_headers ?r) ''Authorization'') = ''x''"
    by (simp add: extract_bearer_sub_def header_get_def ck parts tp forged_lib_def json_to_map_def claim_string_def members_def)
  then have "\<exists>r'. apply_middleware count_headers [jwt_rate_limit forged_lib ''jwt'' False demo_env, ip_rate_limit ''ip'' True demo_env]
      ?r forged_world = count_headers r' forged_world \<and> rq_headers r' = rq_headers ?r"
    by (intro forged_token_skips_ip_limit) (auto simp: forged_world_def new_rate_limiter_def Let_def)
  then show ?thesis by blast
qed

text \<open>
  Rate-limit identities do not mix: two requests share the bucket of the API-key limiter
  only if they present keys with one hash prefix, or neither presents a key and they come
  from one address; a key and an address never share a bucket, as long as no address starts
  like a key's bucket.
\<close>

theorem api_key_buckets_separate:
  assumes "api_key_bucket lib kh False r1 = api_key_bucket lib kh False r2"
    and "\<not> has_prefix (client_ip r1) ''k:''" and "\<not> has_prefix (client_ip r2) ''k:''"
  shows "(extract_api_key r1 kh = [] \<and> extract_api_key r2 kh = [] \<and> client_ip r1 = client_ip r2)
    \<or> (extract_api_key r1 kh \<noteq> [] \<and> extract_api_key r2 kh \<noteq> []
       \<and> take 12 (lib_sha256 lib (extract_api_key r1 kh)) = take 12 (lib_sha256 lib (extract_api_key r2 kh)))"
proof -
  have not_key: "client_ip r \<noteq> ''k:'' @ x" if "\<not> has_prefix (client_ip r) ''k:''" for r x
    using that by (metis has_prefix_append)
  show ?thesis
    using assms(1) not_key[OF assms(2)] not_key[OF assms(3)] not_key[OF assms(2), symmetric] not_key[OF assms(3), symmetric]
    by (auto simp: api_key_bucket_def Let_def hash_identity_def split: if_splits dest: b64_encode_inj)
qed

theorem api_key_buckets_separate_witness:
  "api_key_bucket demo_library [] False (plain_request ''h'' ''/a'') = api_key_bucket demo_library [] False (plain_request ''h'' ''/b'')
   \<and> client_ip (plain_request ''h'' ''/a'') = client_ip (plain_request ''h'' ''/b'')"
proof -
  have e: "api_key_bucket demo_library [] False (plain_request ''h'' ''/a'') = api_key_bucket demo_library [] False (plain_request ''h'' ''/b'')"
    by (simp add: api_key_bucket_def extract_api_key_def)
  from api_key_buckets_separate[OF e] show ?thesis using e by (auto simp: extract_api_key_def)
qed

end
