(* ===== verification/Registry.thy ===== *)
theory Registry
  imports Go_Strings "HOL-Library.Char_ord" "HOL-Library.List_Lexorder"
begin

text \<open>
  The plugin registry, \<open>internal/plugin/registry.go\<close>, and the interfaces a plugin may
  implement, \<open>internal/plugin/interfaces.go\<close>. A plugin is its name, its priority and the
  interfaces it implements, which is all the registry looks at. A panic is an error value.
  \<open>ks\<close> is the order in which the runtime visits the map; \<open>sort.Slice\<close> may put plugins of
  equal priority in any order, as an arbitrary \<open>ks\<close> does here.
\<close>

record plugin_info =
  pl_name :: string
  pl_priority :: int
  pl_middleware :: bool
  pl_routes :: bool
  pl_auth :: bool
  pl_storage :: bool
  pl_validates :: bool
  pl_starts :: bool
  pl_stops :: bool

record registry =
  rg_plugins :: "string \<rightharpoonup> plugin_info"
  rg_storage :: "plugin_info option"

definition empty_registry :: registry where
  "empty_registry = \<lparr>rg_plugins = Map.empty, rg_storage = None\<rparr>"

definition register :: "(string \<Rightarrow> string) \<Rightarrow> plugin_info \<Rightarrow> registry \<Rightarrow> (string, registry) result" where
  "register quote p rg =
     (if rg_plugins rg (pl_name p) \<noteq> None then Inl (''plugin already registered: '' @ pl_name p)
      else if pl_storage p \<and> rg_storage rg \<noteq> None then
        Inl (''only one storage backend allowed: '' @ quote (pl_name (the (rg_storage rg)))
             @ '' is already registered, cannot register '' @ quote (pl_name p))
      else Inr (rg\<lparr>rg_storage := (if pl_storage p then Some p else rg_storage rg),
                   rg_plugins := (rg_plugins rg)(pl_name p \<mapsto> p)\<rparr>))"

definition get_plugin :: "string \<Rightarrow> registry \<Rightarrow> plugin_info option" where
  "get_plugin name rg = rg_plugins rg name"

definition storage_backend :: "registry \<Rightarrow> plugin_info option" where
  "storage_backend rg = rg_storage rg"

definition all_plugins :: "string list \<Rightarrow> registry \<Rightarrow> plugin_info list" where
  "all_plugins ks rg = sort_key pl_priority (map (\<lambda>k. the (rg_plugins rg k)) ks)"

definition of_type :: "(plugin_info \<Rightarrow> bool) \<Rightarrow> string list \<Rightarrow> registry \<Rightarrow> plugin_info list" where
  "of_type implements ks rg = sort_key pl_priority (filter implements (map (\<lambda>k. the (rg_plugins rg k)) ks))"

fun register_all :: "(string \<Rightarrow> string) \<Rightarrow> plugin_info list \<Rightarrow> registry \<Rightarrow> (string, registry) result" where
  "register_all quote [] rg = Inr rg"
| "register_all quote (p # ps) rg = bind_result (register quote p rg) (register_all quote ps)"

section \<open>The plugins of the program\<close>

definition admin_plugin :: plugin_info where
  "admin_plugin = \<lparr>pl_name = ''admin'', pl_priority = 50, pl_middleware = True, pl_routes = True, pl_auth = False,
     pl_storage = False, pl_validates = True, pl_starts = False, pl_stops = False\<rparr>"

definition ratelimit_plugin :: plugin_info where
  "ratelimit_plugin = \<lparr>pl_name = ''ratelimit'', pl_priority = 60, pl_middleware = True, pl_routes = False,
     pl_auth = False, pl_storage = False, pl_validates = True, pl_starts = False, pl_stops = False\<rparr>"

definition apikey_plugin :: plugin_info where
  "apikey_plugin = \<lparr>pl_name = ''apikey'', pl_priority = 90, pl_middleware = False, pl_routes = False,
     pl_auth = True, pl_storage = False, pl_validates = True, pl_starts = False, pl_stops = False\<rparr>"

definition firestore_plugin :: plugin_info where
  "firestore_plugin = \<lparr>pl_name = ''storage-firestore'', pl_priority = 5, pl_middleware = False, pl_routes = False,
     pl_auth = False, pl_storage = True, pl_validates = True, pl_starts = True, pl_stops = True\<rparr>"

definition flex_plugins :: "plugin_info list" where
  "flex_plugins = [admin_plugin, apikey_plugin, ratelimit_plugin, firestore_plugin]"

section \<open>What registration keeps\<close>

definition registry_ok :: "registry \<Rightarrow> bool" where
  "registry_ok rg \<longleftrightarrow> finite (dom (rg_plugins rg))
     \<and> (\<forall>n p. rg_plugins rg n = Some p \<longrightarrow> pl_name p = n \<and> (pl_storage p \<longleftrightarrow> rg_storage rg = Some p))
     \<and> (\<forall>p. rg_storage rg = Some p \<longrightarrow> rg_plugins rg (pl_name p) = Some p)"

lemma registry_ok_empty [inv_intros]: "registry_ok empty_registry"
  by (simp add: registry_ok_def empty_registry_def)

lemma registry_ok_register [inv_intros]:
  assumes "register quote p rg = Inr rg'" and "registry_ok rg"
  shows "registry_ok rg'"
proof -
  have new: "rg_plugins rg (pl_name p) = None" and one: "\<not> (pl_storage p \<and> rg_storage rg \<noteq> None)"
    and rg': "rg' = rg\<lparr>rg_storage := (if pl_storage p then Some p else rg_storage rg),
                   rg_plugins := (rg_plugins rg)(pl_name p \<mapsto> p)\<rparr>"
    using assms(1) by (auto simp: register_def split: if_splits)
  show ?thesis
    using assms(2) new one unfolding registry_ok_def rg' by (auto split: if_splits)
qed

lemma register_all_ok: "register_all quote ps rg = Inr rg' \<Longrightarrow> registry_ok rg \<Longrightarrow> registry_ok rg'"
proof (induction ps arbitrary: rg)
  case (Cons p ps)
  then obtain rg1 where "register quote p rg = Inr rg1" "register_all quote ps rg1 = Inr rg'"
    by (auto simp: bind_result_Inr_iff)
  then show ?case using Cons registry_ok_register by blast
qed simp

lemma register_all_dom:
  "register_all quote ps rg = Inr rg' \<Longrightarrow>
     distinct (map pl_name ps) \<and> (\<forall>p \<in> set ps. rg_plugins rg (pl_name p) = None)
     \<and> rg_plugins rg' = rg_plugins rg ++ map_of (map (\<lambda>p. (pl_name p, p)) ps)"
proof (induction ps arbitrary: rg)
  case (Cons p ps)
  then obtain rg1 where r: "register quote p rg = Inr rg1" and rest: "register_all quote ps rg1 = Inr rg'"
    by (auto simp: bind_result_Inr_iff)
  have r1: "rg_plugins rg1 = (rg_plugins rg)(pl_name p \<mapsto> p)" and new: "rg_plugins rg (pl_name p) = None"
    using r by (auto simp: register_def split: if_splits)
  note ih = Cons.IH[OF rest]
  have fresh: "pl_name p \<notin> pl_name ` set ps"
  proof
    assume "pl_name p \<in> pl_name ` set ps"
    then obtain q where "q \<in> set ps" "pl_name q = pl_name p" by auto
    then show False using ih r1 by auto
  qed
  have "rg_plugins rg' = (rg_plugins rg)(pl_name p \<mapsto> p) ++ map_of (map (\<lambda>p. (pl_name p, p)) ps)"
    using ih unfolding r1 by blast
  also have "\<dots> = rg_plugins rg ++ map_of (map (\<lambda>p. (pl_name p, p)) (p # ps))"
  proof
    fix n
    have "map_of (map (\<lambda>p. (pl_name p, p)) ps) (pl_name p) = None"
      using fresh by (simp add: map_of_eq_None_iff image_image)
    then show "((rg_plugins rg)(pl_name p \<mapsto> p) ++ map_of (map (\<lambda>p. (pl_name p, p)) ps)) n
        = (rg_plugins rg ++ map_of (map (\<lambda>p. (pl_name p, p)) (p # ps))) n"
      by (auto simp: map_add_def split: option.splits)
  qed
  finally have m: "rg_plugins rg' = rg_plugins rg ++ map_of (map (\<lambda>p. (pl_name p, p)) (p # ps))" .
  have "distinct (map pl_name (p # ps))" using ih fresh by simp
  moreover have "\<forall>q \<in> set (p # ps). rg_plugins rg (pl_name q) = None"
    using ih new unfolding r1 by (auto split: if_splits)
  ultimately show ?case using m by blast
qed simp

text \<open>
  Registration keeps the registry consistent: after any sequence of registrations that
  does not panic, every plugin is found under its own name, there is at most one storage
  backend, and it is the registered plugin that implements storage.
\<close>

theorem registry_consistent:
  assumes "register_all quote ps empty_registry = Inr rg"
  shows "(get_plugin n rg = Some p \<longleftrightarrow> p \<in> set ps \<and> pl_name p = n)
    \<and> (storage_backend rg = Some p \<longleftrightarrow> p \<in> set ps \<and> pl_storage p)"
proof -
  have d: "distinct (map pl_name ps)" and m: "rg_plugins rg = map_of (map (\<lambda>p. (pl_name p, p)) ps)"
    using register_all_dom[OF assms] by (simp_all add: empty_registry_def)
  have ok: "registry_ok rg" using register_all_ok[OF assms] registry_ok_empty by blast
  have "distinct (map fst (map (\<lambda>p. (pl_name p, p)) ps))" using d by (simp add: comp_def)
  then have look: "rg_plugins rg n = Some p \<longleftrightarrow> p \<in> set ps \<and> pl_name p = n" for n p
    unfolding m by (auto simp: map_of_eq_Some_iff)
  show ?thesis
    using ok look unfolding registry_ok_def get_plugin_def storage_backend_def by metis
qed

text \<open>The plugins in the order of their priorities, whatever order the map is visited in.\<close>

lemma sort_key_unique:
  assumes "distinct (map f xs)" and "set ys = set xs" and "distinct ys" and "sorted (map f ys)"
  shows "sort_key f xs = ys"
proof (rule map_sorted_distinct_set_unique)
  show "inj_on f (set (sort_key f xs) \<union> set ys)" using assms(1,2) by (simp add: distinct_map)
  show "distinct (map f (sort_key f xs))" using assms(1) by (simp add: distinct_map)
  show "distinct (map f ys)" using assms(1-3) by (simp add: distinct_map)
qed (use assms in simp_all)

lemma all_plugins_sorted:
  assumes "range_order ks (rg_plugins rg)" and "inj_on pl_priority (ran (rg_plugins rg))"
    and "inj_on (rg_plugins rg) (dom (rg_plugins rg))"
    and "set ys = ran (rg_plugins rg)" and "distinct ys" and "sorted (map pl_priority ys)"
  shows "all_plugins ks rg = ys"
proof -
  have ks: "distinct ks" "set ks = dom (rg_plugins rg)" using assms(1) by (auto simp: range_order_def)
  have ran: "set (map (\<lambda>k. the (rg_plugins rg k)) ks) = ran (rg_plugins rg)"
    using ks(2) by (force simp: ran_def dom_def image_def)
  have "distinct (map (\<lambda>k. the (rg_plugins rg k)) ks)"
    using ks assms(3) by (auto simp: distinct_map inj_on_def dom_def)
  then have "distinct (map pl_priority (map (\<lambda>k. the (rg_plugins rg k)) ks))"
    using assms(2) ran by (simp only: distinct_map)
  then show ?thesis
    unfolding all_plugins_def using assms(4-6) ran by (intro sort_key_unique) auto
qed

lemma flex_registered:
  assumes "register_all quote flex_plugins empty_registry = Inr rg"
  shows "rg_plugins rg = [''admin'' \<mapsto> admin_plugin, ''apikey'' \<mapsto> apikey_plugin, ''ratelimit'' \<mapsto> ratelimit_plugin,
      ''storage-firestore'' \<mapsto> firestore_plugin]"
proof -
  have "rg_plugins rg = map_of (map (\<lambda>p. (pl_name p, p)) flex_plugins)"
    using register_all_dom[OF assms] by (simp add: empty_registry_def)
  then show ?thesis
    by (auto simp: flex_plugins_def admin_plugin_def apikey_plugin_def ratelimit_plugin_def firestore_plugin_def fun_eq_iff)
qed

lemma flex_plugins_sorted:
  assumes "register_all quote flex_plugins empty_registry = Inr rg" and "range_order ks (rg_plugins rg)"
  shows "all_plugins ks rg = [firestore_plugin, admin_plugin, ratelimit_plugin, apikey_plugin]"
proof (rule all_plugins_sorted[OF assms(2)])
  have ran: "ran (rg_plugins rg) = {admin_plugin, apikey_plugin, ratelimit_plugin, firestore_plugin}"
    unfolding flex_registered[OF assms(1)] by (auto simp: ran_map_upd)
  have dist: "distinct [firestore_plugin, admin_plugin, ratelimit_plugin, apikey_plugin]"
    by (simp add: admin_plugin_def apikey_plugin_def ratelimit_plugin_def firestore_plugin_def)
  show "inj_on pl_priority (ran (rg_plugins rg))"
    unfolding ran by (simp add: inj_on_def admin_plugin_def apikey_plugin_def ratelimit_plugin_def firestore_plugin_def)
  show "inj_on (rg_plugins rg) (dom (rg_plugins rg))"
    unfolding flex_registered[OF assms(1)] using dist by (auto simp: inj_on_def)
  show "set [firestore_plugin, admin_plugin, ratelimit_plugin, apikey_plugin] = ran (rg_plugins rg)"
    unfolding ran by auto
  show "sorted (map pl_priority [firestore_plugin, admin_plugin, ratelimit_plugin, apikey_plugin])"
    by (simp add: admin_plugin_def apikey_plugin_def ratelimit_plugin_def firestore_plugin_def)
qed (simp add: admin_plugin_def apikey_plugin_def ratelimit_plugin_def firestore_plugin_def)

text \<open>
  The full build registers its four plugins without a panic, and they always come in
  the order storage, admin, rate limit, API key: the dynamic rules of the admin plugin are
  checked before the rate limits, whatever order the runtime visits the registry in.
\<close>

theorem flex_plugin_order:
  "\<exists>rg. register_all (\<lambda>s. s) flex_plugins empty_registry = Inr rg
     \<and> (\<forall>ks. \<not> range_order ks (rg_plugins rg)
          \<or> all_plugins ks rg = [firestore_plugin, admin_plugin, ratelimit_plugin, apikey_plugin])"
proof -
  obtain rg where "register_all (\<lambda>s. s) flex_plugins empty_registry = Inr rg"
    by (simp add: flex_plugins_def register_def empty_registry_def admin_plugin_def apikey_plugin_def
        ratelimit_plugin_def firestore_plugin_def)
  then show ?thesis using flex_plugins_sorted by blast
qed

theorem registry_consistent_witness:
  "\<exists>rg. register_all (\<lambda>s. s) [firestore_plugin] empty_registry = Inr rg \<and> storage_backend rg = Some firestore_plugin"
proof -
  have "\<exists>rg. register_all (\<lambda>s. s) [firestore_plugin] empty_registry = Inr rg"
    by (simp add: register_def empty_registry_def)
  then obtain rg where rg: "register_all (\<lambda>s. s) [firestore_plugin] empty_registry = Inr rg" by blast
  have "pl_storage firestore_plugin" by (simp add: firestore_plugin_def)
  then show ?thesis using registry_consistent[OF rg, of "[]" firestore_plugin] rg by auto
qed

theorem flex_plugin_order_witness:
  "\<exists>rg. all_plugins [''admin'', ''apikey'', ''ratelimit'', ''storage-firestore''] rg
     = [firestore_plugin, admin_plugin, ratelimit_plugin, apikey_plugin]"
proof -
  from flex_plugin_order obtain rg where rg: "register_all (\<lambda>s. s) flex_plugins empty_registry = Inr rg"
    "\<And>ks. range_order ks (rg_plugins rg) \<Longrightarrow> all_plugins ks rg = [firestore_plugin, admin_plugin, ratelimit_plugin, apikey_plugin]"
    by blast
  have "rg_plugins rg = map_of (map (\<lambda>p. (pl_name p, p)) flex_plugins)"
    using register_all_dom[OF rg(1)] by (simp add: empty_registry_def)
  then have "range_order [''admin'', ''apikey'', ''ratelimit'', ''storage-firestore''] (rg_plugins rg)"
    by (auto simp: range_order_def flex_plugins_def admin_plugin_def apikey_plugin_def ratelimit_plugin_def firestore_plugin_def)
  then show ?thesis using rg(2) by blast
qed

end
