(* ===== verification/Proxy.thy ===== *)
theory Proxy
  imports Gates Apikey Firestore
begin

text \<open>
  The handler behind the middleware, \<open>internal/proxy/proxy.go\<close>: \<open>ServeHTTP\<close> with its
  authentication decision, forwarding through the reverse proxy, the health check, and the
  helper functions of the file.

  \<open>httputil.ReverseProxy\<close> is standard library: what it does to the headers of the outgoing
  request (hop-by-hop removal, \<open>X-Forwarded-For\<close>, \<open>User-Agent\<close>) is \<open>outbound_headers\<close>; protocol
  upgrades and \<open>TE: trailers\<close> are left out. The upstream's answer is \<open>ev_upstream\<close>.
\<close>

section \<open>The outgoing request\<close>

record target =
  tg_scheme :: string
  tg_host :: string
  tg_path :: string
  tg_raw_query :: string

definition director :: "target \<Rightarrow> string \<Rightarrow> bool \<Rightarrow> request \<Rightarrow> request" where
  "director tg strip_prefix use_exact_path r =
     (let r1 = r\<lparr>rq_url_scheme := tg_scheme tg, rq_url_host := tg_host tg, rq_host := tg_host tg\<rparr>
      in if use_exact_path then r1\<lparr>rq_path := tg_path tg, rq_raw_query := tg_raw_query tg\<rparr>
         else if strip_prefix \<noteq> [] \<and> has_prefix (rq_path r1) strip_prefix then
           (let p = trim_prefix (rq_path r1) strip_prefix
            in r1\<lparr>rq_path := (if p = [] then ''/'' else p)\<rparr>)
         else r1)"

definition hop_headers :: "string list" where
  "hop_headers = [''Connection'', ''Proxy-Connection'', ''Keep-Alive'', ''Proxy-Authenticate'',
     ''Proxy-Authorization'', ''Te'', ''Trailer'', ''Transfer-Encoding'', ''Upgrade'']"

definition connection_tokens :: "header \<Rightarrow> string list" where
  "connection_tokens h =
     (case h ''Connection'' of
        None \<Rightarrow> []
      | Some vs \<Rightarrow> filter (\<lambda>t. t \<noteq> []) (concat (map (\<lambda>v. map trim_space (split_on CHR '','' v)) vs)))"

definition delete_headers :: "string list \<Rightarrow> header \<Rightarrow> header" where
  "delete_headers ks h = fold (\<lambda>k h. header_del h k) ks h"

definition add_forwarded_for :: "request \<Rightarrow> header \<Rightarrow> header" where
  "add_forwarded_for r h =
     (case split_host_port (rq_remote_addr r) of
        None \<Rightarrow> h
      | Some (ip, port) \<Rightarrow>
          (case h ''X-Forwarded-For'' of
             None \<Rightarrow> h(''X-Forwarded-For'' \<mapsto> [ip])
           | Some [] \<Rightarrow> h
           | Some vs \<Rightarrow> h(''X-Forwarded-For'' \<mapsto> [join '', '' vs @ '', '' @ ip])))"

definition outbound_headers :: "request \<Rightarrow> header" where
  "outbound_headers r =
     (let h1 = delete_headers (connection_tokens (rq_headers r) @ hop_headers) (rq_headers r);
          h2 = add_forwarded_for r h1
      in if h2 ''User-Agent'' = None then h2(''User-Agent'' \<mapsto> [[]]) else h2)"

definition outbound :: "target \<Rightarrow> string \<Rightarrow> bool \<Rightarrow> request \<Rightarrow> request" where
  "outbound tg strip_prefix use_exact_path r =
     (director tg strip_prefix use_exact_path r)\<lparr>rq_headers := outbound_headers r\<rparr>"

definition bad_gateway_response :: response where
  "bad_gateway_response = error_response 502 ''bad_gateway'' ''upstream unreachable''"

definition send_upstream :: "request_env \<Rightarrow> (upstream_reply \<Rightarrow> response) \<Rightarrow> request \<Rightarrow> 's world \<Rightarrow> response \<times> 's world" where
  "send_upstream ev on_reply out w = (on_reply (ev_upstream ev out), w\<lparr>w_sent := out # w_sent w\<rparr>)"

definition proxy_reply :: "upstream_reply \<Rightarrow> response" where
  "proxy_reply u =
     (case u of Answered resp \<Rightarrow> resp | BodyTooLarge \<Rightarrow> too_large_response | Unreachable e \<Rightarrow> bad_gateway_response)"

definition health_reply :: "upstream_reply \<Rightarrow> response" where
  "health_reply u = (case u of Answered resp \<Rightarrow> resp | _ \<Rightarrow> bad_gateway_response)"

section \<open>Helpers\<close>

definition extract_bearer_token :: "string \<Rightarrow> string option" where
  "extract_bearer_token auth_header =
     (if auth_header = [] then None
      else case split_n 2 CHR '' '' auth_header of
        [scheme, rest] \<Rightarrow> if \<not> equal_fold scheme ''Bearer'' then None else Some (trim_space rest)
      | _ \<Rightarrow> None)"

definition apply_headers :: "string list \<Rightarrow> (string \<rightharpoonup> string) \<Rightarrow> header \<Rightarrow> header" where
  "apply_headers ks values h =
     fold (\<lambda>k h. case values k of None \<Rightarrow> h | Some v \<Rightarrow> header_set h k v) ks h"

fun email_in_list :: "string \<Rightarrow> string list \<Rightarrow> bool" where
  "email_in_list email_lower [] = False"
| "email_in_list email_lower (a # as) = (if to_lower a = email_lower then True else email_in_list email_lower as)"

definition proxy_email_allowed :: "claims \<Rightarrow> string list \<Rightarrow> bool" where
  "proxy_email_allowed claims allowed =
     (let email = claim_string claims ''email''
      in if email = [] then False else email_in_list (to_lower email) allowed)"

definition unauthorized :: "string \<Rightarrow> response" where
  "unauthorized msg = error_response 401 ''unauthorized'' msg"

definition respond_jwt_error :: "string \<Rightarrow> response" where
  "respond_jwt_error e =
     (case map_jwt_error e of (status, message) \<Rightarrow>
       error_response status (if status = 502 then ''bad_gateway'' else ''unauthorized'') message)"

section \<open>The handler\<close>

type_synonym auth_provider =
  "string list \<Rightarrow> request \<Rightarrow> auth_config \<Rightarrow> (apikey_error, (string \<rightharpoonup> string) option) result"

record base_handler =
  bh_cfg :: config
  bh_target :: target
  bh_health_target :: "target option"
  bh_providers :: "auth_provider list"

definition forward :: "base_handler \<Rightarrow> request_env \<Rightarrow> 's world handler" where
  "forward h ev r w =
     send_upstream ev proxy_reply (outbound (bh_target h) (sv_strip_prefix (cf_server (bh_cfg h))) False r) w"

definition with_headers :: "request_env \<Rightarrow> (string \<rightharpoonup> string) \<Rightarrow> request \<Rightarrow> request" where
  "with_headers ev values r = r\<lparr>rq_headers := apply_headers (ev_header_order ev values) values (rq_headers r)\<rparr>"

text \<open>
  The loop over the registered authentication providers: \<open>None\<close> when none of them decides.
\<close>

fun try_providers :: "request_env \<Rightarrow> request \<Rightarrow> auth_config \<Rightarrow> auth_provider list
    \<Rightarrow> (response, string \<rightharpoonup> string) result option" where
  "try_providers ev r a [] = None"
| "try_providers ev r a (ap # aps) =
     (case ap (ev_payload_order ev) r a of
        Inl MissingAPIKey \<Rightarrow> try_providers ev r a aps
      | Inl e \<Rightarrow> Some (Inl (unauthorized ''invalid api key''))
      | Inr (Some headers) \<Rightarrow> Some (Inr headers)
      | Inr None \<Rightarrow> try_providers ev r a aps)"

definition serve_jwt :: "library \<Rightarrow> base_handler \<Rightarrow> request_env \<Rightarrow> string \<Rightarrow> 's world handler" where
  "serve_jwt lib h ev token r w =
     (let cfg = bh_cfg h; jc = au_jwt (cf_auth cfg)
      in case validate_token lib (ev_web ev, ev_now ev, ev_later ev) token (w_jwt w) of
           (Inl e, v') \<Rightarrow> (respond_jwt_error e, w\<lparr>w_jwt := v'\<rparr>)
         | (Inr claims, v') \<Rightarrow>
             if evaluate_filters lib (ev_filter_order ev) claims (jc_filters jc) \<noteq> None
             then (unauthorized ''access denied'', w\<lparr>w_jwt := v'\<rparr>)
             else if jc_allowed_emails jc \<noteq> [] \<and> \<not> proxy_email_allowed claims (jc_allowed_emails jc)
             then (unauthorized ''access denied'', w\<lparr>w_jwt := v'\<rparr>)
             else forward h ev
                    (with_headers ev (map_claims lib (ev_mapping_order ev) claims (jc_mappings jc)
                        (au_header_prefix (cf_auth cfg))) r)
                    (w\<lparr>w_jwt := v'\<rparr>))"

definition serve_api_key :: "base_handler \<Rightarrow> request_env \<Rightarrow> 's world handler" where
  "serve_api_key h ev r w =
     (let a = cf_auth (bh_cfg h)
      in case validate_api_key (ev_payload_order ev) r (Some a) of
           Inl MissingAPIKey \<Rightarrow> (unauthorized ''missing credentials'', w)
         | Inl e \<Rightarrow> (unauthorized ''invalid api key'', w)
         | Inr headers \<Rightarrow>
             forward h ev (with_headers ev (case headers of None \<Rightarrow> Map.empty | Some hs \<Rightarrow> hs) r) w)"

definition serve_http :: "library \<Rightarrow> base_handler \<Rightarrow> request_env \<Rightarrow> 's world handler" where
  "serve_http lib h ev r w =
     (let a = cf_auth (bh_cfg h)
      in if \<not> auth_required r then forward h ev r w
         else if \<not> jc_enabled (au_jwt a) \<and> \<not> kc_enabled (au_api_key a) then forward h ev r w
         else case (jc_enabled (au_jwt a), extract_bearer_token (header_get (rq_headers r) ''Authorization'')) of
                (True, Some token) \<Rightarrow> serve_jwt lib h ev token r w
              | _ \<Rightarrow>
                  (case try_providers ev r a (bh_providers h) of
                     Some (Inl resp) \<Rightarrow> (resp, w)
                   | Some (Inr headers) \<Rightarrow> forward h ev (with_headers ev headers r) w
                   | None \<Rightarrow>
                       if bh_providers h = [] \<and> kc_enabled (au_api_key a) then serve_api_key h ev r w
                       else (unauthorized ''missing credentials'', w)))"

section \<open>Health\<close>

definition health_ok_response :: response where
  "health_ok_response = write_json 200 (Some (JObj [(''status'', JStr ''ok'')]))"

definition handle_health :: "base_handler \<Rightarrow> request_env \<Rightarrow> 's world handler" where
  "handle_health h ev r w =
     (case bh_health_target h of
        Some tg \<Rightarrow>
          if hc_target (sv_health_check (cf_server (bh_cfg h))) = [] then (health_ok_response, w)
          else send_upstream ev health_reply (outbound tg [] True r) w
      | None \<Rightarrow> (health_ok_response, w))"

section \<open>When a request is forwarded\<close>

text \<open>
  The credentials that justify forwarding a request, with the headers they inject: none are
  needed, or a token the validator accepts whose claims satisfy filters and email list, or
  an API key accepted by a provider or by the built-in check.
\<close>

definition token_justifies ::
    "library \<Rightarrow> base_handler \<Rightarrow> request_env \<Rightarrow> request \<Rightarrow> validator \<Rightarrow> (string \<rightharpoonup> string) \<Rightarrow> bool" where
  "token_justifies lib h ev r v headers \<longleftrightarrow>
     (let a = cf_auth (bh_cfg h)
      in jc_enabled (au_jwt a)
       \<and> (\<exists>token claims.
            extract_bearer_token (header_get (rq_headers r) ''Authorization'') = Some token
          \<and> token_accepted lib (ev_web ev, ev_now ev, ev_later ev) v token claims
          \<and> evaluate_filters lib (ev_filter_order ev) claims (jc_filters (au_jwt a)) = None
          \<and> (jc_allowed_emails (au_jwt a) = [] \<or> proxy_email_allowed claims (jc_allowed_emails (au_jwt a)))
          \<and> headers = map_claims lib (ev_mapping_order ev) claims (jc_mappings (au_jwt a)) (au_header_prefix a)))"

definition key_justifies :: "base_handler \<Rightarrow> request_env \<Rightarrow> request \<Rightarrow> (string \<rightharpoonup> string) \<Rightarrow> bool" where
  "key_justifies h ev r headers \<longleftrightarrow>
     (let a = cf_auth (bh_cfg h)
      in \<not> (jc_enabled (au_jwt a)
             \<and> extract_bearer_token (header_get (rq_headers r) ''Authorization'') \<noteq> None)
       \<and> ((\<exists>ap \<in> set (bh_providers h). ap (ev_payload_order ev) r a = Inr (Some headers))
          \<or> bh_providers h = [] \<and> kc_enabled (au_api_key a)
            \<and> validate_api_key (ev_payload_order ev) r (Some a) = Inr (Some headers)))"

definition open_request :: "base_handler \<Rightarrow> request \<Rightarrow> bool" where
  "open_request h r \<longleftrightarrow>
     \<not> auth_required r \<or> \<not> jc_enabled (au_jwt (cf_auth (bh_cfg h))) \<and> \<not> kc_enabled (au_api_key (cf_auth (bh_cfg h)))"

definition justified ::
    "library \<Rightarrow> base_handler \<Rightarrow> request_env \<Rightarrow> request \<Rightarrow> validator \<Rightarrow> (string \<rightharpoonup> string) \<Rightarrow> bool" where
  "justified lib h ev r v headers \<longleftrightarrow>
     (open_request h r \<and> headers = Map.empty)
   \<or> (\<not> open_request h r \<and> (token_justifies lib h ev r v headers \<or> key_justifies h ev r headers))"

text \<open>The order the runtime applies an empty header map in is the empty order.\<close>

definition orders_ok :: "request_env \<Rightarrow> bool" where
  "orders_ok ev \<longleftrightarrow> (\<forall>m. finite (dom m) \<longrightarrow> range_order (ev_header_order ev m) m)"

lemma orders_ok_empty: "orders_ok ev \<Longrightarrow> ev_header_order ev Map.empty = []"
  by (auto simp: orders_ok_def range_order_def dest: spec[of _ Map.empty])

lemma with_no_headers: "orders_ok ev \<Longrightarrow> with_headers ev Map.empty r = r"
  by (simp add: with_headers_def orders_ok_empty apply_headers_def)

lemma try_providers_headers:
  "try_providers ev r a aps = Some (Inr headers) \<Longrightarrow> \<exists>ap \<in> set aps. ap (ev_payload_order ev) r a = Inr (Some headers)"
  by (induction aps) (auto split: sum.splits apikey_error.splits option.splits)

lemma try_providers_reject:
  "try_providers ev r a aps = Some (Inl resp) \<Longrightarrow> resp = unauthorized ''invalid api key''"
  by (induction aps) (auto split: sum.splits apikey_error.splits option.splits)

lemma validate_api_key_enabled:
  "kc_enabled (au_api_key a) \<Longrightarrow> validate_api_key ks r (Some a) \<noteq> Inr None"
  by (auto simp: validate_api_key_def Let_def)

end
