(* ===== verification/Server.thy ===== *)
theory Server
  imports Proxy Registry Admin_Claims Loader
begin

text \<open>
  The assembled server: the construction of the handler (\<open>NewHandlerWithDeps\<close>,
  \<open>validatePluginAvailability\<close> and \<open>applyMiddleware\<close> of \<open>internal/proxy/proxy.go\<close>), what the
  admin and rate-limit plugins contribute to it (\<open>internal/plugins/admin/plugin.go\<close>,
  \<open>internal/plugins/ratelimit/plugin.go\<close>), and the routing of a request.

  The rule store is an interface value in the code; here it is \<open>any_store\<close>, one constructor
  per implementation, with the operations dispatched on it. \<open>http.ServeMux\<close> is standard
  library: \<open>mux_route\<close> is its matching for the patterns the code registers, for a health
  path that starts with a slash and has no wildcard, and for paths without escapes.
\<close>

section \<open>The rule store behind its interface\<close>

datatype any_store = MemoryStore mem_store | FirestoreStore fs_store

definition any_set :: "time \<Rightarrow> rule \<Rightarrow> any_store \<Rightarrow> (string, rule \<times> any_store) result" where
  "any_set now r s =
     (case s of
        MemoryStore m \<Rightarrow> bind_result (set_rule now r m) (\<lambda>(r', m'). Inr (r', MemoryStore m'))
      | FirestoreStore f \<Rightarrow> bind_result (fs_set_rule now r f) (\<lambda>(r', f'). Inr (r', FirestoreStore f')))"

definition any_remove :: "string \<Rightarrow> any_store \<Rightarrow> bool \<times> any_store" where
  "any_remove rid s =
     (case s of
        MemoryStore m \<Rightarrow> apsnd MemoryStore (remove_rule rid m)
      | FirestoreStore f \<Rightarrow> apsnd FirestoreStore (fs_remove_rule rid f))"

definition any_clear :: "any_store \<Rightarrow> nat \<times> any_store" where
  "any_clear s =
     (case s of
        MemoryStore m \<Rightarrow> apsnd MemoryStore (remove_all m)
      | FirestoreStore f \<Rightarrow> apsnd FirestoreStore (fs_remove_all f))"

definition any_decide :: "string list \<Rightarrow> time \<Rightarrow> string \<Rightarrow> string \<Rightarrow> any_store \<Rightarrow> bool \<times> any_store" where
  "any_decide ks now host path s =
     (case s of
        MemoryStore m \<Rightarrow> apsnd MemoryStore (should_allow ks now host path m)
      | FirestoreStore f \<Rightarrow> apsnd FirestoreStore (fs_should_allow ks now host path f))"

definition any_status :: "string list \<Rightarrow> time \<Rightarrow> any_store \<Rightarrow> rule_status list" where
  "any_status ks now s =
     (case s of MemoryStore m \<Rightarrow> get_rule_status ks now m | FirestoreStore f \<Rightarrow> fs_get_status ks now f)"

definition any_stop :: "any_store \<Rightarrow> any_store" where
  "any_stop s = (case s of MemoryStore m \<Rightarrow> MemoryStore (stop m) | FirestoreStore f \<Rightarrow> FirestoreStore (fs_stop f))"

definition any_rules :: "any_store \<Rightarrow> rules" where
  "any_rules s = (case s of MemoryStore m \<Rightarrow> ms_rules m | FirestoreStore f \<Rightarrow> fs_rules f)"

interpretation any: rule_store any_set any_remove any_clear any_decide any_rules
proof unfold_locales
  fix r :: rule and now and s :: any_store assume "r_id r = []"
  then show "any_set now r s = Inl ''ruleId is required''"
    by (cases s) (auto simp: any_set_def mem.set_error fsr.set_error)
next
  fix r :: rule and now and s :: any_store assume "r_id r \<noteq> []"
  then show "\<exists>s'. any_set now r s = Inr (stored_rule now r, s')
      \<and> any_rules s' = (any_rules s)(r_id r \<mapsto> stored_rule now r)"
  proof (cases s)
    case (MemoryStore m)
    obtain m' where "set_rule now r m = Inr (stored_rule now r, m')" "ms_rules m' = (ms_rules m)(r_id r \<mapsto> stored_rule now r)"
      using mem.set_stores \<open>r_id r \<noteq> []\<close> by blast
    then show ?thesis by (simp add: any_set_def any_rules_def MemoryStore)
  next
    case (FirestoreStore f)
    obtain f' where "fs_set_rule now r f = Inr (stored_rule now r, f')" "fs_rules f' = (fs_rules f)(r_id r \<mapsto> stored_rule now r)"
      using fsr.set_stores \<open>r_id r \<noteq> []\<close> by blast
    then show ?thesis by (simp add: any_set_def any_rules_def FirestoreStore)
  qed
next
  fix rid and s :: any_store
  show "fst (any_remove rid s) \<longleftrightarrow> any_rules s rid \<noteq> None"
    by (cases s) (auto simp: any_remove_def any_rules_def mem.remove_found fsr.remove_found)
  show "any_rules (snd (any_remove rid s)) = (any_rules s)(rid := None)"
    by (cases s) (auto simp: any_remove_def any_rules_def mem.remove_rules fsr.remove_rules)
next
  fix s :: any_store
  show "fst (any_clear s) = card (dom (any_rules s))"
    by (cases s) (auto simp: any_clear_def any_rules_def mem.clear_count fsr.clear_count)
  show "any_rules (snd (any_clear s)) = Map.empty"
    by (cases s) (auto simp: any_clear_def any_rules_def mem.clear_rules fsr.clear_rules)
next
  fix ks now host path and s :: any_store
  show "should_allow_loop ks now host path (any_rules s)
      = (fst (any_decide ks now host path s), any_rules (snd (any_decide ks now host path s)))"
    by (cases s) (auto simp: any_decide_def any_rules_def mem.decide_loop fsr.decide_loop)
qed

section \<open>Limiters and middleware from the configuration\<close>

definition ip_limiter_config :: "config \<Rightarrow> limiter_config" where
  "ip_limiter_config c =
     (let i = se_rate_limit (cf_security c)
      in \<lparr>lc_name = ''ip'', lc_enabled = ip_enabled i, lc_requests_per_min = ip_requests_per_min i,
          lc_ban_duration = mul64 (ip_ban_for_min i) minute,
          lc_throttle_delay = mul64 (ip_throttle_delay_ms i) millisecond,
          lc_max_delay_slots = ip_max_delay_slots i\<rparr>)"

definition apikey_limiter_config :: "config \<Rightarrow> limiter_config" where
  "apikey_limiter_config c =
     (let a = se_apikey_rate_limit (cf_security c)
      in \<lparr>lc_name = ''apikey'', lc_enabled = ak_enabled a, lc_requests_per_min = ak_requests_per_min a,
          lc_ban_duration = mul64 (ak_ban_for_min a) minute,
          lc_throttle_delay = mul64 (ak_throttle_delay_ms a) millisecond,
          lc_max_delay_slots = ak_max_delay_slots a\<rparr>)"

definition jwt_limiter_config :: "config \<Rightarrow> limiter_config" where
  "jwt_limiter_config c =
     (let j = se_jwt_rate_limit (cf_security c)
      in \<lparr>lc_name = ''jwt'', lc_enabled = jl_enabled j, lc_requests_per_min = jl_requests_per_min j,
          lc_ban_duration = mul64 (jl_ban_for_min j) minute,
          lc_throttle_delay = mul64 (jl_throttle_delay_ms j) millisecond,
          lc_max_delay_slots = jl_max_delay_slots j\<rparr>)"

definition new_limiters :: "config \<Rightarrow> time \<Rightarrow> limiters" where
  "new_limiters c now =
     [''ip'' \<mapsto> new_rate_limiter (ip_limiter_config c) now,
      ''apikey'' \<mapsto> new_rate_limiter (apikey_limiter_config c) now,
      ''jwt'' \<mapsto> new_rate_limiter (jwt_limiter_config c) now]"

definition skip_if_jwt :: "config \<Rightarrow> bool" where
  "skip_if_jwt c =
     (case ip_skip_if_jwt_identified (se_rate_limit (cf_security c)) of None \<Rightarrow> True | Some b \<Rightarrow> b)"

definition rate_limit_middleware :: "library \<Rightarrow> config \<Rightarrow> compiled_rule list \<Rightarrow> request_env \<Rightarrow> any_store middleware list" where
  "rate_limit_middleware lib c matcher ev =
     [api_key_rate_limit lib ''apikey'' (Some matcher) (ak_key_header (se_apikey_rate_limit (cf_security c)))
        (ak_include_ip (se_apikey_rate_limit (cf_security c))) ev,
      jwt_rate_limit lib ''jwt'' (jl_include_ip (se_jwt_rate_limit (cf_security c))) ev,
      ip_rate_limit ''ip'' (skip_if_jwt c) ev]"

definition core_middleware :: "library \<Rightarrow> config \<Rightarrow> any_store middleware list" where
  "core_middleware lib c =
     [request_logger lib (sv_include_paths (cf_server c)) (sv_exclude_paths (cf_server c)),
      body_limiter (se_max_body_bytes (cf_security c)),
      header_sanitizer (au_header_prefix (cf_auth c)),
      path_filter lib (sv_include_paths (cf_server c)) (sv_exclude_paths (cf_server c))]"

section \<open>Construction\<close>

record app =
  ap_base :: base_handler
  ap_plugin_middleware :: "request_env \<Rightarrow> any_store middleware list"
  ap_admin :: bool \<comment> \<open>the admin routes are registered\<close>
  ap_health_path :: string

type_synonym state = "validator \<times> any_store world" \<comment> \<open>the admin validator, and the rest\<close>

definition availability_checks :: "config \<Rightarrow> (bool \<times> string \<times> string) list" where
  "availability_checks c =
     [(ip_enabled (se_rate_limit (cf_security c)) \<or> ak_enabled (se_apikey_rate_limit (cf_security c))
         \<or> jl_enabled (se_jwt_rate_limit (cf_security c)),
       ''ratelimit'', ''rate limiting is configured but the ratelimit plugin is not compiled in''),
      (ad_enabled (cf_admin c), ''admin'', ''admin API is configured but the admin plugin is not compiled in''),
      (kc_enabled (au_api_key (cf_auth c)), ''apikey'',
       ''API-key authentication is configured but the apikey plugin is not compiled in'')]"

text \<open>The hint after the dash of each message is left out.\<close>

definition validate_plugin_availability :: "registry \<Rightarrow> config \<Rightarrow> string option" where
  "validate_plugin_availability rg c =
     (case first_error (\<lambda>(cond, name, msg). if cond \<and> get_plugin name rg = None then Some msg else None)
             (availability_checks c) of
        Some e \<Rightarrow> Some e
      | None \<Rightarrow>
          if st_enabled (cf_storage c) \<and> storage_backend rg = None
          then Some ''storage is enabled but no storage plugin is compiled in'' else None)"

text \<open>What each plugin of the program does when it is asked; \<open>matcher\<close> is the compiled matcher.\<close>

definition admin_build :: "config \<Rightarrow> request_env \<Rightarrow> any_store middleware list" where
  "admin_build c ev = (if \<not> ad_enabled (cf_admin c) then [] else [dynamic_rule_check (Some any_decide) ev])"

definition build_middleware :: "library \<Rightarrow> config \<Rightarrow> compiled_rule list \<Rightarrow> plugin_info \<Rightarrow> request_env \<Rightarrow> any_store middleware list" where
  "build_middleware lib c matcher p ev =
     (if pl_name p = ''admin'' then admin_build c ev
      else if pl_name p = ''ratelimit'' then rate_limit_middleware lib c matcher ev
      else [])"

definition provider_of :: "plugin_info \<Rightarrow> auth_provider list" where
  "provider_of p = (if pl_name p = ''apikey'' then [apikey_authenticate] else [])"

definition health_path_of :: "config \<Rightarrow> string" where
  "health_path_of c =
     (if hc_path (sv_health_check (cf_server c)) = [] then ''/healthz'' else hc_path (sv_health_check (cf_server c)))"

text \<open>
  The two target URLs, parsed. \<open>parse_url\<close> is \<open>url.Parse\<close>. The reverse proxy for the health
  check exists when its target is configured.
\<close>

definition parse_targets ::
    "(string \<Rightarrow> (string, target) result) \<Rightarrow> config \<Rightarrow> (string, target \<times> target option) result" where
  "parse_targets parse_url c =
     (case parse_url (sv_target_url (cf_server c)) of
        Inl e \<Rightarrow> Inl (''invalid target_url: '' @ e)
      | Inr tg \<Rightarrow>
          if hc_target (sv_health_check (cf_server c)) = [] then Inr (tg, None)
          else (case parse_url (hc_target (sv_health_check (cf_server c))) of
                  Inl e \<Rightarrow> Inl (''invalid health_check.target: '' @ e)
                | Inr htg \<Rightarrow> Inr (tg, Some htg)))"

definition match_error_text :: "match_error \<Rightarrow> string" where
  "match_error_text e = (case e of BadHostRegex i \<Rightarrow> ''host'' | BadPathRegex i \<Rightarrow> ''path'')"

text \<open>
  Without plugins everything is built directly. The code has no rule store then unless the
  admin API is enabled; the state of the model always has one, which nothing reaches: the
  dynamic rule check gets \<open>None\<close> and the admin routes are not registered. An error of the
  matcher carries the field's name instead of its full text.
\<close>

definition build_legacy ::
    "library \<Rightarrow> time \<Rightarrow> config \<Rightarrow> target \<times> target option \<Rightarrow> (string, app \<times> state) result" where
  "build_legacy lib now c tgs =
     (case new_request_matcher (lib_regex lib) (ak_match (se_apikey_rate_limit (cf_security c))) of
        Inl e \<Rightarrow> Inl (''invalid apikey_rate_limit.match: '' @ match_error_text e)
      | Inr matcher \<Rightarrow>
          Inr (\<lparr>ap_base = \<lparr>bh_cfg = c, bh_target = fst tgs, bh_health_target = snd tgs, bh_providers = []\<rparr>,
                ap_plugin_middleware = (\<lambda>ev.
                  dynamic_rule_check (if ad_enabled (cf_admin c) then Some any_decide else None) ev
                  # rate_limit_middleware lib c matcher ev),
                ap_admin = ad_enabled (cf_admin c), ap_health_path = health_path_of c\<rparr>,
               new_validator (ad_jwt (cf_admin c)),
               \<lparr>w_store = MemoryStore new_memory_rule_store, w_limiters = new_limiters c now,
                w_jwt = new_validator (au_jwt (cf_auth c)), w_sent = [], w_access = []\<rparr>))"

text \<open>
  The storage phase: with a storage plugin and storage enabled its configuration is checked,
  the connection opened and the store created (\<open>fs_open\<close>); otherwise the memory store stays.
\<close>

definition open_storage ::
    "(config \<Rightarrow> (string, unit) result) \<Rightarrow> (config \<Rightarrow> (string, fs_store) result) \<Rightarrow> registry \<Rightarrow> config
     \<Rightarrow> (string, any_store) result" where
  "open_storage fs_check fs_open rg c =
     (if storage_backend rg \<noteq> None \<and> st_enabled (cf_storage c) then
        (case fs_check c of
           Inl e \<Rightarrow> Inl (''storage plugin config validation: '' @ e)
         | Inr _ \<Rightarrow> (case fs_open c of Inl e \<Rightarrow> Inl (''storage plugin: '' @ e) | Inr f \<Rightarrow> Inr (FirestoreStore f)))
      else Inr (MemoryStore new_memory_rule_store))"

definition plugin_matcher :: "library \<Rightarrow> registry \<Rightarrow> config \<Rightarrow> (match_error, compiled_rule list) result" where
  "plugin_matcher lib rg c =
     (if get_plugin ''ratelimit'' rg \<noteq> None
      then new_request_matcher (lib_regex lib) (ak_match (se_apikey_rate_limit (cf_security c))) else Inr [])"

definition plugin_app ::
    "library \<Rightarrow> time \<Rightarrow> string list \<Rightarrow> registry \<Rightarrow> config \<Rightarrow> target \<times> target option \<Rightarrow> any_store
     \<Rightarrow> compiled_rule list \<Rightarrow> app \<times> state" where
  "plugin_app lib now ks rg c tgs store matcher =
     (\<lparr>ap_base = \<lparr>bh_cfg = c, bh_target = fst tgs, bh_health_target = snd tgs,
         bh_providers = concat (map provider_of (of_type pl_auth ks rg))\<rparr>,
       ap_plugin_middleware = (\<lambda>ev. concat (map (\<lambda>p. build_middleware lib c matcher p ev) (of_type pl_middleware ks rg))),
       ap_admin = (get_plugin ''admin'' rg \<noteq> None \<and> ad_enabled (cf_admin c)), ap_health_path = health_path_of c\<rparr>,
      new_validator (ad_jwt (cf_admin c)),
      \<lparr>w_store = store,
       w_limiters = (if get_plugin ''ratelimit'' rg \<noteq> None then new_limiters c now else Map.empty),
       w_jwt = new_validator (au_jwt (cf_auth c)), w_sent = [], w_access = []\<rparr>)"

text \<open>
  With plugins: storage, availability, each plugin's configuration check (of the four, only
  the storage plugin's can fail), routes, providers, middleware.
\<close>

definition build_with_plugins ::
    "library \<Rightarrow> time \<Rightarrow> (config \<Rightarrow> (string, unit) result) \<Rightarrow> (config \<Rightarrow> (string, fs_store) result)
     \<Rightarrow> string list \<Rightarrow> registry \<Rightarrow> config \<Rightarrow> target \<times> target option \<Rightarrow> (string, app \<times> state) result" where
  "build_with_plugins lib now fs_check fs_open ks rg c tgs =
     (case open_storage fs_check fs_open rg c of
        Inl e \<Rightarrow> Inl e
      | Inr store \<Rightarrow>
          (case validate_plugin_availability rg c of
             Some e \<Rightarrow> Inl e
           | None \<Rightarrow>
               (case (if get_plugin ''storage-firestore'' rg \<noteq> None then fs_check c else Inr ()) of
                  Inl e \<Rightarrow> Inl (''plugin config validation: '' @ e)
                | Inr _ \<Rightarrow>
                    (case plugin_matcher lib rg c of
                       Inl e \<Rightarrow> Inl (''plugin middleware: '' @ match_error_text e)
                     | Inr matcher \<Rightarrow> Inr (plugin_app lib now ks rg c tgs store matcher)))))"

text \<open>Registering the health path under the root pattern's own path panics.\<close>

definition new_handler_with_deps ::
    "library \<Rightarrow> (string \<Rightarrow> (string, target) result) \<Rightarrow> time \<Rightarrow> (config \<Rightarrow> (string, unit) result)
     \<Rightarrow> (config \<Rightarrow> (string, fs_store) result) \<Rightarrow> string list \<Rightarrow> registry \<Rightarrow> config \<Rightarrow> (string, app \<times> state) result" where
  "new_handler_with_deps lib parse_url now fs_check fs_open ks rg c =
     bind_result (parse_targets parse_url c) (\<lambda>tgs.
     bind_result (if all_plugins ks rg \<noteq> [] then build_with_plugins lib now fs_check fs_open ks rg c tgs
                  else build_legacy lib now c tgs) (\<lambda>built.
       if ap_health_path (fst built) = ''/'' then Inl ''panic: pattern conflicts'' else Inr built))"

definition new_handler ::
    "library \<Rightarrow> (string \<Rightarrow> (string, target) result) \<Rightarrow> time \<Rightarrow> (config \<Rightarrow> (string, unit) result)
     \<Rightarrow> (config \<Rightarrow> (string, fs_store) result) \<Rightarrow> string list \<Rightarrow> registry \<Rightarrow> config \<Rightarrow> (string, app) result" where
  "new_handler lib parse_url now fs_check fs_open ks rg c =
     bind_result (new_handler_with_deps lib parse_url now fs_check fs_open ks rg c) (\<lambda>built. Inr (fst built))"

definition stop_fn :: "state \<Rightarrow> state" where
  "stop_fn = (\<lambda>(av, w). (av, w\<lparr>w_store := any_stop (w_store w)\<rparr>))"

section \<open>Routing\<close>

datatype route = RedirectTo string | AdminControl | AdminStatus | Health | Pipeline

definition health_matches :: "string \<Rightarrow> string \<Rightarrow> bool" where
  "health_matches hp path \<longleftrightarrow> path = hp \<or> has_suffix hp ''/'' \<and> has_prefix path hp"

definition mux_route :: "app \<Rightarrow> request \<Rightarrow> route" where
  "mux_route a r =
     (let path = clean_path (rq_path r)
      in if rq_method r \<noteq> ''CONNECT'' \<and> path \<noteq> rq_path r then RedirectTo path
         else if ap_admin a \<and> rq_method r = ''POST'' \<and> rq_path r = ''/admin/control'' then AdminControl
         else if ap_admin a \<and> rq_method r \<in> {''GET'', ''HEAD''} \<and> rq_path r = ''/admin/status'' then AdminStatus
         else if health_matches (ap_health_path a) (rq_path r) then Health
         else if has_suffix (ap_health_path a) ''/'' \<and> rq_path r @ ''/'' = ap_health_path a
           then RedirectTo (ap_health_path a)
         else Pipeline)"

definition redirect_response :: "string \<Rightarrow> response" where
  "redirect_response path =
     \<lparr>rs_status = 301, rs_headers = header_set Map.empty ''Location'' path, rs_body = None\<rparr>"

section \<open>Serving\<close>

definition pipeline :: "library \<Rightarrow> app \<Rightarrow> request_env \<Rightarrow> any_store world handler" where
  "pipeline lib a ev =
     apply_middleware (serve_http lib (ap_base a) ev)
       (core_middleware lib (bh_cfg (ap_base a)) @ ap_plugin_middleware a ev)"

text \<open>\<open>decode\<close> reads a request body into a control request.\<close>

definition admin_control_handler ::
    "library \<Rightarrow> (request \<Rightarrow> control_request option) \<Rightarrow> request_env \<Rightarrow> any_store world handler" where
  "admin_control_handler lib decode ev r w =
     (case control_handler any_set any_remove any_clear lib (ev_now ev) (decode r) (w_store w, w_limiters w) of
        (resp, s', ls') \<Rightarrow> (resp, w\<lparr>w_store := s', w_limiters := ls'\<rparr>))"

definition limiter_names :: "limiters \<Rightarrow> string list" where
  "limiter_names ls = filter (\<lambda>n. ls n \<noteq> None) [''apikey'', ''ip'', ''jwt'']"

definition admin_status_handler :: "library \<Rightarrow> request_env \<Rightarrow> any_store world handler" where
  "admin_status_handler lib ev r w =
     (status_handler lib (limiter_names (w_limiters w)) (any_status (ev_rule_order ev) (ev_now ev) (w_store w))
        (w_limiters w), w)"

definition admin_guarded :: "library \<Rightarrow> app \<Rightarrow> request_env \<Rightarrow> any_store world handler \<Rightarrow> request \<Rightarrow> state \<Rightarrow> response \<times> state" where
  "admin_guarded lib a ev nxt =
     (let jc = ad_jwt (cf_admin (bh_cfg (ap_base a)))
      in admin_auth_middleware (validate_token lib) lib (ev_filter_order ev) (ev_web ev, ev_now ev, ev_later ev)
           (jc_allowed_emails jc) (jc_filters jc) nxt)"

definition serve :: "library \<Rightarrow> (request \<Rightarrow> control_request option) \<Rightarrow> app \<Rightarrow> request_env \<Rightarrow> request \<Rightarrow> state \<Rightarrow> response \<times> state" where
  "serve lib decode a ev r = (\<lambda>(av, w).
     (case mux_route a r of
        RedirectTo path \<Rightarrow> (redirect_response path, av, w)
      | AdminControl \<Rightarrow> admin_guarded lib a ev (admin_control_handler lib decode ev) r (av, w)
      | AdminStatus \<Rightarrow> admin_guarded lib a ev (admin_status_handler lib ev) r (av, w)
      | Health \<Rightarrow> (case handle_health (ap_base a) ev r w of (resp, w') \<Rightarrow> (resp, av, w'))
      | Pipeline \<Rightarrow> (case pipeline lib a ev r w of (resp, w') \<Rightarrow> (resp, av, w'))))"

text \<open>The names of the limiters are all there is: every limiter of a built server is listed.\<close>

lemma limiter_names_all: "dom ls \<subseteq> {''apikey'', ''ip'', ''jwt''} \<Longrightarrow> set (limiter_names ls) = dom ls"
  by (auto simp: limiter_names_def)

end
