(* ===== verification/Forwarding.thy ===== *)
theory Forwarding
  imports Server
begin

text \<open>
  What the assembled pipeline guarantees: the middleware behind the path filter is quiet
  (it changes nothing of a request but the JWT mark), so the handler sees each request in one
  form, \<open>seen_request\<close>; from that follow the theorems about what reaches the upstream.
\<close>

section \<open>Quiet gates\<close>

text \<open>
  The gates that plugins contribute promise more than \<open>gate\<close>: a request passes unchanged but
  for the JWT mark.
\<close>

locale quiet_gate = gate mw check
  for mw :: "'s middleware" and check :: "request \<Rightarrow> 's world \<Rightarrow> response \<times> 's world + request \<times> 's world" +
  assumes quiet: "check r w = Inr (r', w') \<Longrightarrow> \<exists>j. r' = r\<lparr>rq_jwt_identified := j\<rparr>"
begin

lemma quiet_pass:
  "(\<exists>resp w'. mw nxt r w = (resp, w') \<and> rs_status resp \<in> {413, 429} \<and> same_outside w w')
   \<or> (\<exists>j w'. mw nxt r w = nxt (r\<lparr>rq_jwt_identified := j\<rparr>) w' \<and> same_outside w w')"
proof (cases "check r w")
  case (Inl out)
  then show ?thesis using reject_ok[of r w "fst out" "snd out"] by (cases out) (simp add: mw_check)
next
  case (Inr p)
  obtain r' w' where p: "check r w = Inr (r', w')" using Inr by (cases p) auto
  obtain j where "r' = r\<lparr>rq_jwt_identified := j\<rparr>" using quiet[OF p] by blast
  then show ?thesis using pass_ok[OF p] by (auto simp: mw_check p)
qed

end

definition is_quiet :: "'s middleware \<Rightarrow> bool" where
  "is_quiet mw \<longleftrightarrow> (\<forall>nxt r w.
     (\<exists>resp w'. mw nxt r w = (resp, w') \<and> rs_status resp \<in> {413, 429} \<and> same_outside w w')
   \<or> (\<exists>j w'. mw nxt r w = nxt (r\<lparr>rq_jwt_identified := j\<rparr>) w' \<and> same_outside w w'))"

lemma unmarked: "(r :: request) = r\<lparr>rq_jwt_identified := rq_jwt_identified r\<rparr>"
  by simp

interpretation dynamic_quiet: quiet_gate "dynamic_rule_check checker ev" "rule_check_decision checker ev"
  for checker :: "(string list \<Rightarrow> time \<Rightarrow> string \<Rightarrow> string \<Rightarrow> 's \<Rightarrow> bool \<times> 's) option" and ev
proof unfold_locales
  fix r r' and w w' :: "'s world" assume "rule_check_decision checker ev r w = Inr (r', w')"
  then have "r' = r" by (auto simp: rule_check_decision_def split: option.splits prod.splits if_splits)
  then show "\<exists>j. r' = r\<lparr>rq_jwt_identified := j\<rparr>" using unmarked by blast
qed

interpretation ip_quiet: quiet_gate "ip_rate_limit name skip ev" "ip_check name skip ev" for name skip ev
proof unfold_locales
  fix r r' and w w' :: "'s world" assume "ip_check name skip ev r w = Inr (r', w')"
  then have "r' = r" by (auto simp: ip_check_def split: option.splits if_splits dest: limit_check_pass)
  then show "\<exists>j. r' = r\<lparr>rq_jwt_identified := j\<rparr>" using unmarked by blast
qed

interpretation api_key_quiet: quiet_gate "api_key_rate_limit lib name matcher key_header include_ip ev"
    "api_key_check lib name matcher key_header include_ip ev" for lib name matcher key_header include_ip ev
proof unfold_locales
  fix r r' and w w' :: "'s world"
  assume "api_key_check lib name matcher key_header include_ip ev r w = Inr (r', w')"
  then have "r' = r" by (auto simp: api_key_check_def split: option.splits if_splits dest: limit_check_pass)
  then show "\<exists>j. r' = r\<lparr>rq_jwt_identified := j\<rparr>" using unmarked by blast
qed

interpretation jwt_quiet: quiet_gate "jwt_rate_limit lib name include_ip ev" "jwt_check lib name include_ip ev"
  for lib name include_ip ev
proof unfold_locales
  fix r r' and w w' :: "'s world" assume "jwt_check lib name include_ip ev r w = Inr (r', w')"
  then have "r' = r \<or> r' = r\<lparr>rq_jwt_identified := Some True\<rparr>"
    by (auto simp: jwt_check_def Let_def split: option.splits if_splits dest: limit_check_pass)
  then show "\<exists>j. r' = r\<lparr>rq_jwt_identified := j\<rparr>" using unmarked by blast
qed

lemma dynamic_rule_check_quiet: "is_quiet (dynamic_rule_check checker ev)"
  unfolding is_quiet_def by (intro allI) (rule dynamic_quiet.quiet_pass)

lemma ip_rate_limit_quiet: "is_quiet (ip_rate_limit name skip ev)"
  unfolding is_quiet_def by (intro allI) (rule ip_quiet.quiet_pass)

lemma api_key_rate_limit_quiet: "is_quiet (api_key_rate_limit lib name matcher key_header include_ip ev)"
  unfolding is_quiet_def by (intro allI) (rule api_key_quiet.quiet_pass)

lemma jwt_rate_limit_quiet: "is_quiet (jwt_rate_limit lib name include_ip ev)"
  unfolding is_quiet_def by (intro allI) (rule jwt_quiet.quiet_pass)

lemmas plugin_gates_quiet =
  dynamic_rule_check_quiet ip_rate_limit_quiet api_key_rate_limit_quiet jwt_rate_limit_quiet

lemma apply_middleware_Cons [simp]: "apply_middleware nxt (mw # mws) = mw (apply_middleware nxt mws)"
  and apply_middleware_Nil [simp]: "apply_middleware nxt [] = nxt"
  by (simp_all add: apply_middleware_def)

lemma apply_middleware_append [simp]:
  "apply_middleware nxt (xs @ ys) = apply_middleware (apply_middleware nxt ys) xs"
  by (simp add: apply_middleware_def)

lemma quiet_compose:
  assumes "\<forall>mw \<in> set mws. is_quiet mw"
  shows "(\<exists>resp w'. apply_middleware nxt mws r w = (resp, w') \<and> rs_status resp \<in> {413, 429} \<and> same_outside w w')
   \<or> (\<exists>j w'. apply_middleware nxt mws r w = nxt (r\<lparr>rq_jwt_identified := j\<rparr>) w' \<and> same_outside w w')"
  using assms
proof (induction mws arbitrary: r w)
  case Nil
  have "apply_middleware nxt [] r w = nxt (r\<lparr>rq_jwt_identified := rq_jwt_identified r\<rparr>) w" by simp
  then show ?case by (metis same_outside_refl)
next
  case (Cons mw mws)
  have "is_quiet mw" using Cons.prems by simp
  then consider
      resp w' where "mw (apply_middleware nxt mws) r w = (resp, w')" "rs_status resp \<in> {413, 429}" "same_outside w w'"
    | j w' where "mw (apply_middleware nxt mws) r w = apply_middleware nxt mws (r\<lparr>rq_jwt_identified := j\<rparr>) w'"
        "same_outside w w'"
    unfolding is_quiet_def by blast
  then show ?case
  proof cases
    case 1
    then show ?thesis by auto
  next
    case 2
    have "\<forall>mw \<in> set mws. is_quiet mw" using Cons.prems by simp
    from Cons.IH[OF this, of "r\<lparr>rq_jwt_identified := j\<rparr>" w'] show ?thesis
      using 2 same_outside_trans[OF 2(2)] by (auto 0 3)
  qed
qed

section \<open>The request the handler sees\<close>

definition seen_request :: "library \<Rightarrow> config \<Rightarrow> bool option \<Rightarrow> request \<Rightarrow> request" where
  "seen_request lib c j r =
     r\<lparr>rq_body_limit := (if 0 < se_max_body_bytes (cf_security c) \<and> rq_has_body r
          then Some (se_max_body_bytes (cf_security c)) else rq_body_limit r),
       rq_headers := strip_headers_with_prefix (rq_headers r) (au_header_prefix (cf_auth c)),
       rq_auth_required := Some (should_authenticate lib (rq_path r) (sv_include_paths (cf_server c))
          (sv_exclude_paths (cf_server c))),
       rq_jwt_identified := j\<rparr>"

definition log_entry :: "library \<Rightarrow> config \<Rightarrow> request \<Rightarrow> response \<Rightarrow> access_entry" where
  "log_entry lib c r resp =
     \<lparr>ae_method = rq_method r, ae_path = rq_path r, ae_status = rs_status resp,
      ae_auth_result = auth_result (rs_status resp)
        (should_authenticate lib (rq_path r) (sv_include_paths (cf_server c)) (sv_exclude_paths (cf_server c)))\<rparr>"

definition quiet_app :: "app \<Rightarrow> bool" where
  "quiet_app a \<longleftrightarrow> (\<forall>ev. \<forall>mw \<in> set (ap_plugin_middleware a ev). is_quiet mw)"

lemma too_large_status [simp]: "rs_status too_large_response = 413"
  by (simp add: too_large_response_def error_response_def json_response_def)

text \<open>Every pipeline request ends in one of two ways, and is logged once in either.\<close>

lemma pipeline_cases:
  assumes "quiet_app a"
  obtains (rejected) resp w1 where "rs_status resp \<in> {413, 429}" "same_outside w w1"
      "pipeline lib a ev r w = (resp, w1\<lparr>w_access := log_entry lib (bh_cfg (ap_base a)) r resp # w_access w\<rparr>)"
    | (handled) j w1 resp w2 where "same_outside w w1"
      "serve_http lib (ap_base a) ev (seen_request lib (bh_cfg (ap_base a)) j r) w1 = (resp, w2)"
      "pipeline lib a ev r w = (resp, w2\<lparr>w_access := log_entry lib (bh_cfg (ap_base a)) r resp # w_access w2\<rparr>)"
proof -
  let ?c = "bh_cfg (ap_base a)"
  let ?h = "serve_http lib (ap_base a) ev"
  let ?r = "seen_request lib ?c (rq_jwt_identified r) r"
  let ?inner = "apply_middleware ?h (ap_plugin_middleware a ev)"
  let ?core = "if 0 < se_max_body_bytes (cf_security ?c) \<and> rq_has_body r \<and> se_max_body_bytes (cf_security ?c) < rq_content_length r
      then (too_large_response, w) else ?inner ?r w"
  have p: "pipeline lib a ev r w
      = (case ?core of (resp, w') \<Rightarrow> (resp, w'\<lparr>w_access := log_entry lib ?c r resp # w_access w'\<rparr>))"
    by (simp add: pipeline_def core_middleware_def request_logger_def body_limiter_def header_sanitizer_def
        path_filter_def seen_request_def log_entry_def)
  show thesis
  proof (cases "0 < se_max_body_bytes (cf_security ?c) \<and> rq_has_body r \<and> se_max_body_bytes (cf_security ?c) < rq_content_length r")
    case True
    then show thesis using rejected[of too_large_response w] p by simp
  next
    case False
    have "\<forall>mw \<in> set (ap_plugin_middleware a ev). is_quiet mw" using assms by (simp add: quiet_app_def)
    from quiet_compose[OF this, of ?h ?r w] show thesis
    proof (elim disjE exE conjE)
      fix resp w' assume "?inner ?r w = (resp, w')" "rs_status resp \<in> {413, 429}" "same_outside w w'"
      then show thesis using rejected[of resp w'] p False by (simp add: same_outside_def split: if_splits)
    next
      fix j w' assume inner: "?inner ?r w = ?h (?r\<lparr>rq_jwt_identified := j\<rparr>) w'" and "same_outside w w'"
      have "?r\<lparr>rq_jwt_identified := j\<rparr> = seen_request lib ?c j r" by (simp add: seen_request_def)
      then show thesis using handled[of w' j] inner p False \<open>same_outside w w'\<close>
        by (cases "?h (seen_request lib ?c j r) w'") (simp split: if_splits)
    qed
  qed
qed

section \<open>The handler forwards exactly the justified requests\<close>

lemma error_response_status [simp]: "rs_status (error_response n e m) = n"
  by (simp add: error_response_def json_response_def)

lemma respond_jwt_error_status: "rs_status (respond_jwt_error e) \<in> {401, 502}"
  by (auto simp: respond_jwt_error_def map_jwt_error_def split: prod.splits if_splits)

definition sent_for :: "base_handler \<Rightarrow> request_env \<Rightarrow> request \<Rightarrow> (string \<rightharpoonup> string) \<Rightarrow> request" where
  "sent_for h ev r headers =
     outbound (bh_target h) (sv_strip_prefix (cf_server (bh_cfg h))) False (with_headers ev headers r)"

lemma forward_with: "forward h ev (with_headers ev headers r) w =
    (proxy_reply (ev_upstream ev (sent_for h ev r headers)), w\<lparr>w_sent := sent_for h ev r headers # w_sent w\<rparr>)"
  by (simp add: forward_def send_upstream_def sent_for_def)

text \<open>What a handler's answer may be: a rejection that sends nothing, or one forwarded request.\<close>

definition handled_ok :: "library \<Rightarrow> base_handler \<Rightarrow> request_env \<Rightarrow> request \<Rightarrow> 's world \<Rightarrow> response \<times> 's world \<Rightarrow> bool" where
  "handled_ok lib h ev r w out \<longleftrightarrow>
     w_access (snd out) = w_access w \<and> w_store (snd out) = w_store w \<and> w_limiters (snd out) = w_limiters w
   \<and> (w_sent (snd out) = w_sent w \<and> rs_status (fst out) \<in> {401, 502}
      \<or> (\<exists>headers. justified lib h ev r (w_jwt w) headers
           \<and> w_sent (snd out) = sent_for h ev r headers # w_sent w
           \<and> fst out = proxy_reply (ev_upstream ev (sent_for h ev r headers))))"

lemma handled_rejected: "rs_status resp \<in> {401, 502} \<Longrightarrow> handled_ok lib h ev r w (resp, w\<lparr>w_jwt := v\<rparr>)"
  by (simp add: handled_ok_def)

lemma handled_unauthorized: "handled_ok lib h ev r w (unauthorized m, w)"
  by (simp add: handled_ok_def unauthorized_def)

lemma handled_forward:
  "justified lib h ev r (w_jwt w) headers \<Longrightarrow> handled_ok lib h ev r w (forward h ev (with_headers ev headers r) (w\<lparr>w_jwt := v\<rparr>))"
  by (auto simp: handled_ok_def forward_with)

lemma handled_forward_same:
  "justified lib h ev r (w_jwt w) headers \<Longrightarrow> handled_ok lib h ev r w (forward h ev (with_headers ev headers r) w)"
  by (auto simp: handled_ok_def forward_with)

lemma handled_jwt:
  assumes "\<not> open_request h r" and "jc_enabled (au_jwt (cf_auth (bh_cfg h)))"
    and "extract_bearer_token (header_get (rq_headers r) ''Authorization'') = Some token"
  shows "handled_ok lib h ev r w (serve_jwt lib h ev token r w)"
proof -
  let ?a = "cf_auth (bh_cfg h)"
  obtain res v' where v: "validate_token lib (ev_web ev, ev_now ev, ev_later ev) token (w_jwt w) = (res, v')" by fastforce
  show ?thesis
  proof (cases res)
    case (Inl e)
    then show ?thesis
      unfolding serve_jwt_def v Let_def using respond_jwt_error_status by (simp add: handled_rejected)
  next
    case (Inr claims)
    have acc: "token_accepted lib (ev_web ev, ev_now ev, ev_later ev) (w_jwt w) token claims"
      using v Inr validate_token_iff[of lib "(ev_web ev, ev_now ev, ev_later ev)" token "w_jwt w" claims] by simp
    let ?filters = "evaluate_filters lib (ev_filter_order ev) claims (jc_filters (au_jwt ?a)) = None"
    let ?emails = "jc_allowed_emails (au_jwt ?a) = [] \<or> proxy_email_allowed claims (jc_allowed_emails (au_jwt ?a))"
    let ?hd = "map_claims lib (ev_mapping_order ev) claims (jc_mappings (au_jwt ?a)) (au_header_prefix ?a)"
    show ?thesis
    proof (cases "?filters \<and> ?emails")
      case True
      then have "token_justifies lib h ev r (w_jwt w) ?hd"
        unfolding token_justifies_def Let_def using assms acc by blast
      then have "justified lib h ev r (w_jwt w) ?hd" using assms(1) by (simp add: justified_def)
      then show ?thesis unfolding serve_jwt_def v Inr Let_def using True by (auto intro: handled_forward)
    next
      case False
      then show ?thesis unfolding serve_jwt_def v Inr Let_def
        by (auto simp: unauthorized_def intro: handled_rejected)
    qed
  qed
qed

lemma handled_api_key:
  assumes "\<not> open_request h r" and "bh_providers h = []" and "kc_enabled (au_api_key (cf_auth (bh_cfg h)))"
    and "\<not> (jc_enabled (au_jwt (cf_auth (bh_cfg h)))
           \<and> extract_bearer_token (header_get (rq_headers r) ''Authorization'') \<noteq> None)"
  shows "handled_ok lib h ev r w (serve_api_key h ev r w)"
proof (cases "validate_api_key (ev_payload_order ev) r (Some (cf_auth (bh_cfg h)))")
  case (Inl e)
  then show ?thesis by (cases e) (simp_all add: serve_api_key_def handled_unauthorized)
next
  case (Inr headers)
  then obtain hs where hs: "validate_api_key (ev_payload_order ev) r (Some (cf_auth (bh_cfg h))) = Inr (Some hs)"
    using validate_api_key_enabled[OF assms(3)] by (cases headers) auto
  then have "key_justifies h ev r hs"
    unfolding key_justifies_def Let_def using assms by blast
  then have "justified lib h ev r (w_jwt w) hs" using assms(1) by (simp add: justified_def)
  then show ?thesis using hs by (simp add: serve_api_key_def handled_forward_same)
qed

lemma handled_open:
  assumes "open_request h r" and "orders_ok ev"
  shows "handled_ok lib h ev r w (forward h ev r w)"
proof -
  have "justified lib h ev r (w_jwt w) Map.empty" using assms(1) by (simp add: justified_def)
  from handled_forward_same[OF this] show ?thesis by (simp add: with_no_headers assms(2))
qed

lemma handled_closed:
  assumes "\<not> open_request h r"
    and "\<not> (jc_enabled (au_jwt (cf_auth (bh_cfg h)))
           \<and> extract_bearer_token (header_get (rq_headers r) ''Authorization'') \<noteq> None)"
  shows "handled_ok lib h ev r w
    (case try_providers ev r (cf_auth (bh_cfg h)) (bh_providers h) of
       Some (Inl resp) \<Rightarrow> (resp, w)
     | Some (Inr headers) \<Rightarrow> forward h ev (with_headers ev headers r) w
     | None \<Rightarrow> if bh_providers h = [] \<and> kc_enabled (au_api_key (cf_auth (bh_cfg h))) then serve_api_key h ev r w
               else (unauthorized ''missing credentials'', w))"
proof (cases "try_providers ev r (cf_auth (bh_cfg h)) (bh_providers h)")
  case None
  then show ?thesis using handled_api_key[OF assms(1) _ _ assms(2)] by (auto simp: handled_unauthorized)
next
  case (Some res)
  show ?thesis
  proof (cases res)
    case (Inl resp)
    then have "resp = unauthorized ''invalid api key''" using Some try_providers_reject by blast
    then show ?thesis using Some Inl by (simp add: handled_unauthorized)
  next
    case (Inr headers)
    then have "key_justifies h ev r headers"
      unfolding key_justifies_def Let_def using try_providers_headers Some assms(2) by blast
    then have "justified lib h ev r (w_jwt w) headers" using assms(1) by (simp add: justified_def)
    then show ?thesis using Some Inr by (simp add: handled_forward_same)
  qed
qed

lemma serve_http_ok:
  assumes "orders_ok ev"
  shows "handled_ok lib h ev r w (serve_http lib h ev r w)"
proof (cases "open_request h r")
  case True
  then have "serve_http lib h ev r w = forward h ev r w" by (auto simp: serve_http_def open_request_def Let_def)
  then show ?thesis using handled_open[OF True assms] by simp
next
  case False
  let ?a = "cf_auth (bh_cfg h)"
  let ?b = "extract_bearer_token (header_get (rq_headers r) ''Authorization'')"
  have no: "auth_required r" "jc_enabled (au_jwt ?a) \<or> kc_enabled (au_api_key ?a)"
    using False by (auto simp: open_request_def)
  show ?thesis
  proof (cases "jc_enabled (au_jwt ?a) \<and> ?b \<noteq> None")
    case True
    then obtain token where t: "?b = Some token" by blast
    then have "serve_http lib h ev r w = serve_jwt lib h ev token r w"
      using True no by (simp add: serve_http_def Let_def)
    then show ?thesis using handled_jwt[OF False _ t] True by simp
  next
    case n: False
    show ?thesis using handled_closed[OF False n, of lib ev w] n no
      by (auto simp: serve_http_def Let_def split: bool.splits option.splits)
  qed
qed

end
