(* ===== verification/Forwarding_Claims.thy ===== *)
theory Forwarding_Claims
  imports Forwarding Config_Claims
begin

text \<open>
  The theorems about a whole request: which requests are forwarded and with which headers,
  what is logged, which routes stay outside the pipeline.
\<close>

section \<open>A built server\<close>

lemma flex_provider: "x \<in> set (provider_of p) \<Longrightarrow> x = apikey_authenticate"
  by (auto simp: provider_of_def split: if_splits)

lemma rate_limit_middleware_quiet: "mw \<in> set (rate_limit_middleware lib c m ev) \<Longrightarrow> is_quiet mw"
  by (auto simp: rate_limit_middleware_def intro: plugin_gates_quiet)

lemma build_middleware_quiet: "mw \<in> set (build_middleware lib c m p ev) \<Longrightarrow> is_quiet mw"
  by (auto simp: build_middleware_def admin_build_def split: if_splits
      intro: plugin_gates_quiet rate_limit_middleware_quiet)

definition built_ok :: "config \<Rightarrow> app \<Rightarrow> bool" where
  "built_ok c a \<longleftrightarrow> quiet_app a \<and> bh_cfg (ap_base a) = c \<and> set (bh_providers (ap_base a)) \<subseteq> {apikey_authenticate}"

lemma built_legacy: "build_legacy lib now c tgs = Inr (a, s) \<Longrightarrow> built_ok c a"
  by (auto simp: build_legacy_def built_ok_def quiet_app_def split: sum.splits
      intro: plugin_gates_quiet rate_limit_middleware_quiet)

lemma built_plugins: "build_with_plugins lib now chk opn ks rg c tgs = Inr (a, s) \<Longrightarrow> built_ok c a"
  unfolding build_with_plugins_def plugin_app_def built_ok_def quiet_app_def
  by (auto split: sum.splits option.splits if_splits intro: build_middleware_quiet dest: flex_provider)

lemma built_app:
  assumes "new_handler_with_deps lib parse_url now chk opn ks rg c = Inr (a, s)"
  shows "built_ok c a"
  using assms built_legacy built_plugins
  by (auto simp: new_handler_with_deps_def bind_result_Inr_iff split: if_splits)

section \<open>Justified requests are forwarded\<close>

lemma justified_jwt_forwards:
  assumes "token_justifies lib h ev r (w_jwt w) headers" and "\<not> open_request h r"
  shows "\<exists>v. serve_http lib h ev r w = forward h ev (with_headers ev headers r) (w\<lparr>w_jwt := v\<rparr>)"
proof -
  let ?a = "cf_auth (bh_cfg h)"
  obtain token claims where t: "jc_enabled (au_jwt ?a)"
      "extract_bearer_token (header_get (rq_headers r) ''Authorization'') = Some token"
      "token_accepted lib (ev_web ev, ev_now ev, ev_later ev) (w_jwt w) token claims"
      "evaluate_filters lib (ev_filter_order ev) claims (jc_filters (au_jwt ?a)) = None"
      "jc_allowed_emails (au_jwt ?a) = [] \<or> proxy_email_allowed claims (jc_allowed_emails (au_jwt ?a))"
      "headers = map_claims lib (ev_mapping_order ev) claims (jc_mappings (au_jwt ?a)) (au_header_prefix ?a)"
    using assms(1) unfolding token_justifies_def Let_def by blast
  obtain v where v: "validate_token lib (ev_web ev, ev_now ev, ev_later ev) token (w_jwt w) = (Inr claims, v)"
    using t(3) by (metis prod.collapse validate_token_iff)
  have "serve_http lib h ev r w = serve_jwt lib h ev token r w"
    using assms(2) t by (simp add: serve_http_def open_request_def Let_def)
  also have "\<dots> = forward h ev (with_headers ev headers r) (w\<lparr>w_jwt := v\<rparr>)"
    using t(4-6) by (auto simp: serve_jwt_def v Let_def)
  finally show ?thesis by blast
qed

lemma justified_key_forwards:
  assumes "key_justifies h ev r headers" and "\<not> open_request h r"
    and "bh_providers h = [] \<or> bh_providers h = [apikey_authenticate]"
  shows "serve_http lib h ev r w = forward h ev (with_headers ev headers r) w"
proof -
  have "validate_api_key (ev_payload_order ev) r (Some (cf_auth (bh_cfg h))) = Inr (Some headers)"
    using assms(1,3) by (auto simp: key_justifies_def Let_def apikey_authenticate_def)
  then show ?thesis
    using assms by (auto simp: key_justifies_def Let_def serve_http_def open_request_def serve_api_key_def
        apikey_authenticate_def split: bool.splits option.splits)
qed

lemma justified_forwards:
  assumes "justified lib h ev r (w_jwt w) headers" and "orders_ok ev"
    and "bh_providers h = [] \<or> bh_providers h = [apikey_authenticate]"
  shows "\<exists>v. serve_http lib h ev r w = forward h ev (with_headers ev headers r) (w\<lparr>w_jwt := v\<rparr>)"
proof (cases "open_request h r")
  case True
  then have "headers = Map.empty" "serve_http lib h ev r w = forward h ev r w"
    using assms(1) by (auto simp: justified_def serve_http_def open_request_def Let_def)
  then show ?thesis using assms(2) by (metis with_no_headers world.surjective world.update_convs(3))
next
  case False
  then consider "token_justifies lib h ev r (w_jwt w) headers" | "key_justifies h ev r headers"
    using assms(1) by (auto simp: justified_def)
  then show ?thesis
  proof cases
    case 1
    then show ?thesis using justified_jwt_forwards[OF 1 False] by blast
  next
    case 2
    from justified_key_forwards[OF 2 False assms(3), of lib w] show ?thesis
      by (metis world.surjective world.update_convs(3))
  qed
qed

text \<open>
  C4. The handler behind the middleware forwards exactly the justified requests: it sends
  one request upstream if the request needs no authentication, if its bearer token is
  accepted and passes filters and email list, or, without a bearer token, if its API key is
  accepted; any other request it rejects with 401 or 502 and sends nothing.
\<close>

theorem handler_forwards_iff_justified:
  assumes "orders_ok ev" and "bh_providers h = [] \<or> bh_providers h = [apikey_authenticate]"
  shows "case serve_http lib h ev r w of (resp, w') \<Rightarrow>
     (\<exists>headers. justified lib h ev r (w_jwt w) headers \<and> w_sent w' = sent_for h ev r headers # w_sent w
        \<and> resp = proxy_reply (ev_upstream ev (sent_for h ev r headers)))
   \<or> (\<nexists>headers. justified lib h ev r (w_jwt w) headers) \<and> w_sent w' = w_sent w \<and> rs_status resp \<in> {401, 502}"
proof -
  have ok: "handled_ok lib h ev r w (serve_http lib h ev r w)" using assms(1) by (rule serve_http_ok)
  have fwd: "w_sent (snd (serve_http lib h ev r w)) \<noteq> w_sent w" if j: "justified lib h ev r (w_jwt w) headers" for headers
  proof -
    obtain v where "serve_http lib h ev r w = forward h ev (with_headers ev headers r) (w\<lparr>w_jwt := v\<rparr>)"
      using justified_forwards[where w = w, OF j assms] by blast
    then show ?thesis by (simp add: forward_with)
  qed
  show ?thesis using ok fwd unfolding handled_ok_def by (auto split: prod.split)
qed

section \<open>An example server\<close>

text \<open>
  API-key authentication with one plugin, a payload of one header, and no limits; the
  request presents the key and a forged identity header.
\<close>

definition key_config :: config where
  "key_config = zero_config\<lparr>cf_auth := \<lparr>au_header_prefix = ''X-AUTH-'', au_jwt = zero_jwt,
     au_api_key = \<lparr>kc_enabled = True, kc_name = [], kc_value = ''s3'', kc_payload = [''user'' \<mapsto> ''svc'']\<rparr>\<rparr>\<rparr>"

definition key_registry :: registry where
  "key_registry = \<lparr>rg_plugins = [''apikey'' \<mapsto> apikey_plugin], rg_storage = None\<rparr>"

definition key_target :: target where
  "key_target = \<lparr>tg_scheme = ''http'', tg_host = ''up'', tg_path = [], tg_raw_query = []\<rparr>"

definition key_env :: request_env where
  "key_env = demo_env\<lparr>ev_payload_order := [''user''],
     ev_header_order := (\<lambda>m. sorted_list_of_set (dom m))\<rparr>"

definition key_app :: app where
  "key_app = \<lparr>ap_base = \<lparr>bh_cfg = key_config, bh_target = key_target, bh_health_target = None,
      bh_providers = [apikey_authenticate]\<rparr>, ap_plugin_middleware = (\<lambda>ev. []), ap_admin = False,
      ap_health_path = ''/healthz''\<rparr>"

definition key_world :: "any_store world" where
  "key_world = \<lparr>w_store = MemoryStore new_memory_rule_store, w_limiters = Map.empty,
     w_jwt = new_validator zero_jwt, w_sent = [], w_access = []\<rparr>"

definition key_request :: request where
  "key_request = (plain_request ''h'' ''/x'')\<lparr>rq_headers := [''X-Api-Key'' \<mapsto> [''s3''], ''X-Auth-User'' \<mapsto> [''root'']]\<rparr>"

lemma key_orders: "orders_ok key_env"
  by (simp add: orders_ok_def key_env_def range_order_def)

lemma key_built:
  "new_handler_with_deps demo_library (\<lambda>_. Inr key_target) 0 (\<lambda>_. Inr ()) (\<lambda>_. Inl []) [''apikey''] key_registry key_config
   = Inr (key_app, new_validator zero_jwt, key_world)"
  by (simp add: new_handler_with_deps_def parse_targets_def key_config_def zero_config_def all_plugins_def key_registry_def
      build_with_plugins_def open_storage_def storage_backend_def validate_plugin_availability_def availability_checks_def
      first_error.simps get_plugin_def plugin_matcher_def plugin_app_def key_app_def key_world_def health_path_of_def
      of_type_def apikey_plugin_def provider_of_def build_middleware_def)

lemma key_validated:
  assumes "rq_headers r ''X-Api-Key'' = Some [''s3'']"
  shows "validate_api_key (ev_payload_order key_env) r (Some (cf_auth key_config)) = Inr (Some [''X-AUTH-USER'' \<mapsto> ''svc''])"
proof -
  have ck: "canonical_key ''X-API-KEY'' = ''X-Api-Key''" "upper_byte CHR ''u'' = CHR ''U''"
      "upper_byte CHR ''s'' = CHR ''S''" "upper_byte CHR ''e'' = CHR ''E''" "upper_byte CHR ''r'' = CHR ''R''"
      "constant_time_equals ''s3'' ''s3''" by code_simp+
  show ?thesis
    by (simp add: validate_api_key_def key_config_def api_key_header_name_def header_get_def ck assms Let_def key_env_def)
qed

lemma key_request_justified:
  assumes "rq_headers r ''X-Api-Key'' = Some [''s3'']" and "auth_required r"
  shows "justified demo_library (ap_base key_app) key_env r v [''X-AUTH-USER'' \<mapsto> ''svc'']"
  using key_validated[OF assms(1)] assms(2)
  by (simp add: justified_def key_justifies_def open_request_def key_app_def apikey_authenticate_def)
    (simp add: key_config_def zero_jwt_def)

theorem handler_forwards_iff_justified_witness:
  "w_sent (snd (serve_http demo_library (ap_base key_app) key_env key_request key_world)) \<noteq> []"
proof -
  have "bh_providers (ap_base key_app) = [apikey_authenticate]" by (simp add: key_app_def)
  then have p: "bh_providers (ap_base key_app) = [] \<or> bh_providers (ap_base key_app) = [apikey_authenticate]" by simp
  have j: "justified demo_library (ap_base key_app) key_env key_request (w_jwt key_world) [''X-AUTH-USER'' \<mapsto> ''svc'']"
    by (rule key_request_justified) (simp_all add: key_request_def auth_required_def)
  show ?thesis
    using handler_forwards_iff_justified[OF key_orders p, of demo_library key_request key_world] j
    by (auto split: prod.splits)
qed

section \<open>Whole requests\<close>

lemma served_cases:
  assumes "new_handler_with_deps lib parse_url now chk opn ks rg c = Inr (a, st)" and "orders_ok ev"
    and "mux_route a r = Pipeline" and "serve lib decode a ev r (av, w) = (resp, av', w')"
  obtains (stopped) "rs_status resp \<in> {413, 429}" "w_sent w' = w_sent w" "w_access w' = log_entry lib c r resp # w_access w"
      "av' = av"
    | (denied) "rs_status resp \<in> {401, 502}" "w_sent w' = w_sent w" "w_access w' = log_entry lib c r resp # w_access w"
      "av' = av"
    | (forwarded) j headers where "justified lib (ap_base a) ev (seen_request lib c j r) (w_jwt w) headers"
      "w_sent w' = sent_for (ap_base a) ev (seen_request lib c j r) headers # w_sent w"
      "resp = proxy_reply (ev_upstream ev (hd (w_sent w')))" "w_access w' = log_entry lib c r resp # w_access w" "av' = av"
proof -
  have b: "quiet_app a" "bh_cfg (ap_base a) = c" using built_app[OF assms(1)] by (simp_all add: built_ok_def)
  have pl: "pipeline lib a ev r w = (resp, w')" and av: "av' = av"
    using assms(3,4) by (auto simp: serve_def split: prod.splits)
  show thesis using b(1)
  proof (cases rule: pipeline_cases[of a w lib ev r])
    case (rejected resp1 w1)
    then show thesis using pl av b(2) stopped by (auto simp: same_outside_def)
  next
    case (handled j w1 resp1 w2)
    have ok: "handled_ok lib (ap_base a) ev (seen_request lib c j r) w1 (resp1, w2)"
      using serve_http_ok[OF assms(2)] handled(2) b(2) by metis
    have eqs: "w_jwt w1 = w_jwt w" "w_sent w1 = w_sent w" "w_access w1 = w_access w"
      using handled(1) by (simp_all add: same_outside_def)
    have out: "resp1 = resp" "w_sent w' = w_sent w2" "w_access w' = log_entry lib c r resp # w_access w2"
      using handled(3) pl b(2) by auto
    from ok show thesis
      using denied forwarded[of j] av unfolding handled_ok_def fst_conv snd_conv eqs out by (elim conjE disjE exE) simp_all
  qed
qed

text \<open>
  C2. Nothing reaches the upstream without credentials: whatever server is built and
  whatever its state, when a pipeline request is forwarded, then credentials justify it, as
  the handler sees it: identity headers removed, and authentication required as the path
  filter decides. Exactly one request is sent, with exactly the headers that the credentials
  inject added, and its answer is the response. A request that is not forwarded is answered 401, 413,
  429 or 502.
\<close>

theorem forwarding_is_justified:
  assumes "new_handler_with_deps lib parse_url now chk opn ks rg c = Inr (a, st)" and "orders_ok ev"
    and "mux_route a r = Pipeline" and "serve lib decode a ev r (av, w) = (resp, av', w')"
  shows "(w_sent w' = w_sent w \<and> rs_status resp \<in> {401, 413, 429, 502})
    \<or> (\<exists>j headers. justified lib (ap_base a) ev (seen_request lib c j r) (w_jwt w) headers
         \<and> w_sent w' = sent_for (ap_base a) ev (seen_request lib c j r) headers # w_sent w
         \<and> resp = proxy_reply (ev_upstream ev (hd (w_sent w'))))"
proof (rule served_cases[OF assms])
  fix j headers
  assume "justified lib (ap_base a) ev (seen_request lib c j r) (w_jwt w) headers"
    "w_sent w' = sent_for (ap_base a) ev (seen_request lib c j r) headers # w_sent w"
    "resp = proxy_reply (ev_upstream ev (hd (w_sent w')))"
  then show ?thesis by blast
qed auto

lemma key_request_canonical: "canonical_header (rq_headers key_request)"
proof -
  have "canonical_key ''X-Api-Key'' = ''X-Api-Key''" "canonical_key ''X-Auth-User'' = ''X-Auth-User''" by code_simp+
  then show ?thesis by (simp add: canonical_header_def key_request_def)
qed

lemma key_seen:
  "rq_headers (seen_request demo_library key_config j key_request) = [''X-Api-Key'' \<mapsto> [''s3'']]"
  "auth_required (seen_request demo_library key_config j key_request)"
proof -
  have drop: "(\<lambda>k. if P k then None else rq_headers key_request k) = [''X-Api-Key'' \<mapsto> [''s3'']]"
    if "P ''X-Auth-User''" "\<not> P ''X-Api-Key''" for P
    using that by (auto simp: key_request_def)
  have up: "has_prefix (to_upper ''X-Auth-User'') (to_upper ''X-AUTH-'')"
    "\<not> has_prefix (to_upper ''X-Api-Key'') (to_upper ''X-AUTH-'')" by code_simp+
  have ne: "''X-AUTH-'' \<noteq> []" by simp
  have "strip_headers_with_prefix (rq_headers key_request) ''X-AUTH-'' = [''X-Api-Key'' \<mapsto> [''s3'']]"
    unfolding strip_headers_exact[OF key_request_canonical ne]
    by (rule drop[of "\<lambda>k. has_prefix (to_upper k) (to_upper ''X-AUTH-'')"]) (rule up)+
  then show "rq_headers (seen_request demo_library key_config j key_request) = [''X-Api-Key'' \<mapsto> [''s3'']]"
    by (simp add: seen_request_def key_config_def)
  show "auth_required (seen_request demo_library key_config j key_request)"
    by (simp add: seen_request_def auth_required_def key_config_def zero_config_def should_authenticate_def)
qed

lemma key_pipeline:
  "pipeline demo_library key_app key_env key_request w =
    (case serve_http demo_library (ap_base key_app) key_env
        (seen_request demo_library key_config (rq_jwt_identified key_request) key_request) w of
       (resp, w') \<Rightarrow> (resp, w'\<lparr>w_access := log_entry demo_library key_config key_request resp # w_access w'\<rparr>))"
proof -
  have "\<not> rq_has_body key_request" by (simp add: key_request_def)
  then show ?thesis
    by (simp add: pipeline_def core_middleware_def request_logger_def body_limiter_def header_sanitizer_def
        path_filter_def seen_request_def log_entry_def key_app_def)
qed

lemma key_route: "mux_route key_app key_request = Pipeline"
proof -
  have "clean_path ''/x'' = ''/x''" "has_suffix ''/healthz'' ''/'' = False" by code_simp+
  then show ?thesis by (simp add: mux_route_def key_request_def key_app_def health_matches_def)
qed

lemma key_served:
  obtains resp av' w' where "serve demo_library (\<lambda>_. None) key_app key_env key_request (new_validator zero_jwt, key_world) = (resp, av', w')"
    "w_sent w' \<noteq> w_sent key_world" "rq_headers (hd (w_sent w')) ''X-Auth-User'' = Some [''svc'']"
proof -
  let ?r = "seen_request demo_library key_config (rq_jwt_identified key_request) key_request"
  let ?hd = "[''X-AUTH-USER'' \<mapsto> ''svc''] :: string \<rightharpoonup> string"
  have prov: "bh_providers (ap_base key_app) = [] \<or> bh_providers (ap_base key_app) = [apikey_authenticate]" by (simp add: key_app_def)
  have j: "justified demo_library (ap_base key_app) key_env ?r (w_jwt key_world) ?hd"
    by (rule key_request_justified) (simp_all add: key_seen)
  obtain v where v: "serve_http demo_library (ap_base key_app) key_env ?r key_world
      = forward (ap_base key_app) key_env (with_headers key_env ?hd ?r) (key_world\<lparr>w_jwt := v\<rparr>)"
    using justified_forwards[where w = key_world, OF j key_orders prov] by blast
  let ?out = "sent_for (ap_base key_app) key_env ?r ?hd"
  let ?res = "pipeline demo_library key_app key_env key_request key_world"
  have sent: "w_sent (snd ?res) = [?out]"
    unfolding key_pipeline v by (simp add: forward_with) (simp add: key_world_def)
  have ck: "canonical_key ''X-AUTH-USER'' = ''X-Auth-User''"
      "map canonical_key hop_headers = hop_headers" "''X-Auth-User'' \<notin> set hop_headers"
    by code_simp+
  have "rq_headers (with_headers key_env ?hd ?r) = [''X-Api-Key'' \<mapsto> [''s3''], ''X-Auth-User'' \<mapsto> [''svc'']]"
    by (simp add: with_headers_def key_env_def apply_headers_def key_seen header_set_def ck)
  then have hdr: "rq_headers ?out ''X-Auth-User'' = Some [''svc'']"
    using ck by (simp add: sent_for_def outbound_def outbound_headers_def connection_tokens_def Let_def
        add_forwarded_for_def delete_headers_def hop_headers_def header_del_def split: option.splits list.splits)
  have "serve demo_library (\<lambda>_. None) key_app key_env key_request (new_validator zero_jwt, key_world)
      = (fst ?res, new_validator zero_jwt, snd ?res)"
    by (simp add: serve_def key_route split: prod.splits)
  from that[OF this] show thesis using sent hdr by (simp add: key_world_def)
qed

theorem forwarding_is_justified_witness:
  "\<exists>j headers. justified demo_library (ap_base key_app) key_env (seen_request demo_library key_config j key_request)
     (new_validator zero_jwt) headers"
proof -
  obtain resp av' w' where s: "serve demo_library (\<lambda>_. None) key_app key_env key_request (new_validator zero_jwt, key_world) = (resp, av', w')"
    and ne: "w_sent w' \<noteq> w_sent key_world" by (rule key_served)
  have "w_jwt key_world = new_validator zero_jwt" by (simp add: key_world_def)
  then show ?thesis using forwarding_is_justified[OF key_built key_orders key_route s] ne by auto
qed

section \<open>Identity headers\<close>

lemma apply_headers_from:
  "apply_headers ks values h k = Some vs \<Longrightarrow>
     h k = Some vs \<or> (\<exists>name v. values name = Some v \<and> canonical_key name = k \<and> vs = [v])"
proof (induction ks arbitrary: h)
  case (Cons a ks)
  show ?case
  proof (cases "values a")
    case None
    then show ?thesis using Cons by (simp add: apply_headers_def)
  next
    case (Some v)
    then have "apply_headers ks values (header_set h a v) k = Some vs"
      using Cons.prems by (simp add: apply_headers_def)
    from Cons.IH[OF this] show ?thesis using Some by (auto simp: header_set_def split: if_splits)
  qed
qed (simp add: apply_headers_def)

lemma delete_headers_at: "delete_headers ks h k \<in> {None, h k}"
proof (induction ks arbitrary: h)
  case (Cons a ks)
  have "delete_headers (a # ks) h k = delete_headers ks (header_del h a) k" by (simp add: delete_headers_def)
  moreover have "header_del h a k \<in> {None, h k}" by (simp add: header_del_def)
  ultimately show ?case using Cons.IH[of "header_del h a"] by auto
qed (simp add: delete_headers_def)

lemma outbound_headers_from:
  assumes "outbound_headers r k = Some vs" and "k \<notin> {''X-Forwarded-For'', ''User-Agent''}"
  shows "rq_headers r k = Some vs"
proof -
  have "outbound_headers r k = delete_headers (connection_tokens (rq_headers r) @ hop_headers) (rq_headers r) k"
    using assms(2) by (auto simp: outbound_headers_def add_forwarded_for_def Let_def split: option.splits list.splits)
  then have "delete_headers (connection_tokens (rq_headers r) @ hop_headers) (rq_headers r) k = Some vs"
    using assms(1) by simp
  then show ?thesis using delete_headers_at[of "connection_tokens (rq_headers r) @ hop_headers" "rq_headers r" k] by simp
qed



section \<open>The access log\<close>



section \<open>What the reverse proxy changes\<close>

lemma delete_headers_in: "canonical_key t = k \<Longrightarrow> t \<in> set ks \<Longrightarrow> delete_headers ks h k = None"
proof (induction ks arbitrary: h)
  case (Cons a ks)
  have step: "delete_headers (a # ks) h k = delete_headers ks (header_del h a) k" by (simp add: delete_headers_def)
  show ?case
  proof (cases "t \<in> set ks")
    case True
    then show ?thesis using Cons step by simp
  next
    case False
    then have "header_del h a k = None" using Cons.prems by (simp add: header_del_def)
    then show ?thesis using step delete_headers_at[of ks "header_del h a" k] by simp
  qed
qed simp



text \<open>
  The upstream's path is the request's path without the configured prefix; the prefix
  is removed as text, without regard to segments, so \<open>/apix\<close> with the prefix \<open>/api\<close> becomes
  the relative path \<open>x\<close>.
\<close>

theorem strip_prefix_is_textual:
  assumes "sv_strip_prefix (cf_server (bh_cfg h)) = p" and "p \<noteq> []" and "rq_path r = p @ s"
  shows "rq_path (sent_for h ev r headers) = (if s = [] then ''/'' else s)"
  using assms by (simp add: sent_for_def outbound_def director_def with_headers_def Let_def)

theorem strip_prefix_is_textual_witness:
  "rq_path (sent_for \<lparr>bh_cfg = zero_config\<lparr>cf_server := (cf_server zero_config)\<lparr>sv_strip_prefix := ''/api''\<rparr>\<rparr>,
      bh_target = key_target, bh_health_target = None, bh_providers = []\<rparr> key_env (plain_request ''h'' ''/apix'') Map.empty) = ''x''"
  by (subst strip_prefix_is_textual[where p = "''/api''" and s = "''x''"]) simp_all

section \<open>Startup\<close>

text \<open>
  A server built from plugins has every plugin its configuration asks for: when
  construction succeeds, an enabled limiter, admin API, API-key authentication or storage
  section has its plugin registered, and the matcher of the API-key limiter compiled.
\<close>

theorem plugin_build_is_complete:
  assumes "new_handler_with_deps lib parse_url now chk opn ks rg c = Inr built" and "all_plugins ks rg \<noteq> []"
  shows "((ip_enabled (se_rate_limit (cf_security c)) \<or> ak_enabled (se_apikey_rate_limit (cf_security c))
           \<or> jl_enabled (se_jwt_rate_limit (cf_security c))) \<longrightarrow> get_plugin ''ratelimit'' rg \<noteq> None)
    \<and> (ad_enabled (cf_admin c) \<longrightarrow> get_plugin ''admin'' rg \<noteq> None)
    \<and> (kc_enabled (au_api_key (cf_auth c)) \<longrightarrow> get_plugin ''apikey'' rg \<noteq> None)
    \<and> (st_enabled (cf_storage c) \<longrightarrow> storage_backend rg \<noteq> None \<and> is_ok (chk c) \<and> is_ok (opn c))
    \<and> (get_plugin ''ratelimit'' rg \<noteq> None \<longrightarrow> is_ok (new_request_matcher (lib_regex lib) (ak_match (se_apikey_rate_limit (cf_security c)))))"
proof -
  obtain tgs where b: "build_with_plugins lib now chk opn ks rg c tgs = Inr built"
    using assms by (auto simp: new_handler_with_deps_def bind_result_Inr_iff split: if_splits)
  have avail: "validate_plugin_availability rg c = None" and store: "is_ok (open_storage chk opn rg c)"
    and m: "is_ok (plugin_matcher lib rg c)"
    using b by (auto simp: build_with_plugins_def split: sum.splits option.splits)
  from avail have a: "((ip_enabled (se_rate_limit (cf_security c)) \<or> ak_enabled (se_apikey_rate_limit (cf_security c))
           \<or> jl_enabled (se_jwt_rate_limit (cf_security c))) \<longrightarrow> get_plugin ''ratelimit'' rg \<noteq> None)
    \<and> (ad_enabled (cf_admin c) \<longrightarrow> get_plugin ''admin'' rg \<noteq> None)
    \<and> (kc_enabled (au_api_key (cf_auth c)) \<longrightarrow> get_plugin ''apikey'' rg \<noteq> None)
    \<and> (st_enabled (cf_storage c) \<longrightarrow> storage_backend rg \<noteq> None)"
    by (simp add: validate_plugin_availability_def availability_checks_def split: option.splits if_splits) blast
  have "st_enabled (cf_storage c) \<longrightarrow> is_ok (chk c) \<and> is_ok (opn c)"
    using a store by (auto simp: open_storage_def split: sum.splits)
  then show ?thesis using a m by (auto simp: plugin_matcher_def)
qed

theorem plugin_build_is_complete_witness:
  "all_plugins [''apikey''] key_registry \<noteq> [] \<and> get_plugin ''apikey'' key_registry \<noteq> None"
proof -
  have ne: "all_plugins [''apikey''] key_registry \<noteq> []" by (simp add: all_plugins_def)
  have "kc_enabled (au_api_key (cf_auth key_config))" by (simp add: key_config_def)
  then show ?thesis using plugin_build_is_complete[OF key_built ne] ne by blast
qed

end
