(* ===== verification/Logging.thy ===== *)
theory Logging
  imports Config
begin

text \<open>
  The logger's settings, \<open>internal/logging/logger.go\<close>: mode and level from the environment, and
  the handler that is built from them. What \<open>log/slog\<close> writes is left out; a level is the
  integer it is in that package, and a logger is its format, its threshold and the fields that
  are attached to it.
\<close>

datatype log_mode = Development | Production

datatype log_format = TextFormat | JSONFormat

record logger =
  lg_format :: log_format
  lg_level :: int
  lg_fields :: "(string \<times> string) list"

definition level_debug :: int where "level_debug = -4"
definition level_info :: int where "level_info = 0"
definition level_warn :: int where "level_warn = 4"
definition level_error :: int where "level_error = 8"

definition init_logger :: "log_mode \<Rightarrow> int \<Rightarrow> logger" where
  "init_logger mode level =
     \<lparr>lg_format = (case mode of Production \<Rightarrow> JSONFormat | Development \<Rightarrow> TextFormat),
      lg_level = level, lg_fields = []\<rparr>"

definition get_log_mode_from_env :: "env \<Rightarrow> log_mode" where
  "get_log_mode_from_env env =
     (let m = to_lower (getenv env ''PROXY_LOG_MODE'')
      in if m = ''production'' \<or> m = ''prod'' then Production
         else if m = ''development'' \<or> m = ''dev'' then Development
         else if getenv env ''K_SERVICE'' \<noteq> [] \<or> getenv env ''GOOGLE_CLOUD_PROJECT'' \<noteq> [] then Production
         else Development)"

definition get_log_level_from_env :: "env \<Rightarrow> int" where
  "get_log_level_from_env env =
     (let level = to_upper (getenv env ''PROXY_LOG_LEVEL'')
      in if level = ''DEBUG'' then level_debug
         else if level = ''INFO'' then level_info
         else if level = ''WARN'' \<or> level = ''WARNING'' then level_warn
         else if level = ''ERROR'' then level_error
         else level_info)"

definition with_component :: "logger \<Rightarrow> string \<Rightarrow> logger" where
  "with_component l component = l\<lparr>lg_fields := lg_fields l @ [(''component'', component)]\<rparr>"

text \<open>A record is written when its level reaches the threshold (\<open>slog.HandlerOptions.Level\<close>).\<close>

definition logs :: "logger \<Rightarrow> int \<Rightarrow> bool" where
  "logs l level \<longleftrightarrow> lg_level l \<le> level"

text \<open>Errors are written at every level the environment can select.\<close>

lemma errors_always_logged: "logs (init_logger mode (get_log_level_from_env env)) level_error"
  by (simp add: logs_def init_logger_def get_log_level_from_env_def Let_def
      level_debug_def level_info_def level_warn_def level_error_def)

end
