(* ===== verification/Commands.thy ===== *)
theory Commands
  imports Server Loader Logging
begin

text \<open>
  The two programs, \<open>cmd/lite/main.go\<close> and \<open>cmd/flex/main.go\<close>: flags, the health-check mode, and
  the startup sequence up to the serving state. They differ in the registered plugins and in
  the startup rules, which only the flex program loads.

  Package \<open>flag\<close> is standard library; \<open>parse_flags\<close> is its loop for the two flags the programs
  define. Of the log only the summary of the configuration is modelled; the phases after the
  startup are in the theory \<open>Process\<close>.
\<close>

section \<open>Flags\<close>

datatype flag_error = BadSyntax string | NotDefined string | BadValue string | NeedsArgument string | HelpRequested

definition default_config_path :: string where
  "default_config_path = ''/config/config.toml''"

text \<open>A flag's name and the value after the equals sign, if there is one.\<close>

definition split_flag :: "string \<Rightarrow> string \<times> string option" where
  "split_flag name =
     (case dropWhile (\<lambda>c. c \<noteq> CHR ''='') (tl name) of
        [] \<Rightarrow> (name, None)
      | c # v \<Rightarrow> (hd name # takeWhile (\<lambda>c. c \<noteq> CHR ''='') (tl name), Some v))"

function parse_args :: "string list \<Rightarrow> string \<times> bool \<Rightarrow> (flag_error, string \<times> bool) result" where
  "parse_args [] acc = Inr acc"
| "parse_args (s # args) acc =
     (if length s < 2 \<or> hd s \<noteq> CHR ''-'' then Inr acc
      else if s = ''--'' then Inr acc
      else let name = (if s ! 1 = CHR ''-'' then drop 2 s else drop 1 s)
           in if hd name = CHR ''-'' \<or> hd name = CHR ''='' then Inl (BadSyntax s)
              else (case split_flag name of (n, value) \<Rightarrow>
                if n = ''config'' then
                  (case (value, args) of
                     (Some v, _) \<Rightarrow> parse_args args (v, snd acc)
                   | (None, v # rest) \<Rightarrow> parse_args rest (v, snd acc)
                   | (None, []) \<Rightarrow> Inl (NeedsArgument n))
                else if n = ''healthcheck'' then
                  (case value of
                     None \<Rightarrow> parse_args args (fst acc, True)
                   | Some v \<Rightarrow>
                       (case parse_bool v of
                          None \<Rightarrow> Inl (BadValue n)
                        | Some b \<Rightarrow> parse_args args (fst acc, b)))
                else if n = ''help'' \<or> n = ''h'' then Inl HelpRequested
                else Inl (NotDefined n)))"
  by pat_completeness auto
termination
  by (relation "measure (\<lambda>(args, acc). length args)") auto

definition parse_flags :: "string list \<Rightarrow> (flag_error, string \<times> bool) result" where
  "parse_flags args = parse_args args (default_config_path, False)"

section \<open>Health-check mode\<close>

datatype probe = InvalidTarget string | RequestFailed string | Responded int

text \<open>\<open>probe_target\<close> is the GET request on the target with its five-second client.\<close>

definition run_health_check :: "(string \<Rightarrow> probe) \<Rightarrow> config \<Rightarrow> (string, unit) result" where
  "run_health_check probe_target c =
     (let target = hc_target (sv_health_check (cf_server c))
      in if target = [] then Inr ()
         else case probe_target target of
                InvalidTarget e \<Rightarrow> Inl (''invalid health check target: '' @ e)
              | RequestFailed e \<Rightarrow> Inl (''health check request failed: '' @ e)
              | Responded status \<Rightarrow>
                  if status < 200 \<or> 400 \<le> status
                  then Inl (''health check returned status '' @ int_string status) else Inr ())"

text \<open>The lite program has copies of the two functions; they are the same.\<close>

definition lite_parse_flags :: "string list \<Rightarrow> (flag_error, string \<times> bool) result" where
  "lite_parse_flags args = parse_args args (default_config_path, False)"

definition lite_run_health_check :: "(string \<Rightarrow> probe) \<Rightarrow> config \<Rightarrow> (string, unit) result" where
  "lite_run_health_check probe_target c =
     (if hc_target (sv_health_check (cf_server c)) = [] then Inr ()
      else case probe_target (hc_target (sv_health_check (cf_server c))) of
             InvalidTarget e \<Rightarrow> Inl (''invalid health check target: '' @ e)
           | RequestFailed e \<Rightarrow> Inl (''health check request failed: '' @ e)
           | Responded status \<Rightarrow>
               if status < 200 \<or> 400 \<le> status
               then Inl (''health check returned status '' @ int_string status) else Inr ())"

lemma lite_copies_agree:
  "lite_parse_flags args = parse_flags args"
  "lite_run_health_check probe_target c = run_health_check probe_target c"
  by (simp_all add: lite_parse_flags_def parse_flags_def lite_run_health_check_def run_health_check_def Let_def)

section \<open>The summary of the configuration\<close>

datatype log_value = LogInt int | LogText string | LogBool bool | LogTexts "string list"

text \<open>A message with its attributes; \<open>auth_modes_text\<close> is the verb \<open>%v\<close> on a list of texts.\<close>

type_synonym log_message = "string \<times> (string \<times> log_value) list"

definition auth_modes :: "config \<Rightarrow> string list" where
  "auth_modes c =
     (if jc_enabled (au_jwt (cf_auth c)) then [''JWT''] else [])
     @ (if kc_enabled (au_api_key (cf_auth c)) then [''API-Key''] else [])"

definition auth_modes_text :: "string list \<Rightarrow> string" where
  "auth_modes_text ms = ''['' @ join '' '' ms @ '']''"

definition log_config_summary :: "config \<Rightarrow> log_message list" where
  "log_config_summary c =
     (let sv = cf_server c; ip = se_rate_limit (cf_security c);
          jwt = au_jwt (cf_auth c); key = au_api_key (cf_auth c)
      in [(''Server configuration'',
            [(''port'', LogInt (sv_port sv)), (''target_url'', LogText (sv_target_url sv)),
             (''strip_prefix'', LogText (sv_strip_prefix sv)),
             (''health_check_path'', LogText (hc_path (sv_health_check sv))),
             (''health_check_target'', LogText (hc_target (sv_health_check sv))),
             (''shutdown_timeout_secs'', LogInt (sv_shutdown_timeout_secs sv))]),
          (''Security configuration'',
            [(''rate_limit_enabled'', LogBool (ip_enabled ip)), (''requests_per_min'', LogInt (ip_requests_per_min ip)),
             (''ban_for_min'', LogInt (ip_ban_for_min ip))]),
          (''Authentication configuration'',
            [(''enabled_methods'', LogText (auth_modes_text (auth_modes c))),
             (''header_prefix'', LogText (au_header_prefix (cf_auth c)))])]
         @ (if jc_enabled jwt then
              [(''JWT authentication enabled'',
                 [(''issuer'', LogText (jc_issuer jwt)), (''audience'', LogText (jc_audience jwt)),
                  (''tolerance_secs'', LogInt (jc_tolerance_secs jwt)), (''cache_ttl_mins'', LogInt (jc_cache_ttl_mins jwt)),
                  (''filters_count'', LogInt (int (card (dom (jc_filters jwt))))),
                  (''mappings_count'', LogInt (int (card (dom (jc_mappings jwt)))))])] else [])
         @ (if kc_enabled key then
              [(''API-Key authentication enabled'',
                 [(''header_name'', LogText (kc_name key)), (''has_value'', LogBool (kc_value key \<noteq> [])),
                  (''payload_count'', LogInt (int (card (dom (kc_payload key)))))])] else [])
         @ [(''Path filtering'',
              [(''include_paths'', LogTexts (sv_include_paths sv)), (''exclude_paths'', LogTexts (sv_exclude_paths sv))])])"

section \<open>Startup\<close>

definition lite_build_variant :: "string list \<Rightarrow> registry \<Rightarrow> string" where
  "lite_build_variant ks rg = (if all_plugins ks rg = [] then ''lite'' else ''custom'')"

definition flex_build_variant :: "string list \<Rightarrow> registry \<Rightarrow> string" where
  "flex_build_variant ks rg =
     (let plugins = all_plugins ks rg
      in if plugins = [] then ''lite'' else if 3 \<le> length plugins then ''flex'' else ''custom'')"

text \<open>What the process meets while it starts.\<close>

record startup_env =
  su_files :: "string \<Rightarrow> string option"
  su_toml :: "string \<Rightarrow> config option"
  su_vars :: env
  su_metadata :: http_reply
  su_probe :: "string \<Rightarrow> probe"
  su_parse_url :: "string \<Rightarrow> (string, target) result"
  su_fs_check :: "config \<Rightarrow> (string, unit) result"
  su_fs_open :: "config \<Rightarrow> (string, fs_store) result"
  su_unmarshal :: "string \<Rightarrow> (string, persisted_rule list) result"
  su_now :: time
  su_loader_now :: time
  su_store_now :: time
  su_plugin_order :: "string list"

datatype started = Exited int | Running app state

text \<open>The steps both programs share: flags, configuration, health-check mode, construction.\<close>

definition start_common ::
    "library \<Rightarrow> startup_env \<Rightarrow> registry \<Rightarrow> string list \<Rightarrow> (int, config \<times> app \<times> state) result" where
  "start_common lib su rg args =
     (case parse_flags args of
        Inl e \<Rightarrow> Inl 2
      | Inr (config_path, healthcheck_only) \<Rightarrow>
          (case load (su_files su config_path) (su_toml su) (su_vars su) (su_metadata su) of
             Inl e \<Rightarrow> Inl 1
           | Inr c \<Rightarrow>
               if healthcheck_only then Inl (if is_ok (run_health_check (su_probe su) c) then 0 else 1)
               else (case new_handler_with_deps lib (su_parse_url su) (su_now su) (su_fs_check su) (su_fs_open su)
                            (su_plugin_order su) rg c of
                       Inl e \<Rightarrow> Inl (if has_prefix e ''panic: '' then 2 else 1)
                     | Inr built \<Rightarrow> Inr (c, built))))"

definition lite_main :: "library \<Rightarrow> startup_env \<Rightarrow> registry \<Rightarrow> string list \<Rightarrow> started" where
  "lite_main lib su rg args =
     (case start_common lib su rg args of Inl code \<Rightarrow> Exited code | Inr (c, a, st) \<Rightarrow> Running a st)"

text \<open>The startup rules: an error is logged and the program goes on.\<close>

definition load_startup_rules :: "library \<Rightarrow> startup_env \<Rightarrow> state \<Rightarrow> state" where
  "load_startup_rules lib su = (\<lambda>(av, w).
     (case load_persisted any_set (su_unmarshal su) (lib_parse_time lib) (su_vars su) (su_loader_now su) (su_store_now su)
             (w_store w, w_limiters w) of
        (res, s', ls') \<Rightarrow> (av, w\<lparr>w_store := s', w_limiters := ls'\<rparr>)))"

definition flex_main :: "library \<Rightarrow> startup_env \<Rightarrow> registry \<Rightarrow> string list \<Rightarrow> started" where
  "flex_main lib su rg args =
     (case start_common lib su rg args of
        Inl code \<Rightarrow> Exited code
      | Inr (c, a, st) \<Rightarrow> Running a (if ad_enabled (cf_admin c) then load_startup_rules lib su st else st))"

end
