(* ===== verification/Store_Invariants.thy ===== *)
theory Store_Invariants
  imports Forwarding_Claims Commands
begin

text \<open>
  What serving requests keeps of the rule store. A property of the store that the four
  operations of its interface keep is kept by every middleware and every handler;
  the locale \<open>store_invariant\<close> states it once, and its interpretations are
  the validity of the rules, the validity of what is written to Firestore, and the stop flag.
\<close>

section \<open>Handlers that keep a property of the store\<close>

definition keeps :: "('s \<Rightarrow> bool) \<Rightarrow> 's world handler \<Rightarrow> bool" where
  "keeps P h \<longleftrightarrow> (\<forall>r w. P (w_store w) \<longrightarrow> P (w_store (snd (h r w))))"

lemma store_upd [simp]: "w_store (put_limiter n l w) = w_store w"
  by (simp add: put_limiter_def)

named_theorems keeps_intros \<open>handlers and middleware that keep a property of the rule store\<close>

lemma handle_rate_limited_store [simp]: "w_store (snd (handle_rate_limited name n l w)) = w_store w"
  by (simp add: handle_rate_limited_def split: prod.splits bool.splits)

lemma limit_key_keeps: "keeps P nxt \<Longrightarrow> keeps P (limit_key name l key ev nxt)"
  by (auto simp: keeps_def limit_key_def split: prod.splits)

lemma ip_keeps [keeps_intros]: "keeps P nxt \<Longrightarrow> keeps P (ip_rate_limit name skip ev nxt)"
  using limit_key_keeps[of P nxt] by (auto simp: keeps_def ip_rate_limit_def split: option.splits)

lemma api_key_keeps [keeps_intros]: "keeps P nxt \<Longrightarrow> keeps P (api_key_rate_limit lib name m kh inc ev nxt)"
  using limit_key_keeps[of P nxt] by (auto simp: keeps_def api_key_rate_limit_def split: option.splits)

lemma jwt_keeps [keeps_intros]: "keeps P nxt \<Longrightarrow> keeps P (jwt_rate_limit lib name inc ev nxt)"
  using limit_key_keeps[of P nxt] by (auto simp: keeps_def jwt_rate_limit_def Let_def split: option.splits)

lemma core_keeps [keeps_intros]:
  "keeps P nxt \<Longrightarrow> keeps P (request_logger lib inc exc nxt)" "keeps P nxt \<Longrightarrow> keeps P (body_limiter m nxt)"
  "keeps P nxt \<Longrightarrow> keeps P (header_sanitizer p nxt)" "keeps P nxt \<Longrightarrow> keeps P (path_filter lib inc exc nxt)"
  by (auto simp: keeps_def request_logger_def body_limiter_def header_sanitizer_def path_filter_def case_prod_beta)

lemma no_rule_check_keeps [keeps_intros]: "keeps P nxt \<Longrightarrow> keeps P (dynamic_rule_check None ev nxt)"
  by (simp add: keeps_def dynamic_rule_check_def)

lemma apply_keeps:
  "(\<And>mw nxt. mw \<in> set mws \<Longrightarrow> keeps P nxt \<Longrightarrow> keeps P (mw nxt)) \<Longrightarrow> keeps P h \<Longrightarrow> keeps P (apply_middleware h mws)"
  by (induction mws) simp_all

lemma rate_limit_middleware_keeps:
  "mw \<in> set (rate_limit_middleware lib c m ev) \<Longrightarrow> keeps P nxt \<Longrightarrow> keeps P (mw nxt)"
  by (auto simp: rate_limit_middleware_def intro: keeps_intros)

lemma core_middleware_keeps:
  "mw \<in> set (core_middleware lib c) \<Longrightarrow> keeps P nxt \<Longrightarrow> keeps P (mw nxt)"
  by (auto simp: core_middleware_def intro: keeps_intros)

lemma serve_http_store: "w_store (snd (serve_http lib h ev r w)) = w_store w"
proof -
  have f: "w_store (snd (forward h ev r w)) = w_store w" for r and w :: "'a world"
    by (simp add: forward_def send_upstream_def)
  have "w_store (snd (serve_jwt lib h ev t r w)) = w_store w" for t r and w :: "'a world"
    by (simp add: serve_jwt_def f Let_def split: prod.splits sum.splits)
  moreover have "w_store (snd (serve_api_key h ev r w)) = w_store w" for r and w :: "'a world"
    by (simp add: serve_api_key_def f split: sum.splits apikey_error.splits)
  ultimately show ?thesis
    by (simp add: serve_http_def f Let_def split: bool.splits option.splits sum.splits)
qed

lemma status_keeps [keeps_intros]: "keeps P (admin_status_handler lib ev)"
  by (simp add: keeps_def admin_status_handler_def)

lemma admin_auth_keeps:
  "keeps P nxt \<Longrightarrow> P (w_store w)
   \<Longrightarrow> P (w_store (snd (snd (admin_auth_middleware vt lib ks net emails filters nxt r (v, w)))))"
  by (auto simp: admin_auth_middleware_def keeps_def Let_def case_prod_beta split: sum.splits)

lemma health_store [simp]: "w_store (snd (handle_health h ev r w)) = w_store w"
  by (simp add: handle_health_def send_upstream_def split: option.splits)

section \<open>Where the middleware of a server comes from\<close>

text \<open>Every server that is built checks rules with the store it was built with, or not at all.\<close>

definition known_middleware :: "library \<Rightarrow> config \<Rightarrow> compiled_rule list \<Rightarrow> request_env \<Rightarrow> any_store middleware set" where
  "known_middleware lib c m ev =
     {dynamic_rule_check None ev, dynamic_rule_check (Some any_decide) ev} \<union> set (rate_limit_middleware lib c m ev)"

definition known_app :: "library \<Rightarrow> app \<Rightarrow> bool" where
  "known_app lib a \<longleftrightarrow> (\<forall>ev. \<exists>m. set (ap_plugin_middleware a ev) \<subseteq> known_middleware lib (bh_cfg (ap_base a)) m ev)"

lemma build_middleware_known: "set (build_middleware lib c m p ev) \<subseteq> known_middleware lib c m ev"
  by (auto simp: build_middleware_def admin_build_def known_middleware_def split: if_splits)

lemma known_legacy: "build_legacy lib now c tgs = Inr (a, s) \<Longrightarrow> known_app lib a"
  unfolding build_legacy_def known_app_def known_middleware_def by (auto split: sum.splits)

lemma known_plugins: "build_with_plugins lib now chk opn ks rg c tgs = Inr (a, s) \<Longrightarrow> known_app lib a"
  unfolding build_with_plugins_def plugin_app_def known_app_def
  using build_middleware_known by (fastforce split: sum.splits option.splits if_splits)

lemma known_built: "new_handler_with_deps lib parse_url now chk opn ks rg c = Inr (a, s) \<Longrightarrow> known_app lib a"
  using known_legacy known_plugins by (auto simp: new_handler_with_deps_def bind_result_Inr_iff split: if_splits)

section \<open>Properties of the store that its operations keep\<close>

locale store_invariant =
  fixes P :: "any_store \<Rightarrow> bool"
  assumes set_keeps: "P s \<Longrightarrow> rule_valid r \<Longrightarrow> any_set now r s = Inr (r', s') \<Longrightarrow> P s'"
    and remove_keeps: "P s \<Longrightarrow> P (snd (any_remove rid s))"
    and clear_keeps: "P s \<Longrightarrow> P (snd (any_clear s))"
    and decide_keeps: "P s \<Longrightarrow> P (snd (any_decide ks now host path s))"
begin

lemma dynamic_keeps: "keeps P nxt \<Longrightarrow> keeps P (dynamic_rule_check (Some any_decide) ev nxt)"
  unfolding keeps_def dynamic_rule_check_def using decide_keeps by (fastforce simp: case_prod_beta)

lemma control_keeps:
  assumes "P s"
  shows "P (fst (snd (control_handler any_set any_remove any_clear lib now body (s, ls))))"
proof -
  have "P (fst (snd (handle_set_rule any_set lib now rl (s, ls))))" for rl
    using assms set_keeps validate_rule_None
    by (auto simp: handle_set_rule_def Let_def split: option.splits sum.splits)
  moreover have "P (fst (snd (handle_remove_rule any_remove rid (s, ls))))" for rid
    using assms remove_keeps by (auto simp: handle_remove_rule_def case_prod_beta)
  moreover have "P (fst (snd (handle_remove_all any_clear (s, ls))))"
    using assms clear_keeps by (simp add: handle_remove_all_def case_prod_beta)
  ultimately show ?thesis using assms by (simp add: control_handler_def split: option.split)
qed

lemma admin_control_keeps: "keeps P (admin_control_handler lib decode ev)"
  using control_keeps unfolding keeps_def admin_control_handler_def by (simp add: case_prod_beta)

lemma known_keeps:
  assumes "mw \<in> known_middleware lib c m ev" and "keeps P nxt"
  shows "keeps P (mw nxt)"
  using assms dynamic_keeps unfolding known_middleware_def
  by (auto intro: keeps_intros rate_limit_middleware_keeps)

lemma pipeline_keeps:
  assumes "known_app lib a"
  shows "keeps P (pipeline lib a ev)"
proof -
  obtain m where m: "set (ap_plugin_middleware a ev) \<subseteq> known_middleware lib (bh_cfg (ap_base a)) m ev"
    using assms by (auto simp: known_app_def)
  have mws: "keeps P (mw nxt)" if "mw \<in> set (core_middleware lib (bh_cfg (ap_base a)) @ ap_plugin_middleware a ev)" "keeps P nxt"
    for mw nxt
    using that m core_middleware_keeps known_keeps by auto
  have "keeps P (serve_http lib (ap_base a) ev)" by (simp add: keeps_def serve_http_store)
  with mws show ?thesis unfolding pipeline_def by (rule apply_keeps)
qed

lemma serve_keeps:
  assumes "known_app lib a" and "P (w_store (snd st))"
  shows "P (w_store (snd (snd (serve lib decode a ev r st))))"
proof -
  obtain av w where st: "st = (av, w)" by fastforce
  then have w: "P (w_store w)" using assms(2) by simp
  have "P (w_store (snd (pipeline lib a ev r w)))"
    using pipeline_keeps[OF assms(1)] w by (simp add: keeps_def)
  moreover have "P (w_store (snd (snd (admin_guarded lib a ev nxt r (av, w)))))" if "keeps P nxt" for nxt
    using that w unfolding admin_guarded_def Let_def by (rule admin_auth_keeps)
  ultimately show ?thesis
    using w admin_control_keeps status_keeps by (simp add: serve_def st case_prod_beta split: route.split)
qed

end

section \<open>Three such properties\<close>

lemma loop_only_counts:
  "snd (should_allow_loop ks now host path rs) k = Some r' \<Longrightarrow> \<exists>r. rs k = Some r \<and> r' = r\<lparr>r_current_rpm := r_current_rpm r'\<rparr>"
proof (induction ks arbitrary: rs)
  case (Cons a ks)
  then show ?case
    by (auto simp: increment_rpm_def Let_def split: option.splits if_splits)
qed auto

lemma counting_keeps_valid: "rule_valid (r\<lparr>r_current_rpm := n\<rparr>) = rule_valid r"
  by (simp add: rule_valid_def)

lemma valid_after_loop:
  assumes "rules_valid rs"
  shows "rules_valid (snd (should_allow_loop ks now host path rs))"
  unfolding rules_valid_def
proof (intro allI impI)
  fix k r' assume "snd (should_allow_loop ks now host path rs) k = Some r'"
  then obtain r where "rs k = Some r" and r': "r' = r\<lparr>r_current_rpm := r_current_rpm r'\<rparr>"
    using loop_only_counts by blast
  then have "rule_valid r \<and> r_id r = k" using assms by (simp add: rules_valid_def)
  then show "rule_valid r' \<and> r_id r' = k"
    by (subst r', subst (2) r') (simp add: counting_keeps_valid)
qed

definition store_valid :: "any_store \<Rightarrow> bool" where
  "store_valid s \<longleftrightarrow> rules_valid (any_rules s)"

interpretation valid: store_invariant store_valid
proof unfold_locales
  fix s s' :: any_store and r r' :: rule and now assume "store_valid s" "rule_valid r" "any_set now r s = Inr (r', s')"
  moreover from this have "any_rules s' = (any_rules s)(r_id r \<mapsto> stored_rule now r)"
    using any.set_stores[of r now s] by (auto simp: rule_valid_def)
  ultimately show "store_valid s'" by (simp add: store_valid_def valid_insert del: fun_upd_apply)
next
  fix s :: any_store and rid assume "store_valid s"
  then show "store_valid (snd (any_remove rid s))" by (simp add: store_valid_def any.remove_rules rules_valid_def)
next
  fix s :: any_store
  show "store_valid (snd (any_clear s))" by (simp add: store_valid_def any.clear_rules rules_valid_def)
next
  fix s :: any_store and ks now host path assume "store_valid s"
  then show "store_valid (snd (any_decide ks now host path s))"
    using any.decide_loop[of ks now host path s] valid_after_loop[of "any_rules s" ks now host path]
    by (simp add: store_valid_def)
qed

text \<open>Every write that is on its way to Firestore stores a valid rule.\<close>

fun write_valid :: "remote_write \<Rightarrow> bool" where
  "write_valid (SetDoc r) = rule_valid r"
| "write_valid (DeleteDoc rid) = True"
| "write_valid DeleteAllDocs = True"

definition writes_valid :: "any_store \<Rightarrow> bool" where
  "writes_valid s = (case s of MemoryStore m \<Rightarrow> True | FirestoreStore f \<Rightarrow> list_all write_valid (fs_pending f))"

lemma fs_set_pending:
  assumes "fs_set_rule now r f = Inr (r', f')"
  shows "fs_pending f' = fs_pending f @ [SetDoc (stored_rule now r)]"
proof -
  have "r_id r \<noteq> []" using assms by (auto simp: fs_set_rule_def)
  from fs_set_is_stored[OF this, of now f] show ?thesis using assms by simp
qed

lemmas any_ops = any_set_def any_remove_def any_clear_def any_decide_def

interpretation writes: store_invariant writes_valid
  by unfold_locales
     (auto simp: writes_valid_def any_ops fs_set_pending fs_remove_rule_def fs_remove_all_def fs_should_allow_def
       bind_result_Inr_iff case_prod_beta split: any_store.splits)

definition any_stopped :: "any_store \<Rightarrow> bool" where
  "any_stopped s = (case s of MemoryStore m \<Rightarrow> ms_stopped m | FirestoreStore f \<Rightarrow> fs_stopped f)"

interpretation stopped: store_invariant "\<lambda>s. any_stopped s = b" for b
  by unfold_locales
     (auto simp: any_stopped_def any_ops set_rule_def remove_rule_def remove_all_def should_allow_def
       fs_set_rule_def fs_remove_rule_def fs_remove_all_def fs_should_allow_def bind_result_Inr_iff Let_def case_prod_beta
       split: any_store.splits if_splits)

end
