(* ===== verification/Server_Claims.thy ===== *)
theory Server_Claims
  imports Store_Invariants
begin

text \<open>
  Invariants of a running server, and the theorems about the two programs: what serving keeps,
  which configurations start, with which exit codes, and what the program without plugins does
  not check.
\<close>

section \<open>The rules of a running server\<close>

lemma built_store:
  assumes "new_handler_with_deps lib parse_url now chk opn ks rg c = Inr (a, st)"
  shows "w_store (snd st) = MemoryStore new_memory_rule_store
    \<or> (\<exists>f. opn c = Inr f \<and> w_store (snd st) = FirestoreStore f)"
proof -
  have o: "open_storage chk opn rg c = Inr s \<Longrightarrow> s = MemoryStore new_memory_rule_store \<or> (\<exists>f. opn c = Inr f \<and> s = FirestoreStore f)" for s
    by (auto simp: open_storage_def split: if_splits sum.splits)
  have "build_legacy lib now c tgs = Inr (a, st) \<Longrightarrow> w_store (snd st) = MemoryStore new_memory_rule_store" for tgs
    by (auto simp: build_legacy_def split: sum.splits)
  moreover have "build_with_plugins lib now chk opn ks rg c tgs = Inr (a, st) \<Longrightarrow> ?thesis" for tgs
    using o by (auto simp: build_with_plugins_def plugin_app_def split: sum.splits option.splits)
  ultimately show ?thesis
    using assms by (auto simp: new_handler_with_deps_def bind_result_Inr_iff split: if_splits)
qed

lemma built_store_has:
  assumes "new_handler_with_deps lib parse_url now chk opn ks rg c = Inr (a, st)"
    and "P (MemoryStore new_memory_rule_store)" and "\<And>f. opn c = Inr f \<Longrightarrow> P (FirestoreStore f)"
  shows "P (w_store (snd st))"
  using built_store[OF assms(1)] assms(2,3) by auto

lemma memory_starts_valid [simp]:
  "store_valid (MemoryStore new_memory_rule_store)" "writes_valid (MemoryStore new_memory_rule_store)"
  "\<not> any_stopped (MemoryStore new_memory_rule_store)"
  by (simp_all add: store_valid_def any_rules_def new_memory_rule_store_def rules_valid_def writes_valid_def any_stopped_def)

text \<open>A server with a Firestore that already holds a rule.\<close>

definition cloud_rule :: rule where
  "cloud_rule = \<lparr>r_id = ''a'', r_target_host = ''h'', r_action = ''block'', r_max_rpm = 0, r_path_pattern = None,
     r_rate_by_key = False, r_limiter = [], r_throttle_delay_ms = 0, r_max_delay_slots = 0,
     r_duration_seconds = 60, r_expires_at = 100 * second, r_current_rpm = 0\<rparr>"

definition cloud_store :: fs_store where
  "cloud_store = \<lparr>fs_collection = ''proxy-rules'', fs_rules = [''a'' \<mapsto> cloud_rule], fs_pending = [], fs_stopped = False,
     fs_listening = True, fs_cleaning = True, fs_resetting = True\<rparr>"

definition cloud_config :: config where
  "cloud_config = zero_config\<lparr>cf_storage := (cf_storage zero_config)\<lparr>st_enabled := True\<rparr>\<rparr>"

definition cloud_registry :: registry where
  "cloud_registry = \<lparr>rg_plugins = [''storage-firestore'' \<mapsto> firestore_plugin], rg_storage = Some firestore_plugin\<rparr>"

lemma cloud_built:
  obtains a av w where "new_handler_with_deps demo_library (\<lambda>_. Inr key_target) 0 (\<lambda>_. Inr ()) (\<lambda>_. Inr cloud_store)
      [''storage-firestore''] cloud_registry cloud_config = Inr (a, av, w)" "w_store w = FirestoreStore cloud_store"
  by (simp add: new_handler_with_deps_def parse_targets_def cloud_config_def zero_config_def all_plugins_def cloud_registry_def
      build_with_plugins_def open_storage_def storage_backend_def validate_plugin_availability_def availability_checks_def
      get_plugin_def plugin_matcher_def plugin_app_def health_path_of_def)

section \<open>Startup\<close>

text \<open>
  C25. The flex program serves traffic only when its flags parse, health-check mode is off
  and the configuration the flags name loads and is usable; the server is then built from
  exactly that configuration. It exits with 0 only in health-check mode, when the check
  succeeds.
\<close>

theorem flex_starts_configured:
  "(case flex_main lib su rg args of
      Running a st \<Rightarrow> (\<exists>path c. parse_flags args = Inr (path, False)
         \<and> load (su_files su path) (su_toml su) (su_vars su) (su_metadata su) = Inr c
         \<and> config_ok c \<and> bh_cfg (ap_base a) = c)
    | Exited n \<Rightarrow> n \<in> {0, 1, 2} \<and> (n = 0) = (\<exists>path c. parse_flags args = Inr (path, True)
         \<and> load (su_files su path) (su_toml su) (su_vars su) (su_metadata su) = Inr c
         \<and> run_health_check (su_probe su) c = Inr ()))"
  using load_config_ok built_app
  by (fastforce simp: flex_main_def start_common_def is_ok_iff built_ok_def
      split: sum.splits prod.splits if_splits)


text \<open>A flex start with an admin API and one startup rule; no plugin needs to be registered for it.\<close>

definition loader_config :: config where
  "loader_config = zero_config\<lparr>cf_admin := \<lparr>ad_enabled = True,
     ad_jwt = zero_jwt\<lparr>jc_issuer := ''iss'', jc_audience := ''aud'', jc_allowed_emails := [''a@x'']\<rparr>\<rparr>\<rparr>"

definition loader_startup :: startup_env where
  "loader_startup = \<lparr>su_files = (\<lambda>_. Some []), su_toml = (\<lambda>_. Some loader_config),
     su_vars = [(env_throttle_rules, ''rules'')], su_metadata = NoReply [], su_probe = (\<lambda>_. Responded 200),
     su_parse_url = (\<lambda>_. Inr key_target), su_fs_check = (\<lambda>_. Inr ()), su_fs_open = (\<lambda>_. Inl []),
     su_unmarshal = (\<lambda>_. Inr [demo_persisted]), su_now = 0, su_loader_now = 0, su_store_now = 0, su_plugin_order = []\<rparr>"

definition loader_library :: library where
  "loader_library = demo_library\<lparr>lib_parse_time := \<lambda>_. Some (5 * second)\<rparr>"

lemma overrides_throttle_env: "apply_env_overrides [(''PROXY_THROTTLE_RULES'', x)] c = Inr c"
proof -
  have g: "getenv [(''PROXY_THROTTLE_RULES'', x)] v = []" if "v \<noteq> ''PROXY_THROTTLE_RULES''" for v
    using that by (simp add: getenv_def)
  have s: "env_string [(''PROXY_THROTTLE_RULES'', x)] v upd = Inr" if "v \<noteq> ''PROXY_THROTTLE_RULES''" for v upd
    using that by (simp add: env_string_def g fun_eq_iff)
  have p: "env_parsed pr [(''PROXY_THROTTLE_RULES'', x)] v upd = Inr" if "v \<noteq> ''PROXY_THROTTLE_RULES''"
    for pr v and upd :: "'a \<Rightarrow> config \<Rightarrow> config"
    using that by (simp add: env_parsed_def g fun_eq_iff)
  have m: "apply_map_overrides e v [(''PROXY_THROTTLE_RULES'', x)] = (\<lambda>t. t)" if "\<not> has_prefix ''PROXY_THROTTLE_RULES'' v" for e v
    using that by (simp add: fun_eq_iff)
  show ?thesis
    by (simp add: apply_env_overrides_def server_overrides_def security_overrides_def auth_overrides_def
        storage_admin_overrides_def s p env_map_def m)
qed

lemma loader_loads:
  obtains c where "load (Some []) (\<lambda>_. Some loader_config) [(env_throttle_rules, ''rules'')] (NoReply []) = Inr c"
    "ad_enabled (cf_admin c)" "\<not> st_enabled (cf_storage c)" "health_path_of c = ''/healthz''"
    "hc_target (sv_health_check (cf_server c)) = []" "ak_match (se_apikey_rate_limit (cf_security c)) = []"
proof -
  let ?env = "[(''PROXY_THROTTLE_RULES'', ''rules'')]"
  let ?c = "set_defaults ?env (NoReply []) loader_config"
  have g: "getenv ?env ''GOOGLE_CLOUD_PROJECT'' = []" by (simp add: getenv_def)
  have "validate ?c = Inr ()"
    by (simp add: validate_def set_defaults_def loader_config_def zero_config_def zero_jwt_def Let_def server_defaults_def
        security_defaults_def or_default_def or_default_str_def resolve_gcp_project_id_def g
        fetch_gcp_project_id_def jwt_defaults_def)
  then have "load (Some []) (\<lambda>_. Some loader_config) ?env (NoReply []) = Inr ?c"
    by (simp add: load_def overrides_throttle_env substitute_env_vars.simps[of _ "[]"] Let_def)
  then show thesis using that[of ?c]
    by (simp add: env_throttle_rules_def set_defaults_def loader_config_def zero_config_def Let_def server_defaults_def
        security_defaults_def resolve_gcp_project_id_def g fetch_gcp_project_id_def health_path_of_def or_default_str_def)
qed


text \<open>
  Without plugins nothing checks that a plugin is there: the lite program is built from
  any configuration whose URLs, match rules and health path are usable, also when it enables
  storage or the admin API; storage is then the memory, and the admin routes are served.
\<close>

theorem lite_build_ignores_plugin_sections:
  assumes "is_ok (parse_targets parse_url c)" and "health_path_of c \<noteq> ''/''"
    and "is_ok (new_request_matcher (lib_regex lib) (ak_match (se_apikey_rate_limit (cf_security c))))"
  shows "\<exists>a av w. new_handler_with_deps lib parse_url now chk opn [] empty_registry c = Inr (a, av, w)
    \<and> w_store w = MemoryStore new_memory_rule_store \<and> ap_admin a = ad_enabled (cf_admin c)"
proof -
  obtain tgs m where "parse_targets parse_url c = Inr tgs"
      "new_request_matcher (lib_regex lib) (ak_match (se_apikey_rate_limit (cf_security c))) = Inr m"
    using assms by (auto simp: is_ok_iff)
  then show ?thesis using assms(2)
    by (simp add: new_handler_with_deps_def all_plugins_def build_legacy_def)
qed

theorem lite_build_ignores_plugin_sections_witness:
  "(\<exists>a av w. new_handler_with_deps demo_library (\<lambda>_. Inr key_target) 0 (\<lambda>_. Inl []) (\<lambda>_. Inl []) [] empty_registry
      cloud_config = Inr (a, av, w) \<and> w_store w = MemoryStore new_memory_rule_store)
   \<and> validate_plugin_availability empty_registry cloud_config \<noteq> None"
proof -
  have "is_ok (parse_targets (\<lambda>_. Inr key_target) cloud_config)" "health_path_of cloud_config \<noteq> ''/''"
    "is_ok (new_request_matcher (lib_regex demo_library) (ak_match (se_apikey_rate_limit (cf_security cloud_config))))"
    by (simp_all add: parse_targets_def cloud_config_def zero_config_def health_path_of_def new_request_matcher_def)
  moreover have "validate_plugin_availability empty_registry cloud_config \<noteq> None"
    by (simp add: validate_plugin_availability_def availability_checks_def cloud_config_def zero_config_def
        storage_backend_def empty_registry_def get_plugin_def)
  ultimately show ?thesis using lite_build_ignores_plugin_sections by blast
qed

section \<open>Flags and the health check\<close>

text \<open>
  Both spellings of the path flag give the path back, whatever it is, the last one wins,
  and the first argument that is not a flag ends the flags.
\<close>

theorem flags_roundtrip:
  "parse_flags [''-config'', p, ''-healthcheck''] = Inr (p, True)"
  "parse_flags [''--config='' @ p] = Inr (p, False)"
  "parse_flags [''-config'', q, ''-config='' @ p] = Inr (p, False)"
  "parse_flags (''run'' # args) = Inr (default_config_path, False)"
proof -
  have sp: "split_flag ''config'' = (''config'', None)" "split_flag ''healthcheck'' = (''healthcheck'', None)"
    "split_flag (''config='' @ p) = (''config'', Some p)"
    by (simp_all add: split_flag_def)
  show "parse_flags [''-config'', p, ''-healthcheck''] = Inr (p, True)"
    using sp by (simp add: parse_flags_def)
  show "parse_flags [''--config='' @ p] = Inr (p, False)"
    using sp(3) by (simp add: parse_flags_def)
  show "parse_flags [''-config'', q, ''-config='' @ p] = Inr (p, False)"
    using sp by (simp add: parse_flags_def)
  show "parse_flags (''run'' # args) = Inr (default_config_path, False)"
    by (simp add: parse_flags_def)
qed

text \<open>
  The summary of the configuration that is logged at startup tells nothing of the API key and
  of the payload but whether there is a key and how many entries the payload has, and nothing
  of the claim filters but their number.
\<close>

definition with_secrets :: "string \<Rightarrow> (string \<rightharpoonup> string) \<Rightarrow> (string \<rightharpoonup> string) \<Rightarrow> config \<Rightarrow> config" where
  "with_secrets key payload filters c =
     c\<lparr>cf_auth := (cf_auth c)
        \<lparr>au_api_key := (au_api_key (cf_auth c))\<lparr>kc_value := key, kc_payload := payload\<rparr>,
         au_jwt := (au_jwt (cf_auth c))\<lparr>jc_filters := filters\<rparr>\<rparr>\<rparr>"

theorem summary_hides_secrets:
  assumes "(k1 = []) = (k2 = [])" and "card (dom p1) = card (dom p2)" and "card (dom f1) = card (dom f2)"
  shows "log_config_summary (with_secrets k1 p1 f1 c) = log_config_summary (with_secrets k2 p2 f2 c)"
  using assms by (simp add: log_config_summary_def with_secrets_def Let_def auth_modes_def)

theorem summary_hides_secrets_witness:
  "log_config_summary (with_secrets ''s3'' [''a'' \<mapsto> ''b''] Map.empty key_config)
   = log_config_summary (with_secrets ''other'' [''c'' \<mapsto> ''d''] Map.empty key_config)"
  by (rule summary_hides_secrets) simp_all

end
