(* ===== verification/Process.thy ===== *)
theory Process
  imports Store_Invariants
begin

text \<open>
  The running process, from the built handler to the exit of \<open>main\<close> (\<open>cmd/lite/main.go\<close>,
  \<open>cmd/flex/main.go\<close>): the HTTP server and its goroutine (\<open>runServer\<close>), the main goroutine that
  waits for a signal (\<open>awaitShutdown\<close>) and then for the server's result, the request handlers,
  and the background goroutines of the rule store.

  \<open>step\<close> is one event on the state of the process; \<open>None\<close> means that the event cannot happen
  there. A request is handled in one event. \<open>http.Server\<close> is standard library: what is used of
  it is that \<open>ListenAndServe\<close> returns an error when it cannot listen, \<open>ErrServerClosed\<close> once
  \<open>Shutdown\<close> was called, and otherwise serves.
\<close>

section \<open>The server's settings\<close>

record http_server =
  hs_addr :: string
  hs_read_header_timeout :: duration
  hs_read_timeout :: duration
  hs_write_timeout :: duration
  hs_idle_timeout :: duration

definition http_server_of :: "config \<Rightarrow> http_server" where
  "http_server_of c =
     \<lparr>hs_addr = '':'' @ int_string (sv_port (cf_server c)), hs_read_header_timeout = 10 * second,
      hs_read_timeout = 30 * second, hs_write_timeout = 60 * second, hs_idle_timeout = 120 * second\<rparr>"

text \<open>The lite program sets the same.\<close>

definition lite_http_server_of :: "config \<Rightarrow> http_server" where
  "lite_http_server_of c =
     \<lparr>hs_addr = '':'' @ int_string (sv_port (cf_server c)), hs_read_header_timeout = 10 * second,
      hs_read_timeout = 30 * second, hs_write_timeout = 60 * second, hs_idle_timeout = 120 * second\<rparr>"

lemma lite_http_server_agrees: "lite_http_server_of c = http_server_of c"
  by (simp add: lite_http_server_of_def http_server_of_def)

definition shutdown_timeout :: "config \<Rightarrow> duration" where
  "shutdown_timeout c = mul64 (sv_shutdown_timeout_secs (cf_server c)) second"

section \<open>The background goroutines of the rule store\<close>

definition any_cleanup_turn :: "time option \<Rightarrow> any_store \<Rightarrow> any_store" where
  "any_cleanup_turn tick s =
     (case s of MemoryStore m \<Rightarrow> MemoryStore (mem_cleanup_turn tick m)
      | FirestoreStore f \<Rightarrow> FirestoreStore (cleanup_turn tick f))"

definition any_reset_turn :: "bool \<Rightarrow> any_store \<Rightarrow> any_store" where
  "any_reset_turn tick s =
     (case s of MemoryStore m \<Rightarrow> MemoryStore (mem_reset_turn tick m)
      | FirestoreStore f \<Rightarrow> FirestoreStore (reset_turn tick f))"

definition any_snapshot :: "(string, rule_doc doc_change list) result \<Rightarrow> any_store \<Rightarrow> any_store" where
  "any_snapshot snap s =
     (case s of MemoryStore m \<Rightarrow> MemoryStore m | FirestoreStore f \<Rightarrow> FirestoreStore (listen_step Inr snap f))"

section \<open>The state of the process\<close>

datatype serve_end = ServerClosed | ServeError string

definition run_server :: "serve_end \<Rightarrow> (string, unit) result" where
  "run_server e = (case e of ServeError m \<Rightarrow> Inl m | ServerClosed \<Rightarrow> Inr ())"

text \<open>What the server goroutine of the lite program sends on the channel: the same.\<close>

definition lite_server_result :: "serve_end \<Rightarrow> (string, unit) result" where
  "lite_server_result e = (case e of ServeError m \<Rightarrow> Inl m | ServerClosed \<Rightarrow> Inr ())"

lemma lite_server_agrees: "lite_server_result e = run_server e"
  by (simp add: lite_server_result_def run_server_def)

text \<open>
  The server goroutine has not listened yet, listens, or has returned; the flag says whether
  it had accepted connections, whose handlers may still run.
\<close>

datatype server_phase = Starting | Listening | Finished bool

datatype main_phase = AwaitingSignal | ShuttingDown | AwaitingServer | Exited_main

text \<open>The phases of \<open>main\<close> in their order.\<close>

fun phase_rank :: "main_phase \<Rightarrow> nat" where
  "phase_rank AwaitingSignal = 0"
| "phase_rank ShuttingDown = 1"
| "phase_rank AwaitingServer = 2"
| "phase_rank Exited_main = 3"

lemma phase_rank_inj: "phase_rank a = phase_rank b \<Longrightarrow> a = b"
  by (cases a; cases b) simp_all

instantiation main_phase :: linorder
begin

definition less_eq_main_phase :: "main_phase \<Rightarrow> main_phase \<Rightarrow> bool" where
  "less_eq_main_phase a b \<longleftrightarrow> phase_rank a \<le> phase_rank b"

definition less_main_phase :: "main_phase \<Rightarrow> main_phase \<Rightarrow> bool" where
  "less_main_phase a b \<longleftrightarrow> phase_rank a < phase_rank b"

instance
  by standard (auto simp: less_eq_main_phase_def less_main_phase_def phase_rank_inj)

end

record process =
  pr_app :: app
  pr_state :: state
  pr_main :: main_phase
  pr_server :: server_phase
  pr_closing :: bool \<comment> \<open>\<open>Shutdown\<close> was called\<close>
  pr_errors :: "(string, unit) result option" \<comment> \<open>the channel \<open>shutdownErrors\<close>, of capacity one\<close>

definition launch :: "app \<Rightarrow> state \<Rightarrow> process" where
  "launch a st =
     \<lparr>pr_app = a, pr_state = st, pr_main = AwaitingSignal, pr_server = Starting, pr_closing = False, pr_errors = None\<rparr>"

datatype event =
    Binds
  | BindFails string
  | AcceptFails string
  | Closes
  | Handles request_env request
  | Signalled
  | ShutdownReturns "string option"
  | MainReceives
  | CleanupTurn "time option"
  | ResetTurn bool
  | Snapshot "(string, rule_doc doc_change list) result"

definition server_returns :: "serve_end \<Rightarrow> bool \<Rightarrow> process \<Rightarrow> process" where
  "server_returns e accepted p = p\<lparr>pr_server := Finished accepted, pr_errors := Some (run_server e)\<rparr>"

definition with_store :: "(any_store \<Rightarrow> any_store) \<Rightarrow> process \<Rightarrow> process" where
  "with_store f p = p\<lparr>pr_state := apsnd (\<lambda>w. w\<lparr>w_store := f (w_store w)\<rparr>) (pr_state p)\<rparr>"

section \<open>The goroutines\<close>

fun server_step :: "event \<Rightarrow> process \<Rightarrow> process option" where
  "server_step Binds p =
     (if pr_server p = Starting \<and> \<not> pr_closing p then Some (p\<lparr>pr_server := Listening\<rparr>) else None)"
| "server_step (BindFails e) p =
     (if pr_server p = Starting \<and> \<not> pr_closing p then Some (server_returns (ServeError e) False p) else None)"
| "server_step (AcceptFails e) p =
     (if pr_server p = Listening \<and> \<not> pr_closing p then Some (server_returns (ServeError e) True p) else None)"
| "server_step Closes p =
     (if pr_closing p \<and> pr_server p \<in> {Starting, Listening}
      then Some (server_returns ServerClosed (pr_server p = Listening) p) else None)"
| "server_step ev p = None"

text \<open>An error of \<open>Shutdown\<close> and an error of the server are logged only.\<close>

fun main_step :: "event \<Rightarrow> process \<Rightarrow> process option" where
  "main_step Signalled p =
     (if pr_main p = AwaitingSignal then Some (p\<lparr>pr_main := ShuttingDown, pr_closing := True\<rparr>) else None)"
| "main_step (ShutdownReturns err) p =
     (if pr_main p = ShuttingDown then Some (p\<lparr>pr_main := AwaitingServer\<rparr>) else None)"
| "main_step MainReceives p =
     (if pr_main p = AwaitingServer \<and> pr_errors p \<noteq> None
      then Some (p\<lparr>pr_main := Exited_main, pr_errors := None, pr_state := stop_fn (pr_state p)\<rparr>) else None)"
| "main_step ev p = None"

fun background_step :: "event \<Rightarrow> process \<Rightarrow> process option" where
  "background_step (CleanupTurn tick) p = Some (with_store (any_cleanup_turn tick) p)"
| "background_step (ResetTurn tick) p = Some (with_store (any_reset_turn tick) p)"
| "background_step (Snapshot snap) p = Some (with_store (any_snapshot snap) p)"
| "background_step ev p = None"

fun handler_step :: "library \<Rightarrow> (request \<Rightarrow> control_request option) \<Rightarrow> event \<Rightarrow> process \<Rightarrow> process option" where
  "handler_step lib decode (Handles ev r) p =
     (if pr_server p \<in> {Listening, Finished True}
      then Some (p\<lparr>pr_state := snd (serve lib decode (pr_app p) ev r (pr_state p))\<rparr>) else None)"
| "handler_step lib decode ev p = None"

text \<open>When \<open>main\<close> has returned, the process is gone and nothing happens any more.\<close>

definition step :: "library \<Rightarrow> (request \<Rightarrow> control_request option) \<Rightarrow> event \<Rightarrow> process \<Rightarrow> process option" where
  "step lib decode ev p =
     (if pr_main p = Exited_main then None
      else case ev of
        Handles e r \<Rightarrow> handler_step lib decode ev p
      | CleanupTurn t \<Rightarrow> background_step ev p
      | ResetTurn t \<Rightarrow> background_step ev p
      | Snapshot s \<Rightarrow> background_step ev p
      | Signalled \<Rightarrow> main_step ev p
      | ShutdownReturns e \<Rightarrow> main_step ev p
      | MainReceives \<Rightarrow> main_step ev p
      | _ \<Rightarrow> server_step ev p)"

fun run :: "library \<Rightarrow> (request \<Rightarrow> control_request option) \<Rightarrow> event list \<Rightarrow> process \<Rightarrow> process option" where
  "run lib decode [] p = Some p"
| "run lib decode (e # es) p = Option.bind (step lib decode e p) (run lib decode es)"

lemma run_append: "run lib decode (xs @ ys) p = Option.bind (run lib decode xs p) (run lib decode ys)"
proof (induction xs arbitrary: p)
  case (Cons x xs)
  then show ?case by (cases "step lib decode x p") simp_all
qed simp

text \<open>The states a process can reach from its launch.\<close>

inductive reachable :: "library \<Rightarrow> (request \<Rightarrow> control_request option) \<Rightarrow> process \<Rightarrow> process \<Rightarrow> bool"
  for lib decode p0 where
  launched: "reachable lib decode p0 p0"
| stepped: "reachable lib decode p0 p \<Longrightarrow> step lib decode ev p = Some p' \<Longrightarrow> reachable lib decode p0 p'"

inductive_cases reachable_cases: "reachable lib decode p0 p"

lemma run_reachable: "run lib decode es p = Some p' \<Longrightarrow> reachable lib decode p0 p \<Longrightarrow> reachable lib decode p0 p'"
proof (induction es arbitrary: p)
  case (Cons e es)
  then show ?case by (auto simp: Option.bind_eq_Some_conv intro: stepped)
qed simp

lemmas step_defs = step_def server_returns_def with_store_def

end
