(* ===== verification/Process_Claims.thy ===== *)
theory Process_Claims
  imports Process Server_Claims
begin

text \<open>
  The theorems about the running process: what holds in every state it can reach, through
  requests, ticks of the background goroutines, snapshots and the shutdown; what it has sent
  upstream; and how it ends.
\<close>

section \<open>How the process ends\<close>

definition is_control :: "event \<Rightarrow> bool" where
  "is_control ev \<longleftrightarrow>
     (case ev of Handles e r \<Rightarrow> False | CleanupTurn t \<Rightarrow> False | ResetTurn t \<Rightarrow> False | Snapshot s \<Rightarrow> False | _ \<Rightarrow> True)"

fun server_rank :: "server_phase \<Rightarrow> nat" where
  "server_rank Starting = 2"
| "server_rank Listening = 1"
| "server_rank (Finished b) = 0"

definition control_rank :: "process \<Rightarrow> nat" where
  "control_rank p = (phase_rank Exited_main - phase_rank (pr_main p)) + server_rank (pr_server p)"

lemma step_rank:
  assumes "step lib decode ev p = Some p'"
  shows "if is_control ev then control_rank p' < control_rank p else control_rank p' = control_rank p"
  using assms
  by (cases ev) (auto simp: step_defs is_control_def control_rank_def split: if_splits)

text \<open>\<open>main\<close> never goes back to an earlier phase.\<close>

lemma step_advances: "step lib decode ev p = Some p' \<Longrightarrow> pr_main p \<le> pr_main p'"
  by (cases ev) (auto simp: step_defs less_eq_main_phase_def split: if_splits)

lemma run_advances: "run lib decode es p = Some p' \<Longrightarrow> pr_main p \<le> pr_main p'"
proof (induction es arbitrary: p)
  case (Cons e es)
  then obtain q where "step lib decode e p = Some q" "run lib decode es q = Some p'"
    by (auto simp: Option.bind_eq_Some_conv)
  then show ?case using Cons.IH step_advances order_trans by blast
qed simp

lemma past_signal: "pr_main p \<noteq> AwaitingSignal \<longleftrightarrow> ShuttingDown \<le> pr_main p"
  by (cases "pr_main p") (simp_all add: less_eq_main_phase_def)

text \<open>What holds of the goroutines in every reachable state.\<close>

definition process_ok :: "process \<Rightarrow> bool" where
  "process_ok p \<longleftrightarrow>
     (pr_closing p \<longleftrightarrow> pr_main p \<noteq> AwaitingSignal)
   \<and> (pr_main p \<noteq> Exited_main \<longrightarrow> (pr_errors p \<noteq> None \<longleftrightarrow> (\<exists>b. pr_server p = Finished b)))
   \<and> (any_stopped (w_store (snd (pr_state p))) \<longleftrightarrow> pr_main p = Exited_main)"

lemma any_stop_stopped [simp]: "any_stopped (any_stop s)"
  by (simp add: any_stopped_def any_stop_def stop_def fs_stop_def split: any_store.split)

lemma fold_changes_stopped: "fs_stopped (fold (apply_change data_to) cs f) = fs_stopped f"
proof (induction cs arbitrary: f)
  case (Cons ch cs)
  have "fs_stopped (apply_change data_to ch f) = fs_stopped f"
    by (cases ch) (auto simp: upsert_doc_def Let_def split: sum.splits)
  then show ?case using Cons.IH[of "apply_change data_to ch f"] by simp
qed simp

lemma turns_stopped [simp]:
  "any_stopped (any_cleanup_turn tick s) = any_stopped s" "any_stopped (any_reset_turn b s) = any_stopped s"
  "any_stopped (any_snapshot snap s) = any_stopped s"
  by (auto simp: any_stopped_def any_cleanup_turn_def any_reset_turn_def any_snapshot_def mem_cleanup_turn_def
      mem_reset_turn_def cleanup_turn_def reset_turn_def listen_step_def delete_expired_def reset_all_rpm_def
      fs_delete_expired_def fs_reset_all_rpm_def fold_changes_stopped split: any_store.split option.split sum.split)

lemma step_app: "step lib decode ev p = Some p' \<Longrightarrow> pr_app p' = pr_app p"
  by (cases ev) (auto simp: step_defs split: if_splits)

lemma step_ok:
  assumes "known_app lib (pr_app p)" and "process_ok p" and "step lib decode ev p = Some p'"
  shows "process_ok p'"
proof (cases ev)
  case (Handles e r)
  have "any_stopped (w_store (snd (snd (serve lib decode (pr_app p) e r (pr_state p)))))
      = any_stopped (w_store (snd (pr_state p)))"
    by (rule stopped.serve_keeps[OF assms(1) refl])
  then show ?thesis using assms(2,3) Handles by (auto simp: step_defs process_ok_def split: if_splits)
qed (use assms(2,3) in \<open>auto simp: step_defs process_ok_def stop_fn_def case_prod_beta split: if_splits\<close>)

lemma reachable_ok:
  assumes "reachable lib decode p0 p" and "known_app lib (pr_app p0)" and "process_ok p0"
  shows "process_ok p \<and> pr_app p = pr_app p0"
  using assms(1)
proof induction
  case (stepped p ev p')
  then show ?case using step_ok[of lib p decode ev p'] step_app[of lib decode ev p p'] assms(2) by simp
qed (use assms(3) in simp)

lemma launch_ok: "\<not> any_stopped (w_store (snd st)) \<Longrightarrow> process_ok (launch a st)"
  by (simp add: process_ok_def launch_def)

text \<open>Whoever moves next: after the signal the process can always go on to its end.\<close>

lemma control_enabled:
  assumes "process_ok p" and "pr_main p \<notin> {AwaitingSignal, Exited_main}"
  shows "\<exists>ev p'. is_control ev \<and> step lib decode ev p = Some p'"
proof (cases "pr_main p")
  case ShuttingDown
  then have "step lib decode (ShutdownReturns None) p \<noteq> None" by (simp add: step_def)
  moreover have "is_control (ShutdownReturns None)" by (simp add: is_control_def)
  ultimately show ?thesis by blast
next
  case AwaitingServer
  show ?thesis
  proof (cases "pr_errors p")
    case None
    then have "pr_server p \<in> {Starting, Listening}" using assms AwaitingServer
      by (cases "pr_server p") (auto simp: process_ok_def)
    then have "step lib decode Closes p \<noteq> None" using assms AwaitingServer by (auto simp: step_def process_ok_def)
    moreover have "is_control Closes" by (simp add: is_control_def)
    ultimately show ?thesis by blast
  next
    case (Some r)
    then have "step lib decode MainReceives p \<noteq> None" using AwaitingServer by (simp add: step_def)
    moreover have "is_control MainReceives" by (simp add: is_control_def)
    ultimately show ?thesis by blast
  qed
qed (use assms in auto)

lemma run_reaches: "run lib decode es p = Some p' \<Longrightarrow> reachable lib decode p p'"
  by (rule run_reachable[OF _ launched])

lemma runs_to_the_end:
  assumes "known_app lib (pr_app p)" and "process_ok p" and "pr_main p \<noteq> AwaitingSignal"
  shows "\<exists>es p'. list_all is_control es \<and> length es \<le> control_rank p \<and> run lib decode es p = Some p' \<and> pr_main p' = Exited_main"
  using assms
proof (induction "control_rank p" arbitrary: p rule: less_induct)
  case less
  show ?case
  proof (cases "pr_main p = Exited_main")
    case True
    then have "list_all is_control [] \<and> length ([] :: event list) \<le> control_rank p \<and> run lib decode [] p = Some p" by simp
    then show ?thesis using True by blast
  next
    case False
    then obtain ev q where q: "is_control ev" "step lib decode ev p = Some q"
      using control_enabled[of p lib decode] less.prems by auto
    have r: "control_rank q < control_rank p" using step_rank[OF q(2)] q(1) by simp
    have ok: "known_app lib (pr_app q)" "process_ok q"
      using step_app[OF q(2)] step_ok[OF less.prems(1,2) q(2)] less.prems(1) by simp_all
    have "pr_main q \<noteq> AwaitingSignal" using step_advances[OF q(2)] less.prems(3) past_signal order_trans by metis
    from less.hyps[OF r ok this] obtain es p' where
      es: "list_all is_control es" "length es \<le> control_rank q" "run lib decode es q = Some p'" "pr_main p' = Exited_main" by blast
    have "list_all is_control (ev # es) \<and> length (ev # es) \<le> control_rank p \<and> run lib decode (ev # es) p = Some p'"
      using es q r by simp
    then show ?thesis using es(4) by blast
  qed
qed

text \<open>
  C23. After the signal the process ends: in every state that a launched process reaches, the
  store is stopped exactly when \<open>main\<close> has returned; once a signal was received, \<open>main\<close> can
  always go on and returns within four control events, whatever requests, ticks and
  snapshots come between them, since each control event lowers the rank and no other event
  raises it; and \<open>main\<close> never goes back to an earlier phase.
\<close>

theorem signal_ends_the_process:
  assumes "new_handler_with_deps lib parse_url now chk opn ks rg c = Inr (a, st)"
    and "\<And>f. opn c = Inr f \<Longrightarrow> \<not> fs_stopped f"
    and "reachable lib decode (launch a st) p"
  shows "(any_stopped (w_store (snd (pr_state p))) \<longleftrightarrow> pr_main p = Exited_main)
    \<and> (pr_main p = AwaitingSignal \<or> control_rank p \<le> 4
       \<and> (\<exists>es p'. list_all is_control es \<and> length es \<le> control_rank p \<and> run lib decode es p = Some p' \<and> pr_main p' = Exited_main))
    \<and> (\<forall>ev p'. step lib decode ev p = Some p' \<longrightarrow>
         control_rank p' \<le> control_rank p \<and> (is_control ev \<longrightarrow> control_rank p' < control_rank p))
    \<and> (\<forall>es p'. run lib decode es p = Some p' \<longrightarrow> pr_main p \<le> pr_main p')"
proof -
  have "\<not> any_stopped (w_store (snd st))"
    by (rule built_store_has[where P = "\<lambda>s. \<not> any_stopped s", OF assms(1)])
      (simp_all add: any_stopped_def assms(2) new_memory_rule_store_def)
  then have "process_ok (launch a st)" by (rule launch_ok)
  moreover have "known_app lib (pr_app (launch a st))" using known_built[OF assms(1)] by (simp add: launch_def)
  ultimately have ok: "process_ok p" "known_app lib (pr_app p)"
    using reachable_ok[OF assms(3)] by (simp_all add: launch_def)
  have "control_rank p \<le> 4" if "pr_main p \<noteq> AwaitingSignal"
    using that by (cases "pr_main p"; cases "pr_server p") (simp_all add: control_rank_def)
  moreover have "any_stopped (w_store (snd (pr_state p))) \<longleftrightarrow> pr_main p = Exited_main"
    using ok(1) by (simp add: process_ok_def)
  moreover have "control_rank p' \<le> control_rank p \<and> (is_control ev \<longrightarrow> control_rank p' < control_rank p)"
    if "step lib decode ev p = Some p'" for ev p'
    using step_rank[OF that] by (auto split: if_splits)
  ultimately show ?thesis using runs_to_the_end[OF ok(2,1)] run_advances by blast
qed

section \<open>A server that cannot listen\<close>

lemma dead_step:
  assumes "pr_server p = Finished False" and "pr_main p = AwaitingSignal" and "ev \<noteq> Signalled"
    and "step lib decode ev p = Some p'"
  shows "pr_server p' = Finished False \<and> pr_main p' = AwaitingSignal \<and> pr_errors p' = pr_errors p
    \<and> w_sent (snd (pr_state p')) = w_sent (snd (pr_state p)) \<and> w_access (snd (pr_state p')) = w_access (snd (pr_state p))
    \<and> (\<forall>e r. ev \<noteq> Handles e r)"
  using assms by (cases ev) (auto simp: step_defs case_prod_beta split: if_splits)

lemma dead_run:
  assumes "run lib decode es p = Some p'" and "pr_server p = Finished False" and "pr_main p = AwaitingSignal"
    and "Signalled \<notin> set es"
  shows "pr_main p' = AwaitingSignal \<and> pr_errors p' = pr_errors p \<and> w_sent (snd (pr_state p')) = w_sent (snd (pr_state p))
    \<and> w_access (snd (pr_state p')) = w_access (snd (pr_state p)) \<and> (\<forall>e r. Handles e r \<notin> set es)"
  using assms
proof (induction es arbitrary: p)
  case (Cons ev es)
  then obtain q where q: "step lib decode ev p = Some q" "run lib decode es q = Some p'"
    by (auto simp: Option.bind_eq_Some_conv)
  have "ev \<noteq> Signalled" using Cons.prems(4) by auto
  from dead_step[OF Cons.prems(2,3) this q(1)] Cons.IH[OF q(2)] Cons.prems(4) show ?case by auto
qed simp

text \<open>
  C38. A server that cannot listen is not noticed: when the address is in use, the error waits
  in the channel while \<open>main\<close> waits for a signal, so until someone signals it the process
  stays up, handles no request at all, and does not exit.
\<close>

theorem bind_failure_goes_unnoticed:
  assumes "run lib decode (BindFails e # es) (launch a st) = Some p" and "Signalled \<notin> set es"
  shows "pr_main p = AwaitingSignal \<and> pr_errors p = Some (Inl e) \<and> w_sent (snd (pr_state p)) = w_sent (snd st)
    \<and> w_access (snd (pr_state p)) = w_access (snd st) \<and> (\<forall>ev r. Handles ev r \<notin> set es)"
proof -
  obtain q where q: "step lib decode (BindFails e) (launch a st) = Some q" "run lib decode es q = Some p"
    using assms(1) by (auto simp: Option.bind_eq_Some_conv)
  then have "pr_server q = Finished False" "pr_main q = AwaitingSignal" "pr_errors q = Some (Inl e)" "pr_state q = st"
    by (auto simp: step_defs launch_def run_server_def)
  with dead_run[OF q(2) _ _ assms(2)] show ?thesis by simp
qed

section \<open>What the process has sent\<close>

lemma admin_guarded_sent:
  assumes "\<And>r w. w_sent (snd (nxt r w)) = w_sent w"
  shows "w_sent (snd (snd (admin_guarded lib a ev nxt r (av, w)))) = w_sent w"
  using assms by (simp add: admin_guarded_def admin_auth_middleware_def Let_def case_prod_beta split: sum.split)

lemma built_sends_nothing:
  "new_handler_with_deps lib parse_url now chk opn ks rg c = Inr (a, st) \<Longrightarrow> w_sent (snd st) = []"
  by (auto simp: new_handler_with_deps_def build_with_plugins_def plugin_app_def build_legacy_def bind_result_Inr_iff
      split: if_splits sum.splits option.splits)

text \<open>A program that starts to serve runs a handler that was built, and has sent nothing.\<close>

lemma running_program:
  assumes "flex_main lib su rg args = Running a st \<or> lite_main lib su rg args = Running a st"
  shows "w_sent (snd st) = [] \<and> (\<exists>c st0. new_handler_with_deps lib (su_parse_url su) (su_now su) (su_fs_check su) (su_fs_open su)
      (su_plugin_order su) rg c = Inr (a, st0))"
proof -
  obtain c st0 where s: "start_common lib su rg args = Inr (c, a, st0)" and st: "st = st0 \<or> st = load_startup_rules lib su st0"
    using assms by (auto simp: flex_main_def lite_main_def split: sum.splits)
  then have b: "new_handler_with_deps lib (su_parse_url su) (su_now su) (su_fs_check su) (su_fs_open su)
      (su_plugin_order su) rg c = Inr (a, st0)"
    by (auto simp: start_common_def split: sum.splits prod.splits if_splits)
  have "w_sent (snd (load_startup_rules lib su st0)) = w_sent (snd st0)"
    by (simp add: load_startup_rules_def case_prod_beta)
  then have "w_sent (snd st) = []" using st built_sends_nothing[OF b] by auto
  then show ?thesis using b by blast
qed

text \<open>
  The reasons for which a request may be sent upstream: the health check passes a request to
  its configured target, or credentials justify a pipeline request as the handler sees it.
\<close>

definition accounts_for :: "library \<Rightarrow> app \<Rightarrow> request_env \<Rightarrow> request \<Rightarrow> any_store world \<Rightarrow> request \<Rightarrow> bool" where
  "accounts_for lib a ev r w out \<longleftrightarrow>
     (mux_route a r = Health \<and> (\<exists>tg. bh_health_target (ap_base a) = Some tg \<and> out = outbound tg [] True r))
   \<or> (mux_route a r = Pipeline \<and> (\<exists>j headers.
        justified lib (ap_base a) ev (seen_request lib (bh_cfg (ap_base a)) j r) (w_jwt w) headers
        \<and> out = sent_for (ap_base a) ev (seen_request lib (bh_cfg (ap_base a)) j r) headers))"

lemma serve_sends:
  assumes "new_handler_with_deps lib parse_url now chk opn ks rg c = Inr (a, st)" and "orders_ok ev"
    and "out \<in> set (w_sent (snd (snd (serve lib decode a ev r s))))"
  shows "out \<in> set (w_sent (snd s)) \<or> accounts_for lib a ev r (snd s) out"
proof -
  obtain av w resp av' w' where s: "s = (av, w)" and q: "serve lib decode a ev r (av, w) = (resp, av', w')"
    by (metis surj_pair)
  have c: "bh_cfg (ap_base a) = c" using built_app[OF assms(1)] by (simp add: built_ok_def)
  have out: "out \<in> set (w_sent w')" using assms(3) s q by simp
  show ?thesis
  proof (cases "mux_route a r")
    case Pipeline
    show ?thesis
      by (rule served_cases[OF assms(1,2) Pipeline q])
        (use out s c Pipeline in \<open>auto simp: accounts_for_def\<close>)
  next
    case Health
    then have "w' = snd (handle_health (ap_base a) ev r w)" using q by (auto simp: serve_def split: prod.splits)
    then show ?thesis using out s Health
      by (auto simp: handle_health_def send_upstream_def accounts_for_def split: option.splits if_splits)
  next
    case AdminControl
    then have "w_sent w' = w_sent w"
      using q admin_guarded_sent[of "admin_control_handler lib decode ev" lib a ev r av w]
      by (simp add: serve_def admin_control_handler_def case_prod_beta)
    then show ?thesis using out s by simp
  next
    case AdminStatus
    then have "w_sent w' = w_sent w"
      using q admin_guarded_sent[of "admin_status_handler lib ev" lib a ev r av w]
      by (simp add: serve_def admin_status_handler_def)
    then show ?thesis using out s by simp
  next
    case (RedirectTo x)
    then show ?thesis using out s q by (simp add: serve_def)
  qed
qed

definition event_orders_ok :: "event \<Rightarrow> bool" where
  "event_orders_ok e = (case e of Handles ev r \<Rightarrow> orders_ok ev | _ \<Rightarrow> True)"

lemma step_sends:
  assumes "new_handler_with_deps lib parse_url now chk opn ks rg c = Inr (pr_app p, st)" and "event_orders_ok e"
    and "step lib decode e p = Some p'" and "out \<in> set (w_sent (snd (pr_state p')))"
    and "out \<notin> set (w_sent (snd (pr_state p)))"
  obtains ev r where "e = Handles ev r" "accounts_for lib (pr_app p) ev r (snd (pr_state p)) out"
proof (cases e)
  case (Handles ev r)
  then have "out \<in> set (w_sent (snd (snd (serve lib decode (pr_app p) ev r (pr_state p)))))"
    using assms(3,4) by (auto simp: step_defs split: if_splits)
  moreover have "orders_ok ev" using assms(2) Handles by (simp add: event_orders_ok_def)
  ultimately have "accounts_for lib (pr_app p) ev r (snd (pr_state p)) out"
    using serve_sends[OF assms(1)] assms(5) by blast
  then show thesis using that Handles by blast
qed (use assms(3-5) in \<open>auto simp: step_defs stop_fn_def case_prod_beta split: if_splits\<close>)

lemma run_sends:
  assumes "new_handler_with_deps lib parse_url now chk opn ks rg c = Inr (pr_app p, st)"
    and "list_all event_orders_ok es" and "run lib decode es p = Some p'"
    and "out \<in> set (w_sent (snd (pr_state p')))" and "out \<notin> set (w_sent (snd (pr_state p)))"
  shows "\<exists>pre ev r post q. es = pre @ Handles ev r # post \<and> run lib decode pre p = Some q
    \<and> accounts_for lib (pr_app p) ev r (snd (pr_state q)) out"
  using assms
proof (induction es arbitrary: p)
  case (Cons e es)
  obtain q where q: "step lib decode e p = Some q" "run lib decode es q = Some p'"
    using Cons.prems(3) by (auto simp: Option.bind_eq_Some_conv)
  have app: "pr_app q = pr_app p" using step_app[OF q(1)] .
  show ?case
  proof (cases "out \<in> set (w_sent (snd (pr_state q)))")
    case True
    have "event_orders_ok e" using Cons.prems(2) by simp
    from step_sends[OF Cons.prems(1) this q(1) True Cons.prems(5)] obtain ev r where
      "e = Handles ev r" "accounts_for lib (pr_app p) ev r (snd (pr_state p)) out" .
    then have "e # es = [] @ Handles ev r # es \<and> run lib decode [] p = Some p
      \<and> accounts_for lib (pr_app p) ev r (snd (pr_state p)) out" by simp
    then show ?thesis by blast
  next
    case False
    have "list_all event_orders_ok es" using Cons.prems(2) by simp
    from Cons.IH[OF _ this q(2) Cons.prems(4) False] Cons.prems(1) app obtain pre ev r post p1 where
      r: "es = pre @ Handles ev r # post" "run lib decode pre q = Some p1"
        "accounts_for lib (pr_app p) ev r (snd (pr_state p1)) out" by auto
    have "e # es = (e # pre) @ Handles ev r # post \<and> run lib decode (e # pre) p = Some p1
      \<and> accounts_for lib (pr_app p) ev r (snd (pr_state p1)) out" using r q(1) by simp
    then show ?thesis by blast
  qed
qed simp

text \<open>
  C1. Over the whole life of a process, whatever requests, ticks, snapshots and signals come
  in whatever order, every request that was ever sent upstream is accounted for: there is a
  client request in the trace, handled in the state the process had then, that is either a
  health check passed to its configured target, or a pipeline request that credentials
  accepted in that state justify, and what was sent is exactly that request with exactly
  those credentials' headers.
\<close>

theorem everything_sent_is_accounted_for:
  assumes "new_handler_with_deps lib parse_url now chk opn ks rg c = Inr (a, st0)" and "w_sent (snd st) = []"
    and "list_all event_orders_ok es"
    and "run lib decode es (launch a st) = Some p" and "out \<in> set (w_sent (snd (pr_state p)))"
  shows "\<exists>pre ev r post q. es = pre @ Handles ev r # post \<and> run lib decode pre (launch a st) = Some q
    \<and> accounts_for lib a ev r (snd (pr_state q)) out"
proof -
  have "out \<notin> set (w_sent (snd (pr_state (launch a st))))" using assms(2) by (simp add: launch_def)
  moreover have "pr_app (launch a st) = a" by (simp add: launch_def)
  ultimately show ?thesis using run_sends[of lib parse_url now chk opn ks rg c "launch a st" st0 es decode p out] assms by simp
qed

section \<open>Where requests go\<close>

lemma canonical_header_del: "canonical_header h \<Longrightarrow> canonical_header (header_del h k)"
  by (auto simp: canonical_header_def header_del_def split: if_splits)

lemma canonical_delete: "canonical_header h \<Longrightarrow> canonical_header (delete_headers ks h)"
  unfolding delete_headers_def by (induction ks arbitrary: h) (simp_all add: canonical_header_del)

lemma canonical_apply: "canonical_header h \<Longrightarrow> canonical_header (apply_headers ks vs h)"
  unfolding apply_headers_def
  by (induction ks arbitrary: h) (auto simp: canonical_header_set split: option.split)

lemma canonical_strip: "canonical_header h \<Longrightarrow> canonical_header (strip_headers_with_prefix h prefix)"
  by (auto simp: canonical_header_def strip_headers_with_prefix_def split: if_splits)

lemma proxy_keys_canonical: "canonical_key ''X-Forwarded-For'' = ''X-Forwarded-For''" "canonical_key ''User-Agent'' = ''User-Agent''"
  by code_simp+

lemma canonical_outbound: "canonical_header (rq_headers r) \<Longrightarrow> canonical_header (outbound_headers r)"
  using canonical_delete[of "rq_headers r" "connection_tokens (rq_headers r) @ hop_headers"]
  by (auto simp: outbound_headers_def add_forwarded_for_def Let_def canonical_header_def proxy_keys_canonical
      split: option.splits list.splits prod.splits if_splits)

lemma canonical_sent:
  "canonical_header (rq_headers r) \<Longrightarrow> canonical_header (rq_headers (sent_for h ev (seen_request lib c j r) headers))"
  by (simp add: sent_for_def outbound_def with_headers_def seen_request_def canonical_outbound canonical_apply canonical_strip)

definition goes_to :: "target \<Rightarrow> request \<Rightarrow> bool" where
  "goes_to tg out \<longleftrightarrow> rq_url_scheme out = tg_scheme tg \<and> rq_url_host out = tg_host tg \<and> rq_host out = tg_host tg"

lemma outbound_goes_to: "goes_to tg (outbound tg sp ex r) \<and> rq_method (outbound tg sp ex r) = rq_method r"
  by (simp add: goes_to_def outbound_def director_def Let_def)

lemma accounted_address:
  assumes "accounts_for lib a ev r w out" and "canonical_header (rq_headers r)"
  shows "canonical_header (rq_headers out) \<and> rq_method out = rq_method r
    \<and> (goes_to (bh_target (ap_base a)) out \<or> (\<exists>tg. bh_health_target (ap_base a) = Some tg \<and> goes_to tg out))"
proof -
  consider tg where "bh_health_target (ap_base a) = Some tg" "out = outbound tg [] True r"
    | j headers where "out = sent_for (ap_base a) ev (seen_request lib (bh_cfg (ap_base a)) j r) headers"
    using assms(1) by (auto simp: accounts_for_def)
  then show ?thesis
  proof cases
    case (1 tg)
    then show ?thesis using assms(2) outbound_goes_to[of tg "[]" True r]
      by (simp add: outbound_def canonical_outbound)
  next
    case (2 j headers)
    have "rq_method out = rq_method r \<and> goes_to (bh_target (ap_base a)) out"
      using outbound_goes_to unfolding 2 sent_for_def by (simp add: with_headers_def seen_request_def)
    then show ?thesis using canonical_sent[OF assms(2)] 2 by blast
  qed
qed

lemma built_targets:
  assumes "new_handler_with_deps lib parse_url now chk opn ks rg c = Inr (a, st)"
  shows "parse_targets parse_url c = Inr (bh_target (ap_base a), bh_health_target (ap_base a))"
proof -
  obtain tgs where t: "parse_targets parse_url c = Inr tgs"
    and "build_with_plugins lib now chk opn ks rg c tgs = Inr (a, st) \<or> build_legacy lib now c tgs = Inr (a, st)"
    using assms by (auto simp: new_handler_with_deps_def bind_result_Inr_iff split: if_splits)
  then have "bh_target (ap_base a) = fst tgs \<and> bh_health_target (ap_base a) = snd tgs"
    by (auto simp: build_with_plugins_def plugin_app_def build_legacy_def split: sum.splits option.splits)
  then show ?thesis using t by simp
qed

text \<open>
  C24. Every request that a process ever sends goes to one of the two addresses that its
  configuration names, with the method of a client request of the trace, and is well formed:
  its header map has canonical keys, if those of the client requests do. Nothing a client
  sends chooses another destination.
\<close>

theorem requests_go_to_configured_targets:
  assumes "new_handler_with_deps lib parse_url now chk opn ks rg c = Inr (a, st0)" and "w_sent (snd st) = []"
    and "list_all event_orders_ok es" and "\<And>ev r. Handles ev r \<in> set es \<Longrightarrow> canonical_header (rq_headers r)"
    and "run lib decode es (launch a st) = Some p" and "out \<in> set (w_sent (snd (pr_state p)))"
  shows "\<exists>tg htg ev r. parse_targets parse_url c = Inr (tg, htg) \<and> Handles ev r \<in> set es
    \<and> rq_method out = rq_method r \<and> canonical_header (rq_headers out)
    \<and> (goes_to tg out \<or> (\<exists>t. htg = Some t \<and> goes_to t out))"
proof -
  have "out \<notin> set (w_sent (snd (pr_state (launch a st))))" using assms(2) by (simp add: launch_def)
  moreover have "pr_app (launch a st) = a" by (simp add: launch_def)
  ultimately obtain pre ev r post q where t: "es = pre @ Handles ev r # post"
    and "accounts_for lib a ev r (snd (pr_state q)) out" and "run lib decode pre (launch a st) = Some q"
    using run_sends[of lib parse_url now chk opn ks rg c "launch a st" st0 es decode p out] assms(1,3,5,6) by auto
  moreover have "Handles ev r \<in> set es" using t by simp
  ultimately show ?thesis
    using accounted_address[of lib a ev r "snd (pr_state q)" out] assms(4) built_targets[OF assms(1)] by blast
qed

section \<open>The rules of the process\<close>

text \<open>
  A document that holds a valid rule. The documents that instances of this program write are
  of this kind, because only valid rules are on their way to the collection.
\<close>

definition doc_valid :: "rule_doc \<Rightarrow> bool" where
  "doc_valid d \<longleftrightarrow> rule_valid (doc_to_rule d)"

lemma written_documents_valid:
  "write_valid w \<Longrightarrow> run_write now coll w = CallSet coll' rid d \<Longrightarrow> doc_valid d \<and> rd_rule_id d = rid"
  by (cases w) (auto simp: run_write_def doc_valid_def doc_to_rule_def rule_to_doc_def reset_rpm_def rule_valid_def)

fun change_valid :: "rule_doc doc_change \<Rightarrow> bool" where
  "change_valid (DocAdded d) = doc_valid d"
| "change_valid (DocModified d) = doc_valid d"
| "change_valid (DocRemoved rid) = True"

definition event_docs_valid :: "event \<Rightarrow> bool" where
  "event_docs_valid e = (case e of Snapshot (Inr cs) \<Rightarrow> list_all change_valid cs | _ \<Rightarrow> True)"

lemma change_keeps_valid:
  assumes "change_valid ch" and "rules_valid (fs_rules f)"
  shows "rules_valid (fs_rules (apply_change Inr ch f))"
  using assms
  by (cases ch) (auto simp: upsert_doc_def Let_def rules_valid_def doc_valid_def)

lemma changes_keep_valid:
  "list_all change_valid cs \<Longrightarrow> rules_valid (fs_rules f) \<Longrightarrow> rules_valid (fs_rules (fold (apply_change Inr) cs f))"
  by (induction cs arbitrary: f) (simp_all add: change_keeps_valid)

lemma reset_keeps_valid: "rules_valid rs \<Longrightarrow> rules_valid (\<lambda>k. map_option reset_rpm (rs k))"
  by (auto simp: rules_valid_def reset_rpm_def counting_keeps_valid)

lemma drop_keeps_valid: "rules_valid rs \<Longrightarrow> rules_valid (keep_entries P rs)"
  by (auto simp: rules_valid_def keep_entries_def split: option.splits if_splits)

lemmas turn_defs = any_cleanup_turn_def any_reset_turn_def any_snapshot_def mem_cleanup_turn_def mem_reset_turn_def
  cleanup_turn_def reset_turn_def listen_step_def

lemma turns_keep_valid:
  "store_valid s \<Longrightarrow> store_valid (any_cleanup_turn tick s)" "store_valid s \<Longrightarrow> store_valid (any_reset_turn b s)"
  by (auto simp: store_valid_def any_rules_def turn_defs delete_expired_def fs_delete_expired_def reset_all_rpm_def
      fs_reset_all_rpm_def drop_keeps_valid reset_keeps_valid split: any_store.splits option.splits)

lemma snapshot_keeps_valid:
  "store_valid s \<Longrightarrow> event_docs_valid (Snapshot snap) \<Longrightarrow> store_valid (any_snapshot snap s)"
  by (auto simp: store_valid_def any_rules_def any_snapshot_def listen_step_def event_docs_valid_def changes_keep_valid
      split: any_store.splits sum.splits)

lemma changes_keep_pending: "fs_pending (fold (apply_change data_to) cs f) = fs_pending f"
proof (induction cs arbitrary: f)
  case (Cons ch cs)
  have "fs_pending (apply_change data_to ch f) = fs_pending f"
    by (cases ch) (auto simp: upsert_doc_def Let_def split: sum.splits)
  then show ?case using Cons.IH[of "apply_change data_to ch f"] by simp
qed simp

lemma turns_keep_writes [simp]:
  "writes_valid (any_cleanup_turn tick s) = writes_valid s" "writes_valid (any_reset_turn b s) = writes_valid s"
  "writes_valid (any_snapshot snap s) = writes_valid s"
  by (auto simp: writes_valid_def turn_defs fs_delete_expired_def fs_reset_all_rpm_def changes_keep_pending
      split: any_store.splits option.splits sum.splits)

lemma stop_keeps [simp]:
  "store_valid (any_stop s) = store_valid s" "writes_valid (any_stop s) = writes_valid s"
  by (auto simp: any_stop_def stop_def fs_stop_def store_valid_def any_rules_def writes_valid_def split: any_store.splits)

lemma step_keeps_store:
  assumes "known_app lib (pr_app p)" and "event_docs_valid ev" and "step lib decode ev p = Some p'"
    and "store_valid (w_store (snd (pr_state p)))" and "writes_valid (w_store (snd (pr_state p)))"
  shows "store_valid (w_store (snd (pr_state p'))) \<and> writes_valid (w_store (snd (pr_state p')))"
proof (cases ev)
  case (Handles e r)
  then have "pr_state p' = snd (serve lib decode (pr_app p) e r (pr_state p))"
    using assms(3) by (auto simp: step_defs split: if_splits)
  then show ?thesis
    using valid.serve_keeps[OF assms(1,4)] writes.serve_keeps[OF assms(1,5)] by simp
qed (use assms in \<open>auto simp: step_defs stop_fn_def case_prod_beta turns_keep_valid snapshot_keeps_valid split: if_splits\<close>)

lemma run_keeps_store:
  assumes "run lib decode es p = Some p'" and "known_app lib (pr_app p)" and "list_all event_docs_valid es"
    and "store_valid (w_store (snd (pr_state p)))" and "writes_valid (w_store (snd (pr_state p)))"
  shows "store_valid (w_store (snd (pr_state p'))) \<and> writes_valid (w_store (snd (pr_state p')))"
  using assms
proof (induction es arbitrary: p)
  case (Cons e es)
  obtain q where q: "step lib decode e p = Some q" "run lib decode es q = Some p'"
    using Cons.prems(1) by (auto simp: Option.bind_eq_Some_conv)
  have "event_docs_valid e" using Cons.prems(3) by simp
  from step_keeps_store[OF Cons.prems(2) this q(1) Cons.prems(4,5)] show ?case
    using Cons.IH[OF q(2)] step_app[OF q(1)] Cons.prems(2,3) by simp
qed simp


section \<open>Runs\<close>

theorem signal_ends_the_process_witness:
  "\<exists>a st p es p'. new_handler_with_deps demo_library (\<lambda>_. Inr key_target) 0 (\<lambda>_. Inr ()) (\<lambda>_. Inr cloud_store)
      [''storage-firestore''] cloud_registry cloud_config = Inr (a, st)
    \<and> run demo_library (\<lambda>_. None) [Binds, Signalled] (launch a st) = Some p
    \<and> run demo_library (\<lambda>_. None) es p = Some p' \<and> length es \<le> 4 \<and> pr_main p' = Exited_main"
proof -
  obtain a av w where b: "new_handler_with_deps demo_library (\<lambda>_. Inr key_target) 0 (\<lambda>_. Inr ()) (\<lambda>_. Inr cloud_store)
      [''storage-firestore''] cloud_registry cloud_config = Inr (a, av, w)" by (rule cloud_built)
  let ?p0 = "launch a (av, w)"
  obtain p where p: "run demo_library (\<lambda>_. None) [Binds, Signalled] ?p0 = Some p" "pr_main p = ShuttingDown"
    by (simp add: step_defs launch_def)
  have s: "\<not> fs_stopped cloud_store" by (simp add: cloud_store_def)
  have "reachable demo_library (\<lambda>_. None) ?p0 p" using p(1) by (rule run_reaches)
  from signal_ends_the_process[OF b _ this] s p(2) obtain es p' where
    "run demo_library (\<lambda>_. None) es p = Some p'" "pr_main p' = Exited_main" "length es \<le> control_rank p" "control_rank p \<le> 4"
    by auto
  then show ?thesis using b p(1) le_trans by blast
qed

theorem bind_failure_goes_unnoticed_witness:
  "\<exists>p. run demo_library (\<lambda>_. None) [BindFails ''address in use'', ResetTurn True, CleanupTurn (Some 5)]
      (launch key_app (new_validator zero_jwt, key_world)) = Some p
    \<and> pr_main p = AwaitingSignal \<and> pr_errors p = Some (Inl ''address in use'')"
proof -
  let ?es = "[ResetTurn True, CleanupTurn (Some 5)]"
  obtain p where p: "run demo_library (\<lambda>_. None) (BindFails ''address in use'' # ?es)
      (launch key_app (new_validator zero_jwt, key_world)) = Some p"
    by (simp add: step_defs launch_def)
  from bind_failure_goes_unnoticed[OF p] show ?thesis using p by simp
qed

lemma key_sent: "w_sent (snd (new_validator zero_jwt, key_world)) = []"
  by (simp add: key_world_def)

lemma key_run:
  obtains p out where "run demo_library (\<lambda>_. None) [Binds, Handles key_env key_request]
      (launch key_app (new_validator zero_jwt, key_world)) = Some p" "out \<in> set (w_sent (snd (pr_state p)))"
proof -
  obtain resp av' w' where s: "serve demo_library (\<lambda>_. None) key_app key_env key_request (new_validator zero_jwt, key_world) = (resp, av', w')"
    and ne: "w_sent w' \<noteq> w_sent key_world" by (rule key_served)
  obtain out where "out \<in> set (w_sent w')"
    using ne by (cases "w_sent w'") (auto simp: key_world_def)
  then show thesis using that s by (simp add: step_defs launch_def)
qed

theorem everything_sent_is_accounted_for_witness:
  "\<exists>p out. run demo_library (\<lambda>_. None) [Binds, Handles key_env key_request]
      (launch key_app (new_validator zero_jwt, key_world)) = Some p
    \<and> out \<in> set (w_sent (snd (pr_state p)))
    \<and> (\<exists>w. accounts_for demo_library key_app key_env key_request w out)"
proof -
  let ?p0 = "launch key_app (new_validator zero_jwt, key_world)"
  let ?es = "[Binds, Handles key_env key_request]"
  obtain p out where p: "run demo_library (\<lambda>_. None) ?es ?p0 = Some p" "out \<in> set (w_sent (snd (pr_state p)))"
    by (rule key_run)
  have ok: "list_all event_orders_ok ?es" using key_orders by (simp add: event_orders_ok_def)
  from everything_sent_is_accounted_for[OF key_built key_sent ok p] obtain pre ev r post q where
    t: "?es = pre @ Handles ev r # post" "run demo_library (\<lambda>_. None) pre ?p0 = Some q"
      "accounts_for demo_library key_app ev r (snd (pr_state q)) out" by blast
  then have "Handles ev r \<in> set ?es" by (metis in_set_conv_decomp)
  then have "ev = key_env \<and> r = key_request" by simp
  then show ?thesis using p t(3) by auto
qed

theorem requests_go_to_configured_targets_witness:
  "\<exists>p out. run demo_library (\<lambda>_. None) [Binds, Handles key_env key_request]
      (launch key_app (new_validator zero_jwt, key_world)) = Some p
    \<and> out \<in> set (w_sent (snd (pr_state p))) \<and> rq_url_host out = ''up''"
proof -
  let ?p0 = "launch key_app (new_validator zero_jwt, key_world)"
  let ?es = "[Binds, Handles key_env key_request]"
  obtain p out where p: "run demo_library (\<lambda>_. None) ?es ?p0 = Some p" "out \<in> set (w_sent (snd (pr_state p)))"
    by (rule key_run)
  have ok: "list_all event_orders_ok ?es" using key_orders by (simp add: event_orders_ok_def)
  have can: "\<And>ev r. Handles ev r \<in> set ?es \<Longrightarrow> canonical_header (rq_headers r)" using key_request_canonical by auto
  have "parse_targets (\<lambda>_. Inr key_target) key_config = Inr (key_target, None)"
    by (simp add: parse_targets_def key_config_def zero_config_def)
  with requests_go_to_configured_targets[OF key_built key_sent ok can p] have "goes_to key_target out" by auto
  then show ?thesis using p by (auto simp: goes_to_def key_target_def)
qed


end
