(* ===== verification/Rate_Claims.thy ===== *)
theory Rate_Claims
  imports Process_Claims Limiter_Claims "HOL-Library.Multiset"
begin

text \<open>
  The limit per client address, from the limiter through the middleware and the server to the
  running process: how often a process forwards requests of one address within a minute.

  The middleware in front of the address limiter and behind it leaves that limiter alone
  (\<open>leaves_ip\<close>); a request of a process therefore asks the limiter at most once, and what the
  process does with the limiter over a run is a run of \<open>allow\<close> (\<open>run_asks\<close>).
\<close>

section \<open>A rejected request gives its slot back\<close>

lemma handle_rate_limited_restores:
  "handle_rate_limited name n l w = (rate_limit_response n, put_limiter name l w)"
proof -
  have "(case release_delay_slot sem l1 of None \<Rightarrow> l1 | Some l2 \<Rightarrow> l2) = l"
    if acquired: "try_acquire_delay_slot l = (True, sem, l1)" for sem l1
  proof -
    obtain i where i: "rl_delay_sem l = Some i" and sem: "sem = Some i"
      and l1: "l1 = l\<lparr>rl_sems := (rl_sems l)[i := (rl_sems l ! i)\<lparr>sem_used := Suc (sem_used (rl_sems l ! i))\<rparr>]\<rparr>"
      using acquired by (auto simp: try_acquire_delay_slot_def Let_def split: option.splits if_splits)
    show ?thesis
      by (cases "i < length (rl_sems l)") (simp_all add: sem l1 release_delay_slot_def list_update_beyond Let_def)
  qed
  moreover have "l1 = l" if "try_acquire_delay_slot l = (False, sem, l1)" for sem l1
    using that by (auto simp: try_acquire_delay_slot_def Let_def split: option.splits if_splits)
  ultimately show ?thesis by (auto simp: handle_rate_limited_def split: prod.splits bool.splits)
qed

lemma limit_key_cases:
  assumes "allow (ev_now ev) key l = (ok, retry, l')"
  shows "limit_key name l key ev nxt r w
    = (if ok then nxt r (put_limiter name l' w) else (rate_limit_response retry, put_limiter name l' w))"
  using assms by (simp add: limit_key_def handle_rate_limited_restores)

section \<open>Middleware that leaves the address limiter alone\<close>

definition same_ip :: "'s world \<Rightarrow> 's world \<Rightarrow> bool" where
  "same_ip w w' \<longleftrightarrow> w_limiters w' ''ip'' = w_limiters w ''ip'' \<and> w_sent w' = w_sent w"

lemma same_ip_simps [simp]:
  "same_ip w w" "same_ip w (w\<lparr>w_store := s\<rparr>)" "name \<noteq> ''ip'' \<Longrightarrow> same_ip w (put_limiter name l w)"
  by (simp_all add: same_ip_def put_limiter_def)

text \<open>A request the limiter of JWT subjects may mark as identified.\<close>

definition may_be_identified :: "library \<Rightarrow> request \<Rightarrow> bool" where
  "may_be_identified lib r \<longleftrightarrow> rq_jwt_identified r = Some True
     \<or> extract_bearer_sub lib (header_get (rq_headers r) ''Authorization'') \<noteq> []"

definition leaves_ip :: "library \<Rightarrow> 's middleware \<Rightarrow> bool" where
  "leaves_ip lib mw \<longleftrightarrow> (\<forall>nxt r w.
     (\<exists>resp w'. mw nxt r w = (resp, w') \<and> same_ip w w')
   \<or> (\<exists>j w'. mw nxt r w = nxt (r\<lparr>rq_jwt_identified := j\<rparr>) w' \<and> same_ip w w' \<and> (j = Some True \<longrightarrow> may_be_identified lib r)))"

lemma leaves_ip_pass:
  assumes "mw nxt r w = nxt r w'" and "same_ip w w'"
  shows "(\<exists>resp w'. mw nxt r w = (resp, w') \<and> same_ip w w')
   \<or> (\<exists>j w'. mw nxt r w = nxt (r\<lparr>rq_jwt_identified := j\<rparr>) w' \<and> same_ip w w' \<and> (j = Some True \<longrightarrow> may_be_identified lib r))"
  using assms by (intro disjI2 exI[of _ "rq_jwt_identified r"] exI[of _ w']) (simp add: may_be_identified_def)

lemma dynamic_leaves_ip: "leaves_ip lib (dynamic_rule_check checker ev)"
  unfolding leaves_ip_def
proof (intro allI)
  fix nxt r w
  show "(\<exists>resp w'. dynamic_rule_check checker ev nxt r w = (resp, w') \<and> same_ip w w')
   \<or> (\<exists>j w'. dynamic_rule_check checker ev nxt r w = nxt (r\<lparr>rq_jwt_identified := j\<rparr>) w' \<and> same_ip w w'
        \<and> (j = Some True \<longrightarrow> may_be_identified lib r))"
  proof (cases checker)
    case None
    then have "dynamic_rule_check checker ev nxt r w = nxt r w" by (simp add: dynamic_rule_check_def)
    then show ?thesis by (rule leaves_ip_pass) simp
  next
    case (Some dc)
    obtain ok s' where d: "dc (ev_rule_order ev) (ev_now ev) (rq_host r) (rq_path r) (w_store w) = (ok, s')" by fastforce
    show ?thesis
    proof (cases ok)
      case True
      then have "dynamic_rule_check checker ev nxt r w = nxt r (w\<lparr>w_store := s'\<rparr>)"
        using Some d by (simp add: dynamic_rule_check_def)
      then show ?thesis by (rule leaves_ip_pass) simp
    qed (use Some d in \<open>simp add: dynamic_rule_check_def\<close>)
  qed
qed

lemma limit_key_leaves_ip:
  assumes "name \<noteq> ''ip''"
  shows "(\<exists>resp w'. limit_key name l key ev nxt r w = (resp, w') \<and> same_ip w w')
   \<or> (\<exists>w'. limit_key name l key ev nxt r w = nxt r w' \<and> same_ip w w')"
proof -
  obtain ok retry l' where "allow (ev_now ev) key l = (ok, retry, l')" by (cases "allow (ev_now ev) key l")
  from limit_key_cases[OF this] show ?thesis using assms same_ip_simps(3) by metis
qed

lemma api_key_leaves_ip: "leaves_ip lib (api_key_rate_limit lib' ''apikey'' m kh inc ev)"
  unfolding leaves_ip_def
proof (intro allI)
  fix nxt r and w :: "'a world"
  let ?mw = "api_key_rate_limit lib' ''apikey'' m kh inc ev"
  have "?mw nxt r w = nxt r w \<or> (\<exists>l key. ?mw nxt r w = limit_key ''apikey'' l key ev nxt r w)"
    by (auto simp: api_key_rate_limit_def split: option.splits)
  then consider "?mw nxt r w = nxt r w" | resp w' where "?mw nxt r w = (resp, w')" "same_ip w w'"
    | w' where "?mw nxt r w = nxt r w'" "same_ip w w'"
    using limit_key_leaves_ip[of "''apikey''" _ _ ev nxt r w] by fastforce
  then show "(\<exists>resp w'. ?mw nxt r w = (resp, w') \<and> same_ip w w')
   \<or> (\<exists>j w'. ?mw nxt r w = nxt (r\<lparr>rq_jwt_identified := j\<rparr>) w' \<and> same_ip w w' \<and> (j = Some True \<longrightarrow> may_be_identified lib r))"
  proof cases
    case 1
    then show ?thesis by (rule leaves_ip_pass) simp
  next
    case 2
    then show ?thesis by blast
  next
    case 3
    then show ?thesis by (rule leaves_ip_pass)
  qed
qed

lemma jwt_leaves_ip: "leaves_ip lib (jwt_rate_limit lib ''jwt'' inc ev)"
  unfolding leaves_ip_def
proof (intro allI)
  fix nxt r and w :: "'a world"
  let ?mw = "jwt_rate_limit lib ''jwt'' inc ev"
  have "?mw nxt r w = nxt r w
    \<or> may_be_identified lib r \<and> (\<exists>l key. ?mw nxt r w = limit_key ''jwt'' l key ev nxt (r\<lparr>rq_jwt_identified := Some True\<rparr>) w)"
    by (auto simp: jwt_rate_limit_def may_be_identified_def Let_def split: option.splits)
  then consider "?mw nxt r w = nxt r w"
    | l key where "?mw nxt r w = limit_key ''jwt'' l key ev nxt (r\<lparr>rq_jwt_identified := Some True\<rparr>) w" "may_be_identified lib r"
    by blast
  then show "(\<exists>resp w'. ?mw nxt r w = (resp, w') \<and> same_ip w w')
   \<or> (\<exists>j w'. ?mw nxt r w = nxt (r\<lparr>rq_jwt_identified := j\<rparr>) w' \<and> same_ip w w' \<and> (j = Some True \<longrightarrow> may_be_identified lib r))"
  proof cases
    case 1
    then show ?thesis by (rule leaves_ip_pass) simp
  next
    case 2
    then show ?thesis
      using limit_key_leaves_ip[of "''jwt''" l key ev nxt "r\<lparr>rq_jwt_identified := Some True\<rparr>" w] by fastforce
  qed
qed

lemmas leaves_ip_rules = dynamic_leaves_ip api_key_leaves_ip jwt_leaves_ip

lemma leaves_ip_list:
  assumes "\<forall>mw \<in> set mws. leaves_ip lib mw"
  shows "(\<exists>resp w'. apply_middleware nxt mws r w = (resp, w') \<and> same_ip w w')
   \<or> (\<exists>j w'. apply_middleware nxt mws r w = nxt (r\<lparr>rq_jwt_identified := j\<rparr>) w' \<and> same_ip w w'
        \<and> (j = Some True \<longrightarrow> may_be_identified lib r))"
  using assms
proof (induction mws arbitrary: r w)
  case Nil
  have "apply_middleware nxt [] r w = nxt r w" by simp
  then show ?case by (rule leaves_ip_pass) simp
next
  case (Cons mw mws)
  have "leaves_ip lib mw" using Cons.prems by simp
  then consider
      resp w' where "mw (apply_middleware nxt mws) r w = (resp, w')" "same_ip w w'"
    | j w' where "mw (apply_middleware nxt mws) r w = apply_middleware nxt mws (r\<lparr>rq_jwt_identified := j\<rparr>) w'" "same_ip w w'"
        "j = Some True \<longrightarrow> may_be_identified lib r"
    unfolding leaves_ip_def by blast
  then show ?case
  proof cases
    case 1
    then show ?thesis by auto
  next
    case 2
    have "\<forall>mw \<in> set mws. leaves_ip lib mw" using Cons.prems by simp
    from Cons.IH[OF this, of "r\<lparr>rq_jwt_identified := j\<rparr>" w'] show ?thesis
      using 2 by (auto simp: same_ip_def may_be_identified_def)
  qed
qed


section \<open>One request\<close>

text \<open>
  What a request may do to the address limiter: ask it at most once, for its own address, and
  when the limit applies to it, be sent upstream only if the limiter lets it pass.
\<close>

definition asks_once :: "time \<Rightarrow> string \<Rightarrow> bool \<Rightarrow> 's world \<Rightarrow> 's world \<Rightarrow> bool" where
  "asks_once now ip limited w w' \<longleftrightarrow> (\<forall>l. w_limiters w ''ip'' = Some l \<longrightarrow>
     (\<exists>calls. calls \<in> {[], [(now, ip)]} \<and> w_limiters w' ''ip'' = Some (state_after calls l)
        \<and> (limited \<longrightarrow> int (length (w_sent w')) - int (length (w_sent w)) \<le> allowed (key_answers ip (run_allow calls l)))))"

lemma asks_nothing: "same_ip w w' \<Longrightarrow> asks_once now ip limited w w'"
  unfolding asks_once_def same_ip_def by (intro allI impI exI[of _ "[]"]) (simp add: key_answers_def)

lemma asks_unlimited: "w_limiters w' ''ip'' = w_limiters w ''ip'' \<Longrightarrow> asks_once now ip False w w'"
  unfolding asks_once_def by (intro allI impI exI[of _ "[]"]) simp

text \<open>A handler that leaves the limiter alone and sends at most one request.\<close>

definition tame :: "'s world handler \<Rightarrow> bool" where
  "tame h \<longleftrightarrow> (\<forall>r w. w_limiters (snd (h r w)) ''ip'' = w_limiters w ''ip'' \<and> length (w_sent (snd (h r w))) \<le> Suc (length (w_sent w)))"

lemma tame_forward: "tame (forward h ev)"
  by (simp add: tame_def forward_def send_upstream_def)

lemma tame_serve_http: "tame (serve_http lib h ev)"
proof -
  have f: "w_limiters (snd (forward h ev r w)) = w_limiters w" "length (w_sent (snd (forward h ev r w))) = Suc (length (w_sent w))"
    for r and w :: "'a world" by (simp_all add: forward_def send_upstream_def)
  have "w_limiters (snd (serve_jwt lib h ev t r w)) = w_limiters w" "length (w_sent (snd (serve_jwt lib h ev t r w))) \<le> Suc (length (w_sent w))"
    for t r and w :: "'a world"
    by (simp_all add: serve_jwt_def f Let_def split: prod.splits sum.splits)
  moreover have "w_limiters (snd (serve_api_key h ev r w)) = w_limiters w" "length (w_sent (snd (serve_api_key h ev r w))) \<le> Suc (length (w_sent w))"
    for r and w :: "'a world"
    by (simp_all add: serve_api_key_def f split: sum.splits apikey_error.splits)
  ultimately show ?thesis
    by (simp add: tame_def serve_http_def f Let_def split: bool.splits option.splits sum.splits)
qed

lemma tame_list:
  assumes "\<forall>mw \<in> set mws. leaves_ip lib mw" and "tame h"
  shows "tame (apply_middleware h mws)"
  unfolding tame_def
proof (intro allI)
  fix r w
  from leaves_ip_list[OF assms(1), of h r w]
  show "w_limiters (snd (apply_middleware h mws r w)) ''ip'' = w_limiters w ''ip''
      \<and> length (w_sent (snd (apply_middleware h mws r w))) \<le> Suc (length (w_sent w))"
  proof (elim disjE exE conjE)
    fix j w' assume "apply_middleware h mws r w = h (r\<lparr>rq_jwt_identified := j\<rparr>) w'" and "same_ip w w'"
    then show ?thesis
      using assms(2)[unfolded tame_def, rule_format, of "r\<lparr>rq_jwt_identified := j\<rparr>" w'] by (simp add: same_ip_def)
  qed (simp add: same_ip_def)
qed

lemma ip_gate_asks:
  assumes "tame h" and "limited \<longrightarrow> \<not> (skip \<and> rq_jwt_identified r = Some True)"
  shows "asks_once (ev_now ev) (client_ip r) limited w (snd (ip_rate_limit ''ip'' skip ev h r w))"
  unfolding asks_once_def
proof (intro allI impI)
  fix l assume l: "w_limiters w ''ip'' = Some l"
  let ?w = "snd (ip_rate_limit ''ip'' skip ev h r w)"
  show "\<exists>calls. calls \<in> {[], [(ev_now ev, client_ip r)]} \<and> w_limiters ?w ''ip'' = Some (state_after calls l)
     \<and> (limited \<longrightarrow> int (length (w_sent ?w)) - int (length (w_sent w)) \<le> allowed (key_answers (client_ip r) (run_allow calls l)))"
  proof (cases "skip \<and> rq_jwt_identified r = Some True")
    case True
    then have "ip_rate_limit ''ip'' skip ev h r w = h r w" using l by (simp add: ip_rate_limit_def)
    then show ?thesis using assms l True by (intro exI[of _ "[]"]) (simp add: tame_def)
  next
    case False
    obtain ok retry l' where a: "allow (ev_now ev) (client_ip r) l = (ok, retry, l')" by (cases "allow (ev_now ev) (client_ip r) l")
    have gate: "ip_rate_limit ''ip'' skip ev h r w
      = (if ok then h r (put_limiter ''ip'' l' w) else (rate_limit_response retry, put_limiter ''ip'' l' w))"
      using False l limit_key_cases[OF a] by (auto simp: ip_rate_limit_def)
    have "w_limiters ?w ''ip'' = Some l'"
      using assms(1) unfolding gate tame_def by (simp add: put_limiter_def)
    moreover have "int (length (w_sent ?w)) - int (length (w_sent w)) \<le> (if ok then 1 else 0)"
      using assms(1)[unfolded tame_def, rule_format, of r "put_limiter ''ip'' l' w"] unfolding gate by (simp add: put_limiter_def)
    ultimately show ?thesis using a
      by (intro exI[of _ "[(ev_now ev, client_ip r)]"]) (simp add: key_answers_def)
  qed
qed

lemma client_ip_address: "rq_remote_addr r = rq_remote_addr r' \<Longrightarrow> client_ip r = client_ip r'"
  unfolding client_ip_def by (simp split: option.split)

lemma client_ip_marked [simp]:
  "client_ip (r\<lparr>rq_jwt_identified := j\<rparr>) = client_ip r" "client_ip (seen_request lib c j r) = client_ip r"
  by (rule client_ip_address, simp add: seen_request_def)+

definition one_ip_gate :: "library \<Rightarrow> app \<Rightarrow> bool" where
  "one_ip_gate lib a \<longleftrightarrow> (\<forall>ev. \<exists>pre post.
     ap_plugin_middleware a ev = pre @ ip_rate_limit ''ip'' (skip_if_jwt (bh_cfg (ap_base a))) ev # post
   \<and> (\<forall>mw \<in> set pre \<union> set post. leaves_ip lib mw))"

text \<open>The address limit applies to a request: it cannot be taken for one with a JWT.\<close>

definition ip_limited :: "library \<Rightarrow> config \<Rightarrow> request \<Rightarrow> bool" where
  "ip_limited lib c r \<longleftrightarrow>
     \<not> skip_if_jwt c \<or> \<not> may_be_identified lib (seen_request lib c (rq_jwt_identified r) r)"

lemma plugin_middleware_asks:
  assumes "one_ip_gate lib a" and "tame h"
    and "limited \<longrightarrow> \<not> skip_if_jwt (bh_cfg (ap_base a)) \<or> \<not> may_be_identified lib r"
  shows "asks_once (ev_now ev) (client_ip r) limited w (snd (apply_middleware h (ap_plugin_middleware a ev) r w))"
proof -
  let ?skip = "skip_if_jwt (bh_cfg (ap_base a))"
  obtain pre post where mws: "ap_plugin_middleware a ev = pre @ ip_rate_limit ''ip'' ?skip ev # post"
    and quiet: "\<forall>mw \<in> set pre. leaves_ip lib mw" "\<forall>mw \<in> set post. leaves_ip lib mw"
    using assms(1) unfolding one_ip_gate_def by (metis UnI1 UnI2)
  let ?inner = "ip_rate_limit ''ip'' ?skip ev (apply_middleware h post)"
  have inner: "asks_once (ev_now ev) (client_ip r') limited w' (snd (?inner r' w'))"
    if "limited \<longrightarrow> \<not> (?skip \<and> rq_jwt_identified r' = Some True)" for r' w'
    by (rule ip_gate_asks[OF tame_list[OF quiet(2) assms(2)] that])
  from leaves_ip_list[OF quiet(1), of ?inner r w] show ?thesis
  proof (elim disjE exE conjE)
    fix resp w' assume "apply_middleware ?inner pre r w = (resp, w')" "same_ip w w'"
    then show ?thesis by (simp add: mws asks_nothing)
  next
    fix j w' assume eq: "apply_middleware ?inner pre r w = ?inner (r\<lparr>rq_jwt_identified := j\<rparr>) w'" and same: "same_ip w w'"
      and j: "j = Some True \<longrightarrow> may_be_identified lib r"
    have "asks_once (ev_now ev) (client_ip r) limited w' (snd (?inner (r\<lparr>rq_jwt_identified := j\<rparr>) w'))"
      using inner[of "r\<lparr>rq_jwt_identified := j\<rparr>" w'] j assms(3) by auto
    then show ?thesis using same by (simp add: mws eq asks_once_def same_ip_def)
  qed
qed

lemma pipeline_asks:
  assumes "one_ip_gate lib a" and "limited \<longrightarrow> ip_limited lib (bh_cfg (ap_base a)) r"
  shows "asks_once (ev_now ev) (client_ip r) limited w (snd (pipeline lib a ev r w))"
proof -
  let ?c = "bh_cfg (ap_base a)" and ?h = "serve_http lib (ap_base a) ev"
  let ?r = "seen_request lib ?c (rq_jwt_identified r) r"
  let ?core = "if 0 < se_max_body_bytes (cf_security ?c) \<and> rq_has_body r \<and> se_max_body_bytes (cf_security ?c) < rq_content_length r
      then (too_large_response, w) else apply_middleware ?h (ap_plugin_middleware a ev) ?r w"
  have p: "pipeline lib a ev r w
      = (case ?core of (resp, w') \<Rightarrow> (resp, w'\<lparr>w_access := log_entry lib ?c r resp # w_access w'\<rparr>))"
    by (simp add: pipeline_def core_middleware_def request_logger_def body_limiter_def header_sanitizer_def
        path_filter_def seen_request_def log_entry_def)
  have "asks_once (ev_now ev) (client_ip r) limited w (snd ?core)"
    using plugin_middleware_asks[OF assms(1) tame_serve_http, of limited ?r ev w] assms(2) asks_nothing[of w w]
    by (auto simp: ip_limited_def)
  then show ?thesis by (simp add: p asks_once_def case_prod_beta)
qed


section \<open>A run of the process\<close>

definition no_reconfiguration :: "app \<Rightarrow> event \<Rightarrow> bool" where
  "no_reconfiguration a e \<longleftrightarrow> (case e of Handles ev r \<Rightarrow> mux_route a r \<noteq> AdminControl | _ \<Rightarrow> True)"

definition event_times :: "event \<Rightarrow> time list" where
  "event_times e = (case e of Handles ev r \<Rightarrow> [ev_now ev] | _ \<Rightarrow> [])"

definition clock_readings :: "event list \<Rightarrow> time list" where
  "clock_readings es = concat (map event_times es)"

lemma clock_readings_simps [simp]: "clock_readings [] = []" "clock_readings (e # es) = event_times e @ clock_readings es"
  by (simp_all add: clock_readings_def)

text \<open>The pipeline requests of the address \<open>ip\<close> to which the address limit applies.\<close>

definition counts :: "library \<Rightarrow> app \<Rightarrow> string \<Rightarrow> event \<Rightarrow> bool" where
  "counts lib a ip e \<longleftrightarrow> (case e of
     Handles ev r \<Rightarrow> mux_route a r = Pipeline \<and> client_ip r = ip \<and> ip_limited lib (bh_cfg (ap_base a)) r
   | _ \<Rightarrow> False)"

abbreviation sent_count :: "process \<Rightarrow> int" where
  "sent_count p \<equiv> int (length (w_sent (snd (pr_state p))))"

text \<open>How many requests upstream the counted events of a run add.\<close>

fun forwarded :: "library \<Rightarrow> (request \<Rightarrow> control_request option) \<Rightarrow> (event \<Rightarrow> bool) \<Rightarrow> event list \<Rightarrow> process \<Rightarrow> int" where
  "forwarded lib decode Q [] p = 0"
| "forwarded lib decode Q (e # es) p =
     (case step lib decode e p of
        None \<Rightarrow> 0
      | Some p' \<Rightarrow> (if Q e then sent_count p' - sent_count p else 0) + forwarded lib decode Q es p')"

abbreviation ip_limiter :: "process \<Rightarrow> limiter option" where
  "ip_limiter p \<equiv> w_limiters (snd (pr_state p)) ''ip''"

lemma run_allow_append: "run_allow (xs @ ys) l = run_allow xs l @ run_allow ys (state_after xs l)"
  by (induction xs arbitrary: l) (auto split: prod.splits)

lemma state_after_append: "state_after (xs @ ys) l = state_after ys (state_after xs l)"
  by (induction xs arbitrary: l) auto

lemma allowed_append: "allowed (xs @ ys) = allowed xs + allowed ys"
  by (induction xs) auto

lemma allowed_nonneg: "0 \<le> allowed xs"
  by (induction xs) auto

lemma key_answers_append: "key_answers k (xs @ ys) = key_answers k xs @ key_answers k ys"
  by (simp add: key_answers_def)

lemma admin_guarded_reads:
  assumes "\<And>r w. snd (nxt r w) = w"
  shows "snd (snd (admin_guarded lib a ev nxt r (av, w))) = w"
  using assms by (simp add: admin_guarded_def admin_auth_middleware_def Let_def case_prod_beta split: sum.split)

lemma serve_asks:
  assumes "one_ip_gate lib a" and "mux_route a r \<noteq> AdminControl"
  shows "asks_once (ev_now ev) (client_ip r) (mux_route a r = Pipeline \<and> ip_limited lib (bh_cfg (ap_base a)) r)
    (snd st) (snd (snd (serve lib decode a ev r st)))"
proof -
  obtain av w where st: "st = (av, w)" by fastforce
  show ?thesis
  proof (cases "mux_route a r")
    case Pipeline
    then show ?thesis using pipeline_asks[OF assms(1), of "ip_limited lib (bh_cfg (ap_base a)) r" r ev w]
      by (simp add: serve_def st case_prod_beta)
  next
    case AdminStatus
    have "snd (snd (admin_guarded lib a ev (admin_status_handler lib ev) r (av, w))) = w"
      by (rule admin_guarded_reads) (simp add: admin_status_handler_def)
    then show ?thesis using AdminStatus by (simp add: serve_def st asks_nothing)
  next
    case Health
    have "w_limiters (snd (handle_health (ap_base a) ev r w)) = w_limiters w"
      by (simp add: handle_health_def send_upstream_def split: option.split)
    then show ?thesis using Health by (simp add: serve_def st asks_unlimited case_prod_beta)
  next
    case (RedirectTo x)
    then show ?thesis by (simp add: serve_def st asks_nothing)
  qed (use assms(2) in simp)
qed

lemma step_asks:
  assumes "one_ip_gate lib (pr_app p)" and "no_reconfiguration (pr_app p) e"
    and "step lib decode e p = Some p'" and "ip_limiter p = Some l"
  obtains calls where "ip_limiter p' = Some (state_after calls l)"
    and "calls = [] \<or> (\<exists>t k. calls = [(t, k)] \<and> event_times e = [t])"
    and "counts lib (pr_app p) ip e \<longrightarrow> sent_count p' - sent_count p \<le> allowed (key_answers ip (run_allow calls l))"
proof (cases e)
  case (Handles ev r)
  let ?a = "pr_app p"
  let ?lim = "mux_route ?a r = Pipeline \<and> ip_limited lib (bh_cfg (ap_base ?a)) r"
  have "asks_once (ev_now ev) (client_ip r) ?lim (snd (pr_state p)) (snd (snd (serve lib decode ?a ev r (pr_state p))))"
    using serve_asks[OF assms(1)] assms(2) by (simp add: no_reconfiguration_def Handles)
  moreover have "pr_state p' = snd (serve lib decode ?a ev r (pr_state p))"
    using assms(3) by (auto simp: Handles step_defs split: if_splits)
  ultimately obtain calls where calls: "calls \<in> {[], [(ev_now ev, client_ip r)]}" "ip_limiter p' = Some (state_after calls l)"
    and sent: "?lim \<longrightarrow> sent_count p' - sent_count p \<le> allowed (key_answers (client_ip r) (run_allow calls l))"
    using assms(4) unfolding asks_once_def by auto
  have "counts lib ?a ip e \<longrightarrow> sent_count p' - sent_count p \<le> allowed (key_answers ip (run_allow calls l))"
    using sent by (auto simp: counts_def Handles)
  moreover have "calls = [] \<or> (\<exists>t k. calls = [(t, k)] \<and> event_times e = [t])"
    using calls(1) by (auto simp: event_times_def Handles)
  ultimately show thesis using that calls(2) by blast
next
qed (use assms(3,4) that[of "[]"] in \<open>auto simp: step_defs stop_fn_def counts_def case_prod_beta split: if_splits\<close>)

text \<open>Over a run the address limiter answers a run of \<open>allow\<close>, which bounds what is forwarded.\<close>

lemma run_asks:
  assumes "one_ip_gate lib (pr_app p)" and "list_all (no_reconfiguration (pr_app p)) es"
    and "run lib decode es p = Some p'" and "ip_limiter p = Some l"
  shows "\<exists>calls. ip_limiter p' = Some (state_after calls l) \<and> fst ` set calls \<subseteq> set (clock_readings es)
    \<and> (sorted_wrt (\<le>) (clock_readings es) \<longrightarrow> sorted_wrt (\<le>) (map fst calls))
    \<and> forwarded lib decode (counts lib (pr_app p) ip) es p \<le> allowed (key_answers ip (run_allow calls l))"
  using assms
proof (induction es arbitrary: p l)
  case Nil
  then show ?case by (intro exI[of _ "[]"]) (simp add: key_answers_def)
next
  case (Cons e es)
  obtain q where q: "step lib decode e p = Some q" "run lib decode es q = Some p'"
    using Cons.prems(3) by (auto simp: Option.bind_eq_Some_conv)
  have app: "pr_app q = pr_app p" using step_app[OF q(1)] .
  have "no_reconfiguration (pr_app p) e" using Cons.prems(2) by simp
  from step_asks[OF Cons.prems(1) this q(1) Cons.prems(4)]
  obtain c1 where c1: "ip_limiter q = Some (state_after c1 l)" "c1 = [] \<or> (\<exists>t k. c1 = [(t, k)] \<and> event_times e = [t])"
    "counts lib (pr_app p) ip e \<longrightarrow> sent_count q - sent_count p \<le> allowed (key_answers ip (run_allow c1 l))" .
  from Cons.IH[of q "state_after c1 l"] Cons.prems(1,2) q(2) c1(1)
  obtain c2 where c2: "ip_limiter p' = Some (state_after c2 (state_after c1 l))" "fst ` set c2 \<subseteq> set (clock_readings es)"
    "sorted_wrt (\<le>) (clock_readings es) \<longrightarrow> sorted_wrt (\<le>) (map fst c2)"
    "forwarded lib decode (counts lib (pr_app p) ip) es q \<le> allowed (key_answers ip (run_allow c2 (state_after c1 l)))"
    by (auto simp: app)
  have "forwarded lib decode (counts lib (pr_app p) ip) (e # es) p \<le> allowed (key_answers ip (run_allow (c1 @ c2) l))"
    using c1(3) c2(4) q(1) allowed_nonneg[of "key_answers ip (run_allow c1 l)"]
    by (auto simp: run_allow_append key_answers_append allowed_append)
  moreover have "fst ` set (c1 @ c2) \<subseteq> set (clock_readings (e # es))" using c1(2) c2(2) by auto
  moreover have "sorted_wrt (\<le>) (map fst (c1 @ c2))" if "sorted_wrt (\<le>) (clock_readings (e # es))"
    using that c1(2) c2(2,3) by (force simp: sorted_wrt_append)
  ultimately show ?case using c2(1) by (intro exI[of _ "c1 @ c2"]) (simp add: state_after_append)
qed


lemma run_app: "run lib decode es p = Some p' \<Longrightarrow> pr_app p' = pr_app p"
proof (induction es arbitrary: p)
  case (Cons e es)
  then show ?case by (auto simp: Option.bind_eq_Some_conv dest: step_app)
qed simp

section \<open>The limit of an address\<close>

lemma rate_limit_split:
  "rate_limit_middleware lib c m ev
   = [api_key_rate_limit lib ''apikey'' (Some m) (ak_key_header (se_apikey_rate_limit (cf_security c)))
        (ak_include_ip (se_apikey_rate_limit (cf_security c))) ev,
      jwt_rate_limit lib ''jwt'' (jl_include_ip (se_jwt_rate_limit (cf_security c))) ev]
     @ ip_rate_limit ''ip'' (skip_if_jwt c) ev # []"
  by (simp add: rate_limit_middleware_def)

lemma gate_legacy:
  assumes "build_legacy lib now c tgs = Inr (a, s)"
  shows "one_ip_gate lib a"
  unfolding one_ip_gate_def
proof
  fix ev
  obtain m where "ap_plugin_middleware a ev
      = dynamic_rule_check (if ad_enabled (cf_admin c) then Some any_decide else None) ev # rate_limit_middleware lib c m ev"
    and "bh_cfg (ap_base a) = c"
    using assms by (auto simp: build_legacy_def split: sum.splits)
  then have "ap_plugin_middleware a ev = (dynamic_rule_check (if ad_enabled (cf_admin c) then Some any_decide else None) ev
      # [api_key_rate_limit lib ''apikey'' (Some m) (ak_key_header (se_apikey_rate_limit (cf_security c)))
           (ak_include_ip (se_apikey_rate_limit (cf_security c))) ev,
         jwt_rate_limit lib ''jwt'' (jl_include_ip (se_jwt_rate_limit (cf_security c))) ev])
      @ ip_rate_limit ''ip'' (skip_if_jwt (bh_cfg (ap_base a))) ev # []"
    by (simp add: rate_limit_split)
  then show "\<exists>pre post. ap_plugin_middleware a ev = pre @ ip_rate_limit ''ip'' (skip_if_jwt (bh_cfg (ap_base a))) ev # post
      \<and> (\<forall>mw \<in> set pre \<union> set post. leaves_ip lib mw)"
    by (intro exI conjI) (assumption, auto simp: leaves_ip_rules)
qed

text \<open>The rate-limit plugin is registered: then it comes once in the middleware of a server.\<close>

lemma middleware_plugins_once:
  assumes "registry_ok rg" and "range_order ks (rg_plugins rg)" and "get_plugin n rg = Some p" and "pl_middleware p"
  obtains xs ys where "of_type pl_middleware ks rg = xs @ p # ys" and "\<forall>q \<in> set xs \<union> set ys. pl_name q \<noteq> n"
proof -
  let ?all = "map (\<lambda>k. the (rg_plugins rg k)) ks"
  let ?ps = "of_type pl_middleware ks rg"
  have ks: "distinct ks" "set ks = dom (rg_plugins rg)" using assms(2) by (auto simp: range_order_def)
  have name: "pl_name p = n" and reg: "rg_plugins rg n = Some p"
    using assms(1,3) by (auto simp: registry_ok_def get_plugin_def)
  have "map pl_name ?all = ks"
    using ks(2) assms(1) by (auto simp: registry_ok_def intro!: map_idI)
  then have "distinct (map pl_name (filter pl_middleware ?all))"
    using ks(1) by (metis distinct_map_filter)
  moreover have "mset (map pl_name ?ps) = mset (map pl_name (filter pl_middleware ?all))" by (simp add: of_type_def)
  ultimately have d: "distinct (map pl_name ?ps)" by (metis mset_eq_imp_distinct_iff)
  have "n \<in> set ks" using ks(2) reg by auto
  then have "p \<in> set ?ps" using reg assms(4) by (force simp: of_type_def)
  then obtain xs ys where ps: "?ps = xs @ p # ys" by (meson split_list)
  have "pl_name ` (set xs \<union> set ys) \<subseteq> - {n}" using d name by (auto simp: ps)
  then have "\<forall>q \<in> set xs \<union> set ys. pl_name q \<noteq> n" by auto
  then show thesis using that ps by blast
qed

lemma other_middleware_leaves_ip:
  assumes "pl_name q \<noteq> ''ratelimit''" and "mw \<in> set (build_middleware lib c m q ev)"
  shows "leaves_ip lib mw"
  using assms by (auto simp: build_middleware_def admin_build_def leaves_ip_rules split: if_splits)

lemma gate_plugins:
  assumes "build_with_plugins lib now chk opn ks rg c tgs = Inr (a, s)" and "registry_ok rg"
    and "range_order ks (rg_plugins rg)" and "get_plugin ''ratelimit'' rg = Some p" and "pl_middleware p"
  shows "one_ip_gate lib a"
  unfolding one_ip_gate_def
proof
  fix ev
  obtain m where a: "ap_plugin_middleware a ev = concat (map (\<lambda>p. build_middleware lib c m p ev) (of_type pl_middleware ks rg))"
    and c: "bh_cfg (ap_base a) = c"
    using assms(1) by (auto simp: build_with_plugins_def plugin_app_def split: sum.splits option.splits)
  obtain xs ys where ps: "of_type pl_middleware ks rg = xs @ p # ys" and other: "\<forall>q \<in> set xs \<union> set ys. pl_name q \<noteq> ''ratelimit''"
    using middleware_plugins_once[OF assms(2-5)] .
  have "pl_name p = ''ratelimit''" using assms(2,4) by (auto simp: registry_ok_def get_plugin_def)
  then have "build_middleware lib c m p ev = rate_limit_middleware lib c m ev" by (simp add: build_middleware_def)
  then have "ap_plugin_middleware a ev = (concat (map (\<lambda>p. build_middleware lib c m p ev) xs)
      @ [api_key_rate_limit lib ''apikey'' (Some m) (ak_key_header (se_apikey_rate_limit (cf_security c)))
           (ak_include_ip (se_apikey_rate_limit (cf_security c))) ev,
         jwt_rate_limit lib ''jwt'' (jl_include_ip (se_jwt_rate_limit (cf_security c))) ev])
      @ ip_rate_limit ''ip'' (skip_if_jwt (bh_cfg (ap_base a))) ev # concat (map (\<lambda>p. build_middleware lib c m p ev) ys)"
    by (simp add: a ps c rate_limit_split)
  moreover have "\<forall>mw \<in> set (concat (map (\<lambda>p. build_middleware lib c m p ev) xs)) \<union> set (concat (map (\<lambda>p. build_middleware lib c m p ev) ys)).
      leaves_ip lib mw"
    using other by (auto intro: other_middleware_leaves_ip[rotated])
  ultimately show "\<exists>pre post. ap_plugin_middleware a ev = pre @ ip_rate_limit ''ip'' (skip_if_jwt (bh_cfg (ap_base a))) ev # post
      \<and> (\<forall>mw \<in> set pre \<union> set post. leaves_ip lib mw)"
    by (intro exI conjI) (assumption, auto simp: leaves_ip_rules)
qed

definition limiter_installed :: "string list \<Rightarrow> registry \<Rightarrow> bool" where
  "limiter_installed ks rg \<longleftrightarrow> all_plugins ks rg = []
     \<or> (registry_ok rg \<and> range_order ks (rg_plugins rg) \<and> (\<exists>p. get_plugin ''ratelimit'' rg = Some p \<and> pl_middleware p))"

lemma built_gate:
  assumes "new_handler_with_deps lib parse_url now chk opn ks rg c = Inr (a, st)" and "limiter_installed ks rg"
  shows "one_ip_gate lib a" and "w_limiters (snd st) ''ip'' = Some (new_rate_limiter (ip_limiter_config c) now)"
proof -
  obtain tgs built where b: "(if all_plugins ks rg \<noteq> [] then build_with_plugins lib now chk opn ks rg c tgs
      else build_legacy lib now c tgs) = Inr built"
    and "(if ap_health_path (fst built) = ''/'' then Inl ''panic: pattern conflicts'' else Inr built) = Inr (a, st)"
    using assms(1) unfolding new_handler_with_deps_def bind_result_Inr_iff by blast
  then have built: "built = (a, st)" by (auto split: if_splits)
  show "one_ip_gate lib a"
  proof (cases "all_plugins ks rg = []")
    case True
    then have "build_legacy lib now c tgs = Inr (a, st)" using b built by simp
    then show ?thesis by (rule gate_legacy)
  next
    case False
    then obtain p where "registry_ok rg" "range_order ks (rg_plugins rg)" "get_plugin ''ratelimit'' rg = Some p" "pl_middleware p"
      using assms(2) by (auto simp: limiter_installed_def)
    moreover have "build_with_plugins lib now chk opn ks rg c tgs = Inr (a, st)" using b built False by simp
    ultimately show ?thesis using gate_plugins by blast
  qed
  show "w_limiters (snd st) ''ip'' = Some (new_rate_limiter (ip_limiter_config c) now)"
    using b assms(2) unfolding built
    by (auto simp: limiter_installed_def build_legacy_def build_with_plugins_def plugin_app_def new_limiters_def
        split: if_splits sum.splits option.splits)
qed

lemma state_after_ok:
  assumes "limiter_ok l" and "active l" and "seen_before s l" and "sorted_wrt (\<le>) (s # map fst calls @ [t])"
  shows "limiter_ok (state_after calls l) \<and> active (state_after calls l) \<and> seen_before t (state_after calls l)
    \<and> rl_requests_per_min (state_after calls l) = rl_requests_per_min l"
  using assms
proof (induction calls arbitrary: s l)
  case Nil
  then show ?case by (fastforce simp: seen_before_def)
next
  case (Cons call calls)
  obtain now k where call: "call = (now, k)" by (cases call)
  obtain ok retry l' where a: "allow now k l = (ok, retry, l')" by (cases "allow now k l")
  have seen: "seen_before now l" using Cons.prems(3,4) by (fastforce simp: seen_before_def call)
  have "active l'" using active_allow[of now k l] Cons.prems(2) a by simp
  with Cons.IH[of l' now] limiter_ok_allow[OF Cons.prems(1) seen a] Cons.prems(2,4) allow_fields(2)[OF a] a
  show ?case by (simp add: call)
qed


definition limited_config :: config where
  "limited_config = zero_config\<lparr>cf_security := (cf_security zero_config)\<lparr>se_rate_limit :=
     \<lparr>ip_enabled = True, ip_requests_per_min = 1, ip_ban_for_min = 1, ip_throttle_delay_ms = 0, ip_max_delay_slots = 0,
      ip_skip_if_jwt_identified = Some False\<rparr>\<rparr>\<rparr>"

lemma limited_built:
  obtains a st where "new_handler_with_deps demo_library (\<lambda>_. Inr key_target) 0 (\<lambda>_. Inr ()) (\<lambda>_. Inl []) [] empty_registry
      limited_config = Inr (a, st)" and "\<not> ap_admin a"
  by (auto simp: new_handler_with_deps_def parse_targets_def limited_config_def zero_config_def all_plugins_def
      build_legacy_def new_request_matcher_def compile_rules.simps health_path_of_def)


end
