(* ===== verification/Build_Equivalence.thy ===== *)
theory Build_Equivalence
  imports Process_Claims
begin

text \<open>
  \<open>NewHandlerWithDeps\<close> builds a handler in two ways: from the registered plugins, and directly
  when there are none. The two branches are separate code; here they are compared on the four
  plugins of the flex program.
\<close>

section \<open>The parts that differ\<close>

lemma of_type_filter: "of_type P ks rg = filter P (all_plugins ks rg)"
  by (simp add: of_type_def all_plugins_def filter_sort)

lemma no_rule_check: "dynamic_rule_check None ev nxt = nxt"
  by (intro ext) (simp add: dynamic_rule_check_def)

lemma forward_providers: "forward (h\<lparr>bh_providers := ps\<rparr>) ev = forward h ev"
  by (intro ext) (simp add: forward_def)

lemma serve_jwt_providers: "serve_jwt lib (h\<lparr>bh_providers := ps\<rparr>) ev = serve_jwt lib h ev"
  by (intro ext) (simp add: serve_jwt_def forward_providers Let_def split: prod.split sum.split)

text \<open>The API-key provider of the plugin decides as the check that is built in.\<close>

lemma serve_http_providers:
  assumes "bh_providers h = []"
  shows "serve_http lib (h\<lparr>bh_providers := [apikey_authenticate]\<rparr>) ev = serve_http lib h ev"
proof (intro ext)
  fix r and w :: "'a world"
  let ?a = "cf_auth (bh_cfg h)"
  obtain t where t: "try_providers ev r ?a [apikey_authenticate] = t" by blast
  have same: "(case try_providers ev r ?a [apikey_authenticate] of
      Some (Inl resp) \<Rightarrow> (resp, w)
    | Some (Inr headers) \<Rightarrow> forward h ev (with_headers ev headers r) w
    | None \<Rightarrow> (unauthorized ''missing credentials'', w))
    = (if kc_enabled (au_api_key ?a) then serve_api_key h ev r w else (unauthorized ''missing credentials'', w))"
  proof (cases "kc_enabled (au_api_key ?a)")
    case True
    then show ?thesis
      using validate_api_key_enabled[OF True, of "ev_payload_order ev" r]
      by (auto simp: serve_api_key_def apikey_authenticate_def split: sum.splits option.splits apikey_error.splits)
  next
    case False
    then show ?thesis by (simp add: apikey_authenticate_def validate_api_key_def)
  qed
  show "serve_http lib (h\<lparr>bh_providers := [apikey_authenticate]\<rparr>) ev r w = serve_http lib h ev r w"
    using same[unfolded t]
    by (cases t) (auto simp: serve_http_def Let_def assms t forward_providers serve_jwt_providers
        simp del: try_providers.simps(2) split: option.splits sum.splits bool.splits)
qed

section \<open>Handlers that serve alike\<close>

definition alike :: "library \<Rightarrow> app \<Rightarrow> app \<Rightarrow> bool" where
  "alike lib a b \<longleftrightarrow> ap_admin a = ap_admin b \<and> ap_health_path a = ap_health_path b
   \<and> bh_cfg (ap_base a) = bh_cfg (ap_base b) \<and> bh_health_target (ap_base a) = bh_health_target (ap_base b)
   \<and> (\<forall>ev. pipeline lib a ev = pipeline lib b ev)"

lemma alike_serve:
  assumes "alike lib a b"
  shows "serve lib decode a ev r s = serve lib decode b ev r s"
proof -
  have "mux_route a r = mux_route b r" using assms unfolding alike_def mux_route_def by (elim conjE) (simp only:)
  moreover have "admin_guarded lib a ev nxt = admin_guarded lib b ev nxt" for nxt
    using assms by (simp add: alike_def admin_guarded_def)
  moreover have "handle_health (ap_base a) ev r w = handle_health (ap_base b) ev r w" for w :: "any_store world"
    using assms by (simp add: alike_def handle_health_def split: option.split)
  moreover have "pipeline lib a ev = pipeline lib b ev" using assms by (simp add: alike_def)
  ultimately show ?thesis by (cases s) (simp add: serve_def split: route.split)
qed

lemma alike_step:
  assumes "alike lib (pr_app p) (pr_app q)" and "q = p\<lparr>pr_app := pr_app q\<rparr>"
  shows "step lib decode e q = map_option (\<lambda>p'. p'\<lparr>pr_app := pr_app q\<rparr>) (step lib decode e p)"
proof -
  obtain b where q: "q = p\<lparr>pr_app := b\<rparr>" using assms(2) by blast
  have "serve lib decode b ev r s = serve lib decode (pr_app p) ev r s" for ev r s
    using alike_serve[of lib "pr_app p" b decode ev r s] assms(1) q by simp
  then show ?thesis by (cases e) (auto simp: q step_defs)
qed

lemma alike_run:
  assumes "alike lib (pr_app p) b"
  shows "run lib decode es (p\<lparr>pr_app := b\<rparr>) = map_option (\<lambda>p'. p'\<lparr>pr_app := b\<rparr>) (run lib decode es p)"
  using assms
proof (induction es arbitrary: p)
  case (Cons e es)
  have s: "step lib decode e (p\<lparr>pr_app := b\<rparr>) = map_option (\<lambda>p'. p'\<lparr>pr_app := b\<rparr>) (step lib decode e p)"
    using alike_step[of lib p "p\<lparr>pr_app := b\<rparr>" decode e] Cons.prems by simp
  show ?case
  proof (cases "step lib decode e p")
    case (Some p')
    then show ?thesis using Cons.IH[of p'] step_app[OF Some] Cons.prems s by simp
  qed (simp add: s)
qed simp

section \<open>The two builds\<close>

text \<open>
  C6. The two ways to build a handler agree: when the flex program's plugins build a server
  and storage is off, the direct construction builds one from the same configuration,
  with the same initial state, and the two answer every request alike and go through the
  same states over every run of the process.
\<close>

theorem builds_agree:
  assumes "register_all quote flex_plugins empty_registry = Inr rg" and "range_order ks (rg_plugins rg)"
    and "\<not> st_enabled (cf_storage c)"
    and "new_handler_with_deps lib parse_url now chk opn ks rg c = Inr (a, st)"
  shows "\<exists>b. new_handler_with_deps lib parse_url now chk opn [] empty_registry c = Inr (b, st)
    \<and> (\<forall>ev r s. serve lib decode a ev r s = serve lib decode b ev r s)
    \<and> (\<forall>es. map_option pr_state (run lib decode es (launch a st)) = map_option pr_state (run lib decode es (launch b st)))"
proof -
  note plugins = flex_plugins_sorted[OF assms(1,2)]
  have reg: "get_plugin n rg = [''admin'' \<mapsto> admin_plugin, ''apikey'' \<mapsto> apikey_plugin, ''ratelimit'' \<mapsto> ratelimit_plugin,
      ''storage-firestore'' \<mapsto> firestore_plugin] n" for n
    by (simp add: get_plugin_def flex_registered[OF assms(1)])
  obtain tgs where tgs: "parse_targets parse_url c = Inr tgs"
    and built: "build_with_plugins lib now chk opn ks rg c tgs = Inr (a, st)" and health: "ap_health_path a \<noteq> ''/''"
    using assms(4) by (auto simp: new_handler_with_deps_def bind_result_Inr_iff plugins split: if_splits)
  obtain m where m: "new_request_matcher (lib_regex lib) (ak_match (se_apikey_rate_limit (cf_security c))) = Inr m"
    and a: "(a, st) = plugin_app lib now ks rg c tgs (MemoryStore new_memory_rule_store) m"
    using built assms(3) by (auto simp: build_with_plugins_def open_storage_def plugin_matcher_def reg split: sum.splits option.splits if_splits)
  let ?b = "\<lparr>ap_base = \<lparr>bh_cfg = c, bh_target = fst tgs, bh_health_target = snd tgs, bh_providers = []\<rparr>,
      ap_plugin_middleware = (\<lambda>ev. dynamic_rule_check (if ad_enabled (cf_admin c) then Some any_decide else None) ev
        # rate_limit_middleware lib c m ev),
      ap_admin = ad_enabled (cf_admin c), ap_health_path = health_path_of c\<rparr>"
  have st: "st = (new_validator (ad_jwt (cf_admin c)), \<lparr>w_store = MemoryStore new_memory_rule_store, w_limiters = new_limiters c now,
      w_jwt = new_validator (au_jwt (cf_auth c)), w_sent = [], w_access = []\<rparr>)"
    using a by (simp add: plugin_app_def reg)
  have fields: "ap_base a = (ap_base ?b)\<lparr>bh_providers := [apikey_authenticate]\<rparr>" "ap_health_path a = health_path_of c"
      "ap_admin a = ad_enabled (cf_admin c)"
      "ap_plugin_middleware a = (\<lambda>ev. build_middleware lib c m admin_plugin ev @ build_middleware lib c m ratelimit_plugin ev)"
    using a by (simp_all add: plugin_app_def reg of_type_filter plugins)
      (simp_all add: admin_plugin_def apikey_plugin_def ratelimit_plugin_def firestore_plugin_def provider_of_def)
  have "apply_middleware h (ap_plugin_middleware a ev) = apply_middleware h (ap_plugin_middleware ?b ev)" for h ev
    by (simp add: fields(4) build_middleware_def admin_build_def admin_plugin_def ratelimit_plugin_def no_rule_check)
  moreover have "(serve_http lib (ap_base a) ev :: any_store world handler) = serve_http lib (ap_base ?b) ev" for ev
    unfolding fields(1) by (rule serve_http_providers) simp
  ultimately have "pipeline lib a ev = pipeline lib ?b ev" for ev by (simp add: pipeline_def fields(1))
  then have alike: "alike lib a ?b" by (simp add: alike_def fields)
  have "all_plugins [] empty_registry = []" by (simp add: all_plugins_def)
  then have "new_handler_with_deps lib parse_url now chk opn [] empty_registry c = Inr (?b, st)"
    using tgs m health by (simp add: new_handler_with_deps_def build_legacy_def st fields(2))
  moreover have "map_option pr_state (run lib decode es (launch a st)) = map_option pr_state (run lib decode es (launch ?b st))" for es
  proof -
    have "launch ?b st = (launch a st)\<lparr>pr_app := ?b\<rparr>" by (simp add: launch_def)
    then show ?thesis using alike_run[of lib "launch a st" ?b decode es] alike
      by (simp add: launch_def option.map_comp comp_def)
  qed
  ultimately show ?thesis using alike_serve[OF alike] by blast
qed

lemma flex_demo:
  obtains rg where "register_all (\<lambda>s. s) flex_plugins empty_registry = Inr rg"
    and "range_order [''admin'', ''apikey'', ''ratelimit'', ''storage-firestore''] (rg_plugins rg)"
    and "rg_storage rg = Some firestore_plugin"
proof -
  obtain rg where rg: "register_all (\<lambda>s. s) flex_plugins empty_registry = Inr rg" "rg_storage rg = Some firestore_plugin"
    by (simp add: flex_plugins_def register_def empty_registry_def admin_plugin_def apikey_plugin_def
        ratelimit_plugin_def firestore_plugin_def)
  then have "range_order [''admin'', ''apikey'', ''ratelimit'', ''storage-firestore''] (rg_plugins rg)"
    by (auto simp: range_order_def flex_registered[OF rg(1)])
  then show thesis using that rg by blast
qed

theorem builds_agree_witness:
  "\<exists>rg a b st.
     new_handler_with_deps demo_library (\<lambda>_. Inr key_target) 0 (\<lambda>_. Inr ()) (\<lambda>_. Inl [])
       [''admin'', ''apikey'', ''ratelimit'', ''storage-firestore''] rg key_config = Inr (a, st)
   \<and> new_handler_with_deps demo_library (\<lambda>_. Inr key_target) 0 (\<lambda>_. Inr ()) (\<lambda>_. Inl []) [] empty_registry key_config = Inr (b, st)
   \<and> serve demo_library (\<lambda>_. None) a key_env key_request st = serve demo_library (\<lambda>_. None) b key_env key_request st"
proof -
  obtain rg where rg: "register_all (\<lambda>s. s) flex_plugins empty_registry = Inr rg"
    and ks: "range_order [''admin'', ''apikey'', ''ratelimit'', ''storage-firestore''] (rg_plugins rg)"
    and storage: "rg_storage rg = Some firestore_plugin" by (rule flex_demo)
  let ?ks = "[''admin'', ''apikey'', ''ratelimit'', ''storage-firestore'']"
  have off: "\<not> st_enabled (cf_storage key_config)" by (simp add: key_config_def zero_config_def)
  obtain a st where a: "new_handler_with_deps demo_library (\<lambda>_. Inr key_target) 0 (\<lambda>_. Inr ()) (\<lambda>_. Inl []) ?ks rg key_config = Inr (a, st)"
    by (simp add: new_handler_with_deps_def parse_targets_def key_config_def zero_config_def flex_plugins_sorted[OF rg ks]
        build_with_plugins_def open_storage_def storage_backend_def validate_plugin_availability_def availability_checks_def
        first_error.simps get_plugin_def flex_registered[OF rg] storage plugin_matcher_def new_request_matcher_def compile_rules.simps
        plugin_app_def health_path_of_def)
  show ?thesis using builds_agree[OF rg ks off a, of "\<lambda>_. None"] a by blast
qed

end
