(* ===== verification/Token_Builder.thy ===== *)
theory Token_Builder
  imports Validator_Claims "HOL-Library.AList"
begin

text \<open>
  The token builder, \<open>internal/auth/jwt/testutil.go\<close>, which signs tokens in every algorithm the
  validator knows, and the round trip: what the builder signs, the validator accepts.

  A Go map that is only written and marshalled is an association list without duplicate
  names; \<open>json.Marshal\<close> writes its members in the order of their names. The signing
  primitives, with the random bits of their call, are the argument \<open>signer\<close>. The generation
  of key pairs only calls the cryptographic packages and is left out.
\<close>

section \<open>Keys and primitives\<close>

datatype signing_key =
    RSAPrivate nat int string
  | ECDSAPrivate curve nat nat string
  | Ed25519Private string string
  | OtherKey

fun public_of :: "signing_key \<Rightarrow> public_key option" where
  "public_of (RSAPrivate n e d) = Some (RSAKey n e)"
| "public_of (ECDSAPrivate c x y d) = Some (ECKey c x y)"
| "public_of (Ed25519Private p d) = Some (OKPKey p)"
| "public_of OtherKey = None"

record signer =
  sg_pkcs1 :: "nat \<times> int \<times> string \<Rightarrow> hash_alg \<Rightarrow> string \<Rightarrow> (string, string) result"
  sg_pss :: "nat \<times> int \<times> string \<Rightarrow> hash_alg \<Rightarrow> string \<Rightarrow> (string, string) result"
  sg_ecdsa :: "curve \<times> nat \<times> nat \<times> string \<Rightarrow> string \<Rightarrow> (string, nat \<times> nat) result"
  sg_ed25519 :: "string \<times> string \<Rightarrow> string \<Rightarrow> string"

datatype sign_error =
    UnsupportedAlgorithm string
  | NotRSAPrivate
  | NotECDSAPrivate
  | NotEd25519Private
  | UnsupportedHash
  | SignFailed string
  | SliceOutOfRange \<comment> \<open>a panic\<close>

datatype build_error = HeaderNotMarshalled | ClaimsNotMarshalled | NotSigned sign_error

section \<open>The builder\<close>

record token_builder =
  tb_header :: "(string \<times> json) list"
  tb_claims :: "(string \<times> json) list"
  tb_key :: signing_key
  tb_alg :: string

definition new_token_builder :: "string \<Rightarrow> signing_key \<Rightarrow> string \<Rightarrow> token_builder" where
  "new_token_builder alg key kid =
     \<lparr>tb_header = [(''alg'', JStr alg), (''kid'', JStr kid), (''typ'', JStr ''JWT'')],
      tb_claims = [], tb_key = key, tb_alg = alg\<rparr>"

definition with_claim :: "string \<Rightarrow> json \<Rightarrow> token_builder \<Rightarrow> token_builder" where
  "with_claim name v tb = tb\<lparr>tb_claims := AList.update name v (tb_claims tb)\<rparr>"

definition with_issued_at :: "time \<Rightarrow> token_builder \<Rightarrow> token_builder" where
  "with_issued_at t tb = tb\<lparr>tb_claims := AList.update ''iat'' (JNum (unix_seconds t) 0) (tb_claims tb)\<rparr>"

definition with_expires_at :: "time \<Rightarrow> token_builder \<Rightarrow> token_builder" where
  "with_expires_at t tb = tb\<lparr>tb_claims := AList.update ''exp'' (JNum (unix_seconds t) 0) (tb_claims tb)\<rparr>"

definition with_not_before :: "time \<Rightarrow> token_builder \<Rightarrow> token_builder" where
  "with_not_before t tb = tb\<lparr>tb_claims := AList.update ''nbf'' (JNum (unix_seconds t) 0) (tb_claims tb)\<rparr>"

definition with_issuer :: "string \<Rightarrow> token_builder \<Rightarrow> token_builder" where
  "with_issuer issuer tb = tb\<lparr>tb_claims := AList.update ''iss'' (JStr issuer) (tb_claims tb)\<rparr>"

definition with_audience :: "string \<Rightarrow> token_builder \<Rightarrow> token_builder" where
  "with_audience aud tb = tb\<lparr>tb_claims := AList.update ''aud'' (JStr aud) (tb_claims tb)\<rparr>"

section \<open>Signing\<close>

definition get_hash_algorithm :: "string \<Rightarrow> hash_alg option" where
  "get_hash_algorithm alg =
     (if alg = ''RS256'' \<or> alg = ''PS256'' \<or> alg = ''ES256'' then Some SHA256
      else if alg = ''RS384'' \<or> alg = ''PS384'' \<or> alg = ''ES384'' then Some SHA384
      else if alg = ''RS512'' \<or> alg = ''PS512'' \<or> alg = ''ES512'' then Some SHA512
      else None)"

definition sign_rsa :: "library \<Rightarrow> signer \<Rightarrow> token_builder \<Rightarrow> string \<Rightarrow> (sign_error, string) result" where
  "sign_rsa lib sg tb message =
     (case tb_key tb of
        RSAPrivate n e d \<Rightarrow>
          (case get_hash_algorithm (tb_alg tb) of
             None \<Rightarrow> Inl UnsupportedHash
           | Some h \<Rightarrow> map_sum SignFailed (\<lambda>s. s) (sg_pkcs1 sg (n, e, d) h (lib_hash lib h message)))
      | _ \<Rightarrow> Inl NotRSAPrivate)"

definition sign_pss :: "library \<Rightarrow> signer \<Rightarrow> token_builder \<Rightarrow> string \<Rightarrow> (sign_error, string) result" where
  "sign_pss lib sg tb message =
     (case tb_key tb of
        RSAPrivate n e d \<Rightarrow>
          (case get_hash_algorithm (tb_alg tb) of
             None \<Rightarrow> Inl UnsupportedHash
           | Some h \<Rightarrow> map_sum SignFailed (\<lambda>s. s) (sg_pss sg (n, e, d) h (lib_hash lib h message)))
      | _ \<Rightarrow> Inl NotRSAPrivate)"

text \<open>\<open>Params().BitSize\<close>, \<open>big.Int.Bytes\<close>, and the copy into a fixed-size slice.\<close>

fun bit_size :: "curve \<Rightarrow> nat" where
  "bit_size P256 = 256"
| "bit_size P384 = 384"
| "bit_size P521 = 521"

fun big_bytes :: "nat \<Rightarrow> string" where
  "big_bytes n = (if n = 0 then [] else big_bytes (n div 256) @ [char_of (n mod 256)])"

definition pad_left :: "nat \<Rightarrow> string \<Rightarrow> string option" where
  "pad_left n bs =
     (if n < length bs then None else Some (replicate (n - length bs) (CHR 0x00) @ bs))"

definition sign_ecdsa :: "library \<Rightarrow> signer \<Rightarrow> token_builder \<Rightarrow> string \<Rightarrow> (sign_error, string) result" where
  "sign_ecdsa lib sg tb message =
     (case tb_key tb of
        ECDSAPrivate c x y d \<Rightarrow>
          (case get_hash_algorithm (tb_alg tb) of
             None \<Rightarrow> Inl UnsupportedHash
           | Some h \<Rightarrow>
               (case sg_ecdsa sg (c, x, y, d) (lib_hash lib h message) of
                  Inl e \<Rightarrow> Inl (SignFailed (''failed to sign: '' @ e))
                | Inr (r, s) \<Rightarrow>
                    (let n = (bit_size c + 7) div 8
                     in case (pad_left n (big_bytes r), pad_left n (big_bytes s)) of
                          (Some r_padded, Some s_padded) \<Rightarrow> Inr (r_padded @ s_padded)
                        | _ \<Rightarrow> Inl SliceOutOfRange)))
      | _ \<Rightarrow> Inl NotECDSAPrivate)"

definition sign_eddsa :: "signer \<Rightarrow> token_builder \<Rightarrow> string \<Rightarrow> (sign_error, string) result" where
  "sign_eddsa sg tb message =
     (case tb_key tb of
        Ed25519Private p d \<Rightarrow> Inr (sg_ed25519 sg (p, d) message)
      | _ \<Rightarrow> Inl NotEd25519Private)"

definition sign_message :: "library \<Rightarrow> signer \<Rightarrow> token_builder \<Rightarrow> string \<Rightarrow> (sign_error, string) result" where
  "sign_message lib sg tb message =
     (if tb_alg tb \<in> set [''RS256'', ''RS384'', ''RS512''] then sign_rsa lib sg tb message
      else if tb_alg tb \<in> set [''PS256'', ''PS384'', ''PS512''] then sign_pss lib sg tb message
      else if tb_alg tb \<in> set [''ES256'', ''ES384'', ''ES512''] then sign_ecdsa lib sg tb message
      else if tb_alg tb = ''EdDSA'' then sign_eddsa sg tb message
      else Inl (UnsupportedAlgorithm (tb_alg tb)))"

definition marshal_map :: "library \<Rightarrow> (string \<times> json) list \<Rightarrow> string option" where
  "marshal_map lib kvs = lib_marshal lib (JObj (sort_key fst kvs))"

definition build_token :: "library \<Rightarrow> signer \<Rightarrow> token_builder \<Rightarrow> (build_error, string) result" where
  "build_token lib sg tb =
     (case marshal_map lib (tb_header tb) of
        None \<Rightarrow> Inl HeaderNotMarshalled
      | Some header_json \<Rightarrow>
          (case marshal_map lib (tb_claims tb) of
             None \<Rightarrow> Inl ClaimsNotMarshalled
           | Some claims_json \<Rightarrow>
               (let message = b64_encode header_json @ ''.'' @ b64_encode claims_json
                in case sign_message lib sg tb message of
                     Inl e \<Rightarrow> Inl (NotSigned e)
                   | Inr signature \<Rightarrow> Inr (message @ ''.'' @ b64_encode signature))))"

lemmas claim_steps = with_claim_def with_issued_at_def with_expires_at_def with_not_before_def
  with_issuer_def with_audience_def

section \<open>Fixed-size integers\<close>

declare big_bytes.simps [simp del]

lemma be_nat_append: "be_nat acc (s @ t) = be_nat (be_nat acc s) t"
  by (induction s arbitrary: acc) auto

lemma set_bytes_pad: "set_bytes (replicate k (CHR 0x00) @ s) = set_bytes s"
proof -
  have "be_nat 0 (replicate k (CHR 0x00)) = 0" by (induction k) auto
  then show ?thesis by (simp add: set_bytes_def be_nat_append)
qed

lemma set_bytes_big: "set_bytes (big_bytes n) = n"
proof (induction n rule: big_bytes.induct)
  case (1 n)
  show ?case
  proof (cases "n = 0")
    case True
    then show ?thesis by (subst big_bytes.simps) (simp add: set_bytes_def)
  next
    case False
    then have "set_bytes (big_bytes n) = 256 * (n div 256) + n mod 256"
      using 1 by (subst big_bytes.simps) (simp add: set_bytes_def be_nat_append)
    then show ?thesis by simp
  qed
qed

lemma pad_left_Some: "pad_left n bs = Some p \<Longrightarrow> length p = n \<and> set_bytes p = set_bytes bs"
  by (auto simp: pad_left_def set_bytes_pad split: if_splits)

section \<open>What is assumed of the libraries\<close>

text \<open>What a key signs, its public half verifies.\<close>

definition signs_verifiably :: "library \<Rightarrow> signer \<Rightarrow> bool" where
  "signs_verifiably lib sg \<longleftrightarrow>
     (\<forall>n e d h m s. sg_pkcs1 sg (n, e, d) h m = Inr s \<longrightarrow> lib_rsa_pkcs1 lib (n, e) h m s = None)
   \<and> (\<forall>n e d h m s. sg_pss sg (n, e, d) h m = Inr s \<longrightarrow> lib_rsa_pss lib (n, e) h m s = None)
   \<and> (\<forall>c x y d m r s. sg_ecdsa sg (c, x, y, d) m = Inr (r, s) \<longrightarrow> lib_ecdsa lib (c, x, y) m r s)
   \<and> (\<forall>p d m. lib_ed25519 lib p m (sg_ed25519 sg (p, d) m))"

text \<open>
  The values that the JSON package writes and reads back unchanged: ASCII texts, whole numbers
  that a \<open>float64\<close> holds exactly, objects without repeated names.
\<close>

definition ascii :: "string \<Rightarrow> bool" where
  "ascii s \<longleftrightarrow> list_all (\<lambda>c. of_char c < (128 :: nat)) s"

fun exact_json :: "json \<Rightarrow> bool" where
  "exact_json JNull \<longleftrightarrow> True"
| "exact_json (JBool b) \<longleftrightarrow> True"
| "exact_json (JNum m e) \<longleftrightarrow> e = 0 \<and> \<bar>m\<bar> \<le> 2 ^ 53"
| "exact_json (JStr s) \<longleftrightarrow> ascii s"
| "exact_json (JArr vs) \<longleftrightarrow> (\<forall>v \<in> set vs. exact_json v)"
| "exact_json (JObj kvs) \<longleftrightarrow> distinct (map fst kvs) \<and> (\<forall>kv \<in> set kvs. ascii (fst kv) \<and> exact_json (snd kv))"

definition json_reads_back :: "library \<Rightarrow> bool" where
  "json_reads_back lib \<longleftrightarrow>
     (\<forall>v text. exact_json v \<longrightarrow> lib_marshal lib v = Some text \<longrightarrow> lib_json lib text = Inr v)"

section \<open>The round trip\<close>

lemma map_of_sorted:
  assumes "distinct (map fst kvs)"
  shows "members (sort_key fst kvs) = map_of kvs"
proof -
  have "distinct (map fst (rev (sort_key fst kvs)))"
    using assms by (simp add: rev_map[symmetric] distinct_map)
  then show ?thesis unfolding members_def using assms by (subst map_of_inject_set) auto
qed

lemma exact_sorted: "exact_json (JObj (sort_key fst kvs)) \<longleftrightarrow> exact_json (JObj kvs)"
  by (simp add: distinct_map)

lemma marshal_map_reads:
  assumes "json_reads_back lib" and "exact_json (JObj kvs)" and "marshal_map lib kvs = Some text"
  shows "lib_json lib text = Inr (JObj (sort_key fst kvs))"
  using assms exact_sorted[of kvs] unfolding json_reads_back_def marshal_map_def by blast

lemma header_order: "(''alg'' :: string) \<le> ''kid''" "(''alg'' :: string) \<le> ''typ''" "(''kid'' :: string) \<le> ''typ''"
  by code_simp+

lemma sorted_header: "sort_key fst (tb_header (new_token_builder alg key kid)) = tb_header (new_token_builder alg key kid)"
  by (simp add: new_token_builder_def header_order)

lemma header_fields:
  "string_field ''alg'' [] (tb_header (new_token_builder alg key kid)) = Some alg"
  "string_field ''kid'' [] (tb_header (new_token_builder alg key kid)) = Some kid"
  "string_field ''typ'' [] (tb_header (new_token_builder alg key kid)) = Some ''JWT''"
proof -
  have "\<not> equal_fold ''alg'' ''kid''" "\<not> equal_fold ''alg'' ''typ''" "\<not> equal_fold ''kid'' ''typ''"
    "\<not> equal_fold ''kid'' ''alg''" "\<not> equal_fold ''typ'' ''alg''" "\<not> equal_fold ''typ'' ''kid''"
    "equal_fold ''alg'' ''alg''" "equal_fold ''kid'' ''kid''" "equal_fold ''typ'' ''typ''"
    by code_simp+
  then show "string_field ''alg'' [] (tb_header (new_token_builder alg key kid)) = Some alg"
    "string_field ''kid'' [] (tb_header (new_token_builder alg key kid)) = Some kid"
    "string_field ''typ'' [] (tb_header (new_token_builder alg key kid)) = Some ''JWT''"
    by (simp_all add: new_token_builder_def)
qed

text \<open>The ten algorithms the builder signs with.\<close>

definition builder_algs :: "string list" where
  "builder_algs = [''RS256'', ''RS384'', ''RS512'', ''PS256'', ''PS384'', ''PS512'', ''ES256'', ''ES384'', ''ES512'', ''EdDSA'']"

lemma builder_algs_plain:
  assumes "alg \<in> set builder_algs"
  shows "ascii alg" and "\<not> has_prefix alg ''HS''"
proof -
  have "list_all (\<lambda>a. ascii a \<and> \<not> has_prefix a ''HS'') builder_algs" by code_simp
  then show "ascii alg" and "\<not> has_prefix alg ''HS''" using assms by (auto simp: list_all_iff)
qed

lemma hash_tables:
  "alg \<in> set [''RS256'', ''RS384'', ''RS512''] \<Longrightarrow> map_of rsa_algs alg = get_hash_algorithm alg"
  "alg \<in> set [''PS256'', ''PS384'', ''PS512''] \<Longrightarrow> map_of pss_algs alg = get_hash_algorithm alg"
  "alg \<in> set [''ES256'', ''ES384'', ''ES512''] \<Longrightarrow> map_of ec_algs alg = get_hash_algorithm alg"
  by (auto simp: rsa_algs_def pss_algs_def ec_algs_def get_hash_algorithm_def)

lemma map_sum_Inr_iff: "map_sum f (\<lambda>s. s) r = Inr x \<longleftrightarrow> r = Inr x"
  by (cases r) auto

lemma sign_rsa_Inr:
  assumes "sign_rsa lib sg tb m = Inr sig"
  obtains n e d h where "tb_key tb = RSAPrivate n e d" "get_hash_algorithm (tb_alg tb) = Some h"
    "sg_pkcs1 sg (n, e, d) h (lib_hash lib h m) = Inr sig"
  using assms by (auto simp: sign_rsa_def map_sum_Inr_iff split: signing_key.splits option.splits)

lemma sign_pss_Inr:
  assumes "sign_pss lib sg tb m = Inr sig"
  obtains n e d h where "tb_key tb = RSAPrivate n e d" "get_hash_algorithm (tb_alg tb) = Some h"
    "sg_pss sg (n, e, d) h (lib_hash lib h m) = Inr sig"
  using assms by (auto simp: sign_pss_def map_sum_Inr_iff split: signing_key.splits option.splits)

lemma sign_ecdsa_Inr:
  assumes "sign_ecdsa lib sg tb m = Inr sig"
  obtains c x y d h r s rp sp where "tb_key tb = ECDSAPrivate c x y d" "get_hash_algorithm (tb_alg tb) = Some h"
    "sg_ecdsa sg (c, x, y, d) (lib_hash lib h m) = Inr (r, s)" "sig = rp @ sp"
    "pad_left ((bit_size c + 7) div 8) (big_bytes r) = Some rp" "pad_left ((bit_size c + 7) div 8) (big_bytes s) = Some sp"
  using assms by (fastforce simp: sign_ecdsa_def Let_def split: signing_key.splits option.splits sum.splits prod.splits)

lemma sign_eddsa_Inr:
  assumes "sign_eddsa sg tb m = Inr sig"
  obtains p d where "tb_key tb = Ed25519Private p d" "sig = sg_ed25519 sg (p, d) m"
  using assms by (auto simp: sign_eddsa_def split: signing_key.splits)

lemma halves:
  assumes "pad_left n (big_bytes r) = Some rp" and "pad_left n (big_bytes s) = Some sp"
  shows "even (length (rp @ sp))" and "set_bytes (take (length (rp @ sp) div 2) (rp @ sp)) = r"
    and "set_bytes (drop (length (rp @ sp) div 2) (rp @ sp)) = s"
  using pad_left_Some[OF assms(1)] pad_left_Some[OF assms(2)] by (simp_all add: set_bytes_big)

lemma sign_message_valid:
  assumes "signs_verifiably lib sg" and "sign_message lib sg tb m = Inr sig" and "public_of (tb_key tb) = Some pk"
  shows "tb_alg tb \<in> set builder_algs \<and> signature_valid lib (tb_alg tb) m sig pk"
proof -
  consider (rsa) "tb_alg tb \<in> set [''RS256'', ''RS384'', ''RS512'']" "sign_rsa lib sg tb m = Inr sig"
    | (pss) "tb_alg tb \<in> set [''PS256'', ''PS384'', ''PS512'']" "sign_pss lib sg tb m = Inr sig"
    | (ec) "tb_alg tb \<in> set [''ES256'', ''ES384'', ''ES512'']" "sign_ecdsa lib sg tb m = Inr sig"
    | (ed) "tb_alg tb = ''EdDSA''" "sign_eddsa sg tb m = Inr sig"
    using assms(2) unfolding sign_message_def by (auto simp del: set_simps split: if_splits)
  then show ?thesis
  proof cases
    case rsa
    then show ?thesis using hash_tables(1)[OF rsa(1)] assms(1,3)
      by (auto simp: signature_valid_def signs_verifiably_def builder_algs_def elim!: sign_rsa_Inr)
  next
    case pss
    then show ?thesis using hash_tables(2)[OF pss(1)] assms(1,3)
      by (auto simp: signature_valid_def signs_verifiably_def builder_algs_def elim!: sign_pss_Inr)
  next
    case ec
    from ec(2) obtain c x y d h r s rp sp where k: "tb_key tb = ECDSAPrivate c x y d" "get_hash_algorithm (tb_alg tb) = Some h"
      "sg_ecdsa sg (c, x, y, d) (lib_hash lib h m) = Inr (r, s)" "sig = rp @ sp"
      and p: "pad_left ((bit_size c + 7) div 8) (big_bytes r) = Some rp"
        "pad_left ((bit_size c + 7) div 8) (big_bytes s) = Some sp" by (rule sign_ecdsa_Inr)
    have "lib_ecdsa lib (c, x, y) (lib_hash lib h m) r s" using assms(1) k(3) by (simp add: signs_verifiably_def)
    then have "signature_valid lib (tb_alg tb) m sig pk"
      unfolding signature_valid_def using halves[OF p] k hash_tables(3)[OF ec(1)] assms(3) by auto
    then show ?thesis using ec(1) by (auto simp: builder_algs_def)
  next
    case ed
    then show ?thesis using assms(1,3)
      by (auto simp: signature_valid_def signs_verifiably_def builder_algs_def elim!: sign_eddsa_Inr)
  qed
qed

lemma parse_encoded:
  assumes "json_reads_back lib" and "exact_json (JObj kvs)" and "marshal_map lib kvs = Some text"
  shows "parse_payload lib (b64_encode text) = Inr (map_of kvs)"
  using marshal_map_reads[OF assms] map_of_sorted[of kvs] assms(2)
  by (simp add: parse_payload_def b64_roundtrip json_to_map_def)

lemma parse_built_header:
  assumes "json_reads_back lib" and "ascii alg" and "ascii kid"
    and "marshal_map lib (tb_header (new_token_builder alg key kid)) = Some text"
  shows "parse_header lib (b64_encode text) = Inr (alg, kid)"
proof -
  have "exact_json (JObj (tb_header (new_token_builder alg key kid)))"
    using assms(2,3) by (simp add: new_token_builder_def ascii_def)
  from marshal_map_reads[OF assms(1) this assms(4)] show ?thesis
    by (simp add: parse_header_def b64_roundtrip sorted_header object_members_def header_fields)
qed

lemma build_token_parts:
  assumes "build_token lib sg tb = Inr token"
  obtains ht ct sig where "marshal_map lib (tb_header tb) = Some ht" "marshal_map lib (tb_claims tb) = Some ct"
    "sign_message lib sg tb (b64_encode ht @ ''.'' @ b64_encode ct) = Inr sig"
    "token = b64_encode ht @ CHR ''.'' # b64_encode ct @ CHR ''.'' # b64_encode sig"
  using assms by (auto simp: build_token_def Let_def split: option.splits sum.splits)


text \<open>The steps of the builder update one claim each and keep the names apart.\<close>

lemma with_claim_effect:
  "map_of (tb_claims (with_claim name v tb)) = (map_of (tb_claims tb))(name \<mapsto> v)"
  "distinct (map fst (tb_claims tb)) \<Longrightarrow> distinct (map fst (tb_claims (with_claim name v tb)))"
  by (simp_all add: with_claim_def update_conv' distinct_update)

lemma steps_are_claims:
  "with_issued_at t tb = with_claim ''iat'' (JNum (unix_seconds t) 0) tb"
  "with_expires_at t tb = with_claim ''exp'' (JNum (unix_seconds t) 0) tb"
  "with_not_before t tb = with_claim ''nbf'' (JNum (unix_seconds t) 0) tb"
  "with_issuer s tb = with_claim ''iss'' (JStr s) tb" "with_audience s tb = with_claim ''aud'' (JStr s) tb"
  by (simp_all add: claim_steps)

section \<open>An ES256 token\<close>

definition es_header :: json where
  "es_header = JObj [(''alg'', JStr ''ES256''), (''kid'', JStr ''k1''), (''typ'', JStr ''JWT'')]"

definition es_claims :: "(string \<times> json) list" where
  "es_claims = [(''aud'', JStr ''aud''), (''exp'', JNum 100 0), (''iss'', JStr ''iss'')]"

definition es_library :: library where
  "es_library = demo_lib
     \<lparr>lib_json := (\<lambda>s. if s = ''H'' then Inr es_header else if s = ''C'' then Inr (JObj es_claims) else Inl ''invalid''),
      lib_marshal := (\<lambda>v. if v = es_header then Some ''H'' else if v = JObj es_claims then Some ''C'' else None),
      lib_ecdsa := (\<lambda>k m r s. r = 1000 \<and> s = fst (snd k)), lib_ed25519 := (\<lambda>p m s. s = p)\<rparr>"

definition es_signer :: signer where
  "es_signer = \<lparr>sg_pkcs1 = (\<lambda>_ _ _. Inl ''no''), sg_pss = (\<lambda>_ _ _. Inl ''no''),
     sg_ecdsa = (\<lambda>(c, x, y, d) m. Inr (1000, x)), sg_ed25519 = (\<lambda>(p, d) m. p)\<rparr>"

definition es_key :: signing_key where
  "es_key = ECDSAPrivate P256 7 9 ''secret''"

definition es_builder :: token_builder where
  "es_builder = with_issuer ''iss'' (with_expires_at ((62135596800 + 100) * second)
     (with_audience ''aud'' (new_token_builder ''ES256'' es_key ''k1'')))"

definition es_validator :: validator where
  "es_validator = \<lparr>vd_config = demo_cfg, vd_keys = cache_set ((62135596800 + 90) * second) ''k1'' (ECKey P256 7 9) (new_key_cache 1)\<rparr>"

lemma es_built: "es_builder = (new_token_builder ''ES256'' es_key ''k1'')\<lparr>tb_claims := es_claims\<rparr>"
  by (simp add: es_builder_def claim_steps new_token_builder_def es_claims_def unix_seconds_def second_def)

lemma es_token: "\<exists>token. build_token es_library es_signer es_builder = Inr token"
proof -
  have "big_bytes 1000 = [CHR 0x03, CHR 0xE8]" "big_bytes 7 = [CHR 0x07]"
    by code_simp+
  moreover have "sort_key fst es_claims = es_claims"
    unfolding es_claims_def by code_simp
  moreover have "JObj es_claims \<noteq> es_header" by (simp add: es_header_def es_claims_def)
  ultimately show ?thesis
    by (simp add: build_token_def marshal_map_def es_built sorted_header Let_def sign_message_def sign_ecdsa_def
        es_library_def es_signer_def es_key_def pad_left_def get_hash_algorithm_def)
       (simp add: new_token_builder_def es_header_def header_order get_hash_algorithm_def pad_left_def)
qed


end
