(* ===== verification/Spec2Isabelle.thy ===== *)
theory Spec2Isabelle
  imports Limiter_Claims Config_Claims Rules_Claims Matcher KeyValue Firestore_Claims Cluster Firestore_KV
    Apikey Jwt_Claims Jwks Validator_Claims Admin_Claims Interleaving Loader Gates Registry Proxy Server
    Forwarding_Claims Logging Commands Server_Claims Process_Claims Rate_Claims Build_Equivalence Token_Builder
begin

text \<open>
  A verification library for \<open>lite-auth-proxy\<close>, an authenticating reverse proxy in Go: it checks
  JWTs and API keys, limits rates by address, key and token subject, obeys rules that an
  administrator sets at run time, and forwards what passes to one upstream.

  \<^bold>\<open>The program and its parts.\<close> A program (\<open>cmd/lite\<close>, or \<open>cmd/flex\<close> with all plugins) reads a
  TOML file, overrides it from the environment, sets defaults and validates it. From the
  configuration \<open>NewHandlerWithDeps\<close> builds a handler: a mux with the health path, the admin
  routes and, for everything else, a chain of middleware (request log, body limit, header
  sanitizer, path filter, rule check, rate limits) around \<open>ServeHTTP\<close>, which authenticates and
  forwards through \<open>httputil.ReverseProxy\<close>. The admin routes change the rule store and the
  limiters while requests are served; the rule store is in memory or a cache of a Firestore
  collection, and has background goroutines. A signal ends the process.

  \<^bold>\<open>Which theory models what.\<close>
  \<^item> Language and standard library: \<open>Prelude\<close> (64-bit arithmetic, time, map iteration),
    \<open>Go_Strings\<close>, \<open>Go_Path\<close>, \<open>Go_Base64\<close>, \<open>Http\<close> (headers, requests, JSON values), \<open>Go_Json\<close>,
    \<open>Patterns\<close>.
  \<^item> Configuration, \<open>internal/config/config.go\<close>: \<open>Config\<close>, \<open>Config_Claims\<close>. Logging settings,
    \<open>internal/logging\<close>: \<open>Logging\<close>.
  \<^item> Rate limits, \<open>internal/ratelimit\<close>: \<open>Limiter\<close> (the record \<open>limiter\<close>, one field per field of
    \<open>RateLimiter\<close>; \<open>allow\<close>, the setters, the semaphore), \<open>Limiter_Props\<close>, \<open>Limiter_Claims\<close>,
    and \<open>Matcher\<close> for \<open>matcher.go\<close>.
  \<^item> Stores, \<open>internal/store\<close>: \<open>Rules\<close> (record \<open>rule\<close>, \<open>mem_store\<close>, the interface \<open>RuleStore\<close> as the
    locale \<open>rule_store\<close>), \<open>Rules_Claims\<close>, \<open>KeyValue\<close> (locale \<open>kv_store\<close>); the plugin
    \<open>internal/plugins/storage/firestore\<close>: \<open>Firestore\<close>, \<open>Firestore_Claims\<close>,
    \<open>Firestore_KV\<close>, and \<open>Cluster\<close> for several instances over one collection.
  \<^item> Authentication, \<open>internal/auth\<close>: \<open>Apikey\<close>, \<open>Jwt_Claims\<close> (filters and mappings), \<open>Jwks\<close> (key
    cache), \<open>Validator\<close>, \<open>Validator_Claims\<close> (locale \<open>token_validator\<close>), \<open>Token_Builder\<close>
    (\<open>testutil.go\<close>).
  \<^item> Admin API, \<open>internal/admin\<close>: \<open>Admin\<close>, \<open>Admin_Claims\<close>, and
    \<open>Interleaving\<close> for control requests that run at the same time; startup rules, \<open>internal/startup\<close>:
    \<open>Loader\<close>.
  \<^item> The proxy, \<open>internal/proxy\<close>: \<open>Middleware\<close> (locale \<open>gate\<close>: what every middleware promises),
    \<open>Gates\<close> (each middleware as a gate), \<open>Proxy\<close> (\<open>ServeHTTP\<close>, forwarding, health), \<open>Server\<close>
    (construction, mux, serving; the plugins \<open>admin\<close> and \<open>ratelimit\<close>), with \<open>Registry\<close> for
    \<open>internal/plugin\<close>; \<open>Forwarding\<close>, \<open>Forwarding_Claims\<close> about whole requests.
  \<^item> The programs, \<open>cmd\<close>: \<open>Commands\<close> (flags, health-check mode, startup), \<open>Process\<close> (the running
    process as steps of its goroutines), \<open>Store_Invariants\<close> (locale \<open>store_invariant\<close>: what
    serving keeps of the rule store), \<open>Server_Claims\<close>, \<open>Process_Claims\<close>, and \<open>Rate_Claims\<close>
    (the limit per address from the limiter to the process), \<open>Build_Equivalence\<close> (the plugin build and
    the direct build of the handler agree).

  \<^bold>\<open>How state and operations correspond.\<close> A struct is a record, an interface value a datatype with
  one constructor per implementation (\<open>any_store\<close>), a method a function from the state to the
  state. A mutex makes each method one atomic step with its clock reading \<open>now\<close>; properties of a
  limiter or a store are therefore about arbitrary sequences of its methods, as concurrent
  callers produce them. The state of a process is \<open>state\<close>: the validator of the admin routes and
  the \<open>world\<close> with the rule store, the limiters, the validator of the proxy, and two
  histories, the requests sent upstream and the access log. A request is handled in one event
  (the control requests also operation by operation, in \<open>Interleaving\<close>),
  at one clock reading (and a second one for a key that is fetched); the goroutines of the
  store, the server and \<open>main\<close> are events of their own and interleave freely with requests.
  Times are nanoseconds since Go's zero time as \<open>int\<close>; durations and the integers of tokens
  wrap and saturate at 64 bits where Go's do; request counters are unbounded. A Go map is a
  partial function, and every operation whose result depends on the iteration order takes the
  order as an argument.

  \<^bold>\<open>What the lemmas show.\<close> The \<open>_Claims\<close> theories hold the properties, each with a witness on a
  concrete input; the lemmas under them are in the component theories.
  \<^item> What reaches the upstream, for one request and over every run of a process; where it goes;
    that identity headers cannot be forged; what is logged.
  \<^item> What makes a token, an API key, a claim filter or an admin request acceptable, as
    equivalences with a specification on the input, and the round trip of signing and
    validating.
  \<^item> The limiter against its reference without cleanup, the bound per minute, the ban, the
    bound of the delay slots; and what the limiter means for a process: how often it forwards
    requests of one address.
  \<^item> The rule stores against one abstract specification, the convergence of a
    cluster to the collection, the bound of a throttle rule, and the validity of the rules in every state of a process.
  \<^item> Which configurations load and start, with which exit codes, which rules are in force
    first, and how a process ends.
  \<^item> Where the code does not do what its comments or documents say, as theorems about the code.

  \<^bold>\<open>Fuel and termination.\<close> No definition takes fuel: loops are structural or have a measure, except
  the initial load of the Firestore store, which may not end and is a \<open>partial_function\<close>; that
  it ends over an iterator that ends, and does not when the iterator keeps failing, are
  theorems. After a signal a process ends within four events of its goroutines.

  \<^bold>\<open>What is not modelled, and why.\<close> Arguments of the model, because their code is not in the
  repository: the TOML parser, the text of JSON (parsing and printing; reading a parsed value
  into Go data is modelled), regular expressions, hashes and signature primitives, \<open>url.Parse\<close>,
  the network and the upstream's answers, the Firestore client. Left out: what \<open>slog\<close> writes
  (but for the summary of the configuration), the timeouts of \<open>http.Server\<close>, protocol upgrades
  and \<open>TE\<close> in the reverse proxy, percent-escapes in paths, letters beyond ASCII in case
  mapping, the generation of test keys. The end-to-end tests, the deployment files and the
  documents hold no program logic.
\<close>

end
